(* ===== verification/Prelude.thy ===== *)
theory Prelude
  imports Main "HOL-Library.Word" "HOL-Library.Multiset"
begin

unbundle bit_operations_syntax

text \<open>
  Shared vocabulary of the development: the machine types of the C++ code, the faults an
  operation can end in, the conversion between \<open>char\<close> and \<open>uint8_t\<close>, the big-endian
  integer codecs of the wire format, and the interface (\<open>fixed_codec\<close>,
  \<open>length_prefixed\<close>) through which the message and handshake formats use them.

  A \<open>std::vector<uint8_t>\<close> is a \<open>byte list\<close>; a \<open>std::string\<close> is a HOL \<open>string\<close>, whose
  characters are 8-bit bytes as C++ \<open>char\<close>s are; \<open>uint16_t\<close>, \<open>uint32_t\<close> and \<open>int64_t\<close>
  keep their width.
\<close>

section \<open>Machine types and faults\<close>

type_synonym byte = "8 word"
type_synonym u16 = "16 word"
type_synonym u32 = "32 word"
type_synonym i64 = "64 word"

text \<open>
  \<open>std::chrono::system_clock::time_point\<close> counts nanoseconds in an \<open>int64_t\<close> (libstdc++);
  the word is read in two's complement by \<open>sint\<close>.
\<close>
type_synonym time_point = i64

text \<open>
  The ways in which an operation does not return a value: the standard exceptions the code
  throws or lets through, the exception of the ZeroMQ binding, a call of \<open>std::terminate\<close>, and
  undefined behaviour (a read outside a buffer, signed overflow, a null dereference). The last two
  are no exceptions: no \<open>catch\<close> clause sees them.
\<close>
datatype fault =
    RuntimeError string
  | InvalidArgument string
  | OutOfRange string
  | ZmqError string
  | Terminates string
  | UndefinedBehaviour string

type_synonym 'a result = "fault + 'a"

fun is_exception :: "fault \<Rightarrow> bool" where
  "is_exception (UndefinedBehaviour _) = False"
| "is_exception (Terminates _) = False"
| "is_exception _ = True"

text \<open>
  What the operations read from outside the program on one call: the wall clock, the order in
  which the iterators of an \<open>unordered_map\<close> visit the keys (unspecified by the standard: any
  permutation), the indeterminate values that uninitialised \<open>uint16_t\<close> and \<open>bool\<close> members
  hold, and whether a file can be opened for writing.
\<close>
record env =
  clock_now :: time_point
  hash_order :: "string list \<Rightarrow> string list"
  indeterminate_port :: u16
  indeterminate_flag :: bool
  can_open_for_writing :: "string \<Rightarrow> bool"

text \<open>A concrete environment, used where a theorem is applied to closed values.\<close>
definition example_env :: env where
  "example_env = \<lparr>clock_now = 42000000, hash_order = rev, indeterminate_port = 999,
     indeterminate_flag = False, can_open_for_writing = (\<lambda>_. True)\<rparr>"

definition permutes_keys :: "'a env_scheme \<Rightarrow> bool" where
  "permutes_keys e \<longleftrightarrow> (\<forall>ks. mset (hash_order e ks) = mset ks)"

text \<open>Facts on byte and text encodings (\<open>wire_simps\<close>) and case splits of results (\<open>result_simps\<close>).\<close>
named_theorems wire_simps
named_theorems result_simps

section \<open>Characters and bytes\<close>

lemma unat_byte_less: "unat (b :: byte) < 256"
  using unsigned_less [of b, where ?'a = nat] by simp

lemma unat_u16_less: "unat (n :: u16) < 65536"
  using unsigned_less [of n, where ?'a = nat] by simp

definition byte_of_char :: "char \<Rightarrow> byte" where
  "byte_of_char c = word_of_nat (of_char c)"

definition char_of_byte :: "byte \<Rightarrow> char" where
  "char_of_byte b = char_of (unat b)"

definition string_to_bytes :: "string \<Rightarrow> byte list" where
  "string_to_bytes s = map byte_of_char s"

definition bytes_to_string :: "byte list \<Rightarrow> string" where
  "bytes_to_string bs = map char_of_byte bs"

lemma char_of_byte_of_char [simp]: "char_of_byte (byte_of_char c) = c"
  by (simp add: char_of_byte_def byte_of_char_def unat_of_nat)

lemma byte_of_char_of_byte [simp]: "byte_of_char (char_of_byte b) = b"
  using unat_byte_less [of b] by (simp add: char_of_byte_def byte_of_char_def)

lemma bytes_to_string_to_bytes [simp]: "bytes_to_string (string_to_bytes s) = s"
  by (simp add: bytes_to_string_def string_to_bytes_def comp_def)

lemma string_to_bytes_to_string [simp]: "string_to_bytes (bytes_to_string bs) = bs"
  by (simp add: bytes_to_string_def string_to_bytes_def comp_def)

lemma length_string_to_bytes [simp]: "length (string_to_bytes s) = length s"
  by (simp add: string_to_bytes_def)

lemma length_bytes_to_string [simp]: "length (bytes_to_string bs) = length bs"
  by (simp add: bytes_to_string_def)

lemma string_to_bytes_append [simp]:
  "string_to_bytes (s @ t) = string_to_bytes s @ string_to_bytes t"
  by (simp add: string_to_bytes_def)

section \<open>Big-endian integers\<close>

text \<open>
  The reference encoding: the \<open>n\<close> low bytes of a word, most significant first, and the
  accumulation of such bytes. The shift expressions of the C++ code are proved equal to these.
\<close>

fun be_bytes :: "nat \<Rightarrow> 'a::len word \<Rightarrow> byte list" where
  "be_bytes 0 w = []"
| "be_bytes (Suc n) w = ucast (drop_bit (8 * n) w) # be_bytes n w"

definition be_accumulate :: "'a::len word \<Rightarrow> byte list \<Rightarrow> 'a word" where
  "be_accumulate acc bs = foldl (\<lambda>t b. push_bit 8 t OR ucast b) acc bs"

lemma length_be_bytes [simp]: "length (be_bytes n w) = n"
  by (induction n) auto

lemma be_accumulate_Nil [simp]: "be_accumulate acc [] = acc"
  by (simp add: be_accumulate_def)

lemma be_accumulate_Cons [simp]:
  "be_accumulate acc (b # bs) = be_accumulate (push_bit 8 acc OR ucast b) bs"
  by (simp add: be_accumulate_def)

lemma be_accumulate_be_bytes:
  fixes w :: "'a::len word"
  shows "be_accumulate acc (be_bytes n w) = push_bit (8 * n) acc OR take_bit (8 * n) w"
proof (induction n arbitrary: acc)
  case 0
  then show ?case by simp
next
  case (Suc n)
  have "push_bit (8 * n) (push_bit 8 acc OR ucast (ucast (drop_bit (8 * n) w) :: byte))
      OR take_bit (8 * n) w = push_bit (8 * Suc n) acc OR take_bit (8 * Suc n) w"
    by (rule bit_word_eqI) (auto simp add: bit_simps add.commute)
  with Suc.IH show ?case by simp
qed

lemma be_accumulate_0_be_bytes [wire_simps]:
  "8 * n = LENGTH('a) \<Longrightarrow> be_accumulate 0 (be_bytes n (w :: 'a::len word)) = w"
  by (simp add: be_accumulate_be_bytes take_bit_word_eq_self)

text \<open>The shift expressions of the code: \<open>idLen\<close>, \<open>payloadSize\<close> and the timestamp.\<close>

definition put_u16 :: "u16 \<Rightarrow> byte list" where
  "put_u16 n = [ucast (drop_bit 8 n AND 0xFF), ucast (n AND 0xFF)]"

definition get_u16 :: "byte \<Rightarrow> byte \<Rightarrow> u16" where
  "get_u16 hi lo = push_bit 8 (ucast hi) OR ucast lo"

definition put_u32 :: "u32 \<Rightarrow> byte list" where
  "put_u32 n = [ucast (drop_bit 24 n AND 0xFF), ucast (drop_bit 16 n AND 0xFF),
                ucast (drop_bit 8 n AND 0xFF), ucast (n AND 0xFF)]"

definition get_u32 :: "byte \<Rightarrow> byte \<Rightarrow> byte \<Rightarrow> byte \<Rightarrow> u32" where
  "get_u32 a b c d =
     push_bit 24 (ucast a) OR push_bit 16 (ucast b) OR push_bit 8 (ucast c) OR ucast d"

definition get_i64 :: "byte list \<Rightarrow> i64" where
  "get_i64 bs = foldl (\<lambda>t i. push_bit 8 t OR ucast (bs ! i)) 0 [0, 1, 2, 3, 4, 5, 6, 7]"

definition put_i64 :: "i64 \<Rightarrow> byte list" where
  "put_i64 t = map (\<lambda>i. ucast (signed_drop_bit (i * 8) t AND 0xFF)) [7, 6, 5, 4, 3, 2, 1, 0]"

lemma ucast_and_255 [simp]: "ucast (w AND 255) = (ucast (w :: 'a::len word) :: byte)"
proof -
  have "w AND 255 = take_bit 8 w"
    by (simp add: take_bit_eq_mask mask_eq_exp_minus_1)
  then show ?thesis by (simp) (rule bit_word_eqI, simp add: bit_simps)
qed

lemma put_u16_be [wire_simps]: "put_u16 n = be_bytes 2 n"
  by (simp add: put_u16_def numeral_2_eq_2)

lemma put_u32_be [wire_simps]: "put_u32 n = be_bytes 4 n"
  by (simp add: put_u32_def numeral_eq_Suc)

lemma ucast_signed_drop_bit:
  "n + 8 \<le> LENGTH('a) \<Longrightarrow> ucast (signed_drop_bit n (w :: 'a::len word)) = (ucast (drop_bit n w) :: byte)"
  by (rule bit_word_eqI) (auto simp: bit_simps)

lemma put_i64_be [wire_simps]: "put_i64 t = be_bytes 8 t"
  by (simp add: put_i64_def ucast_signed_drop_bit numeral_eq_Suc)

lemma get_u16_be [wire_simps]: "get_u16 a b = be_accumulate 0 [a, b]"
  by (simp add: get_u16_def)

lemma get_u32_be [wire_simps]: "get_u32 a b c d = be_accumulate 0 [a, b, c, d]"
  by (simp add: get_u32_def push_bit_or or.assoc)

lemma get_i64_be [wire_simps]: "8 \<le> length bs \<Longrightarrow> get_i64 bs = be_accumulate 0 (take 8 bs)"
proof -
  assume "8 \<le> length bs"
  then have "take 8 bs = map ((!) bs) [0, 1, 2, 3, 4, 5, 6, 7]"
    by (intro nth_equalityI) (auto simp: less_Suc_eq numeral_eq_Suc)
  then show ?thesis by (simp add: get_i64_def)
qed

lemma be_accumulate_append [simp]:
  "be_accumulate acc (bs @ cs) = be_accumulate (be_accumulate acc bs) cs"
  by (simp add: be_accumulate_def)

lemma be_bytes_snoc: "be_bytes (Suc n) w = be_bytes n (drop_bit 8 w) @ [ucast w]"
  by (induction n) (simp_all add: add.commute)

lemma be_bytes_be_accumulate [wire_simps]:
  "8 * length bs \<le> LENGTH('a) \<Longrightarrow>
     be_bytes (length bs) (be_accumulate acc bs :: 'a::len word) = bs"
proof (induction bs arbitrary: acc rule: rev_induct)
  case Nil
  then show ?case by simp
next
  case (snoc b bs)
  let ?w = "be_accumulate acc bs :: 'a word"
  have high: "be_bytes (length bs) (drop_bit 8 (push_bit 8 ?w OR ucast b)) = be_bytes (length bs) ?w"
  proof -
    have "ucast (drop_bit (8 * i) (drop_bit 8 (push_bit 8 ?w OR ucast b))) = (ucast (drop_bit (8 * i) ?w) :: byte)"
      if "8 * i + 16 \<le> LENGTH('a)" for i
      using that by (intro bit_word_eqI) (auto simp: bit_simps dest: bit_imp_le_length)
    then have "be_bytes n (drop_bit 8 (push_bit 8 ?w OR ucast b)) = be_bytes n ?w"
      if "8 * n + 8 \<le> LENGTH('a)" for n
      using that by (induction n) auto
    with snoc.prems show ?thesis by simp
  qed
  have low: "ucast (push_bit 8 ?w OR ucast b) = b"
    using snoc.prems by (intro bit_word_eqI) (auto simp: bit_simps)
  from high low snoc show ?case by (simp del: be_bytes.simps add: be_bytes_snoc)
qed

section \<open>The codec interface\<close>

text \<open>
  What a reader of the wire format relies on: an encoder of fixed width and a decoder that
  reads its value off the front of a buffer, inverse to each other.
\<close>

locale fixed_codec =
  fixes enc :: "'a \<Rightarrow> byte list"
    and dec :: "byte list \<Rightarrow> 'a"
    and width :: nat
  assumes length_enc: "length (enc x) = width"
    and dec_enc: "dec (enc x @ rest) = x"
    and enc_dec: "width \<le> length bs \<Longrightarrow> enc (dec bs) = take width bs"
begin

lemma enc_eq_iff: "enc x = enc y \<longleftrightarrow> x = y"
  by (metis append_Nil2 dec_enc)

lemma enc_append_eq_iff: "enc x @ r = enc y @ s \<longleftrightarrow> x = y \<and> r = s"
  by (metis append_eq_append_conv dec_enc length_enc)

lemma drop_enc: "drop width (enc x @ rest) = rest"
  by (simp add: length_enc)

lemma take_enc: "take width (enc x @ rest) = enc x"
  by (simp add: length_enc)

end

text \<open>
  A block written behind its length: the format of the peer id in a handshake and of every
  entry of a peer list. The length is stored modulo the range of the prefix, so the block is
  recovered exactly when it fits.
\<close>

locale length_prefixed = fixed_codec enc dec width
  for enc :: "'w::len word \<Rightarrow> byte list" and dec and width
begin

lemma decoded_length:
  "unat (dec (enc (of_nat (length xs)) @ xs @ rest)) = length xs mod 2 ^ LENGTH('w)"
  by (simp add: dec_enc unat_of_nat)

lemma block_fits:
  assumes "length xs < 2 ^ LENGTH('w)"
  shows "take (unat (dec (enc (of_nat (length xs)) @ xs @ rest)))
           (drop width (enc (of_nat (length xs)) @ xs @ rest)) = xs"
    and "drop (unat (dec (enc (of_nat (length xs)) @ xs @ rest)))
           (drop width (enc (of_nat (length xs)) @ xs @ rest)) = rest"
  using assms by (simp_all add: decoded_length length_enc)

end

interpretation u16_field: length_prefixed put_u16 "\<lambda>bs. get_u16 (bs ! 0) (bs ! 1)" 2
proof unfold_locales
  show "length (put_u16 x) = 2" for x by (simp add: wire_simps)
  show "get_u16 ((put_u16 x @ rest) ! 0) ((put_u16 x @ rest) ! 1) = x" for x rest
    using be_accumulate_0_be_bytes [of 2 x] by (simp add: put_u16_def get_u16_def numeral_2_eq_2)
  show "put_u16 (get_u16 (bs ! 0) (bs ! 1)) = take 2 bs" if "2 \<le> length bs" for bs
  proof -
    from that have "take 2 bs = [bs ! 0, bs ! 1]"
      by (intro nth_equalityI) (auto simp: less_Suc_eq numeral_eq_Suc)
    then show ?thesis
      using be_bytes_be_accumulate [of "[bs ! 0, bs ! 1]" "0 :: u16"] by (simp add: wire_simps numeral_2_eq_2)
  qed
qed

interpretation u32_field:
  fixed_codec put_u32 "\<lambda>bs. get_u32 (bs ! 0) (bs ! 1) (bs ! 2) (bs ! 3)" 4
proof unfold_locales
  show "length (put_u32 x) = 4" for x by (simp add: wire_simps)
  show "get_u32 ((put_u32 x @ rest) ! 0) ((put_u32 x @ rest) ! 1) ((put_u32 x @ rest) ! 2)
          ((put_u32 x @ rest) ! 3) = x" for x rest
    using be_accumulate_0_be_bytes [of 4 x] by (simp add: put_u32_def get_u32_be numeral_eq_Suc)
  show "put_u32 (get_u32 (bs ! 0) (bs ! 1) (bs ! 2) (bs ! 3)) = take 4 bs" if "4 \<le> length bs" for bs
  proof -
    from that have "take 4 bs = [bs ! 0, bs ! 1, bs ! 2, bs ! 3]"
      by (intro nth_equalityI) (auto simp: less_Suc_eq numeral_eq_Suc)
    then show ?thesis
      using be_bytes_be_accumulate [of "[bs ! 0, bs ! 1, bs ! 2, bs ! 3]" "0 :: u32"]
      by (simp add: wire_simps numeral_eq_Suc)
  qed
qed

interpretation i64_field: fixed_codec put_i64 get_i64 8
proof unfold_locales
  show "length (put_i64 x) = 8" for x by (simp add: wire_simps)
  show "get_i64 (put_i64 x @ rest) = x" for x rest
    by (simp add: get_i64_be put_i64_be be_accumulate_0_be_bytes)
  show "put_i64 (get_i64 bs) = take 8 bs" if "8 \<le> length bs" for bs
    using that be_bytes_be_accumulate [of "take 8 bs" "0 :: i64"]
    by (simp add: get_i64_be put_i64_be)
qed

end
