(* ===== verification/Message.thy ===== *)
theory Message
  imports Prelude "HOL-Library.Signed_Division"
begin

text \<open>
  The message protocol: \<open>Include/Message.hpp\<close> and \<open>Source/Message.cpp\<close>. A message is a type,
  a payload and a timestamp; on the wire it is a 13-byte header (type, big-endian 32-bit payload
  size, big-endian 64-bit milliseconds) followed by the payload.

  The arithmetic keeps the widths of the code: the payload size is cast to 32 bits, the sum
  \<open>13 + payloadSize\<close> of the length check wraps at 32 bits, the timestamp is shifted
  arithmetically and scaled in 64-bit signed arithmetic, whose overflow is undefined.
\<close>

section \<open>Data\<close>

text \<open>
  \<open>enum class MessageType : uint8_t\<close>. An enumeration with a fixed underlying type holds every
  value of that type, so a byte without an enumerator is a value too: \<open>UNNAMED\<close>.
\<close>
datatype MessageType =
    TEXT | HANDSHAKE | PEER_LIST | PING | PONG | FILE_CHUNK | KEY_EXCHANGE
  | UNNAMED byte

fun underlying :: "MessageType \<Rightarrow> byte" where
  "underlying TEXT = 0"
| "underlying HANDSHAKE = 1"
| "underlying PEER_LIST = 2"
| "underlying PING = 3"
| "underlying PONG = 4"
| "underlying FILE_CHUNK = 5"
| "underlying KEY_EXCHANGE = 6"
| "underlying (UNNAMED b) = b"

definition MessageType_of :: "byte \<Rightarrow> MessageType" where
  "MessageType_of b =
     (if b = 0 then TEXT else if b = 1 then HANDSHAKE else if b = 2 then PEER_LIST
      else if b = 3 then PING else if b = 4 then PONG else if b = 5 then FILE_CHUNK
      else if b = 6 then KEY_EXCHANGE else UNNAMED b)"

text \<open>The class \<open>Message\<close>: the members \<open>type_\<close>, \<open>payload_\<close> and \<open>timestamp_\<close>.\<close>
record Message =
  msg_type :: MessageType
  msg_payload :: "byte list"
  msg_timestamp :: time_point

section \<open>Operations\<close>

text \<open>
  The constructors. The member initialiser \<open>timestamp_ = system_clock::now()\<close> runs in both, so
  both read the clock.
\<close>
definition Message_default :: "'a env_scheme \<Rightarrow> Message" where
  "Message_default e = \<lparr>msg_type = TEXT, msg_payload = [], msg_timestamp = clock_now e\<rparr>"

definition Message_make :: "'a env_scheme \<Rightarrow> MessageType \<Rightarrow> byte list \<Rightarrow> Message" where
  "Message_make e t p = \<lparr>msg_type = t, msg_payload = p, msg_timestamp = clock_now e\<rparr>"

definition GetType :: "Message \<Rightarrow> MessageType" where
  "GetType m = msg_type m"

definition GetPayload :: "Message \<Rightarrow> byte list" where
  "GetPayload m = msg_payload m"

definition GetTimestamp :: "Message \<Rightarrow> time_point" where
  "GetTimestamp m = msg_timestamp m"

definition SetType :: "MessageType \<Rightarrow> Message \<Rightarrow> Message" where
  "SetType t m = m\<lparr>msg_type := t\<rparr>"

definition SetPayload :: "byte list \<Rightarrow> Message \<Rightarrow> Message" where
  "SetPayload p m = m\<lparr>msg_payload := p\<rparr>"

text \<open>
  \<open>duration_cast<milliseconds>(\<dots>).count()\<close> divides the nanoseconds by a million, rounding
  towards zero; \<open>time_point(milliseconds(t))\<close> multiplies by a million in \<open>int64_t\<close>, where a
  result out of range is signed overflow.
\<close>
definition to_milliseconds :: "time_point \<Rightarrow> i64" where
  "to_milliseconds t = word_of_int (sint t sdiv 1000000)"

definition from_milliseconds :: "i64 \<Rightarrow> time_point result" where
  "from_milliseconds ms =
     (let ns = sint ms * 1000000 in
      if - (2 ^ 63) \<le> ns \<and> ns < 2 ^ 63 then Inr (word_of_int ns)
      else Inl (UndefinedBehaviour ''signed overflow in chrono conversion''))"

definition Serialize :: "Message \<Rightarrow> byte list" where
  "Serialize m =
     (let payloadSize = (of_nat (length (msg_payload m)) :: u32);
          timestamp = to_milliseconds (msg_timestamp m)
      in [underlying (msg_type m)] @ put_u32 payloadSize @ put_i64 timestamp @ msg_payload m)"

text \<open>
  \<open>data.size() < 13 + payloadSize\<close> adds in \<open>uint32_t\<close>, so the bound wraps; the range
  \<open>[begin + 13, begin + 13 + payloadSize)\<close> that is then copied does not. Copying past the end
  of \<open>data\<close> is undefined. The three members of the default-constructed message are all
  overwritten, so its clock value does not reach the result.
\<close>
definition Deserialize :: "byte list \<Rightarrow> Message result" where
  "Deserialize data =
     (if length data < 13 then Inl (RuntimeError ''Invalid message: too short'')
      else
        let payloadSize = get_u32 (data ! 1) (data ! 2) (data ! 3) (data ! 4) in
        if length data < unat (13 + payloadSize)
        then Inl (RuntimeError ''Invalid message: payload size mismatch'')
        else
          case from_milliseconds (get_i64 (drop 5 data)) of
            Inl f \<Rightarrow> Inl f
          | Inr ts \<Rightarrow>
              if length data < 13 + unat payloadSize
              then Inl (UndefinedBehaviour ''payload copied from outside the buffer'')
              else Inr \<lparr>msg_type = MessageType_of (data ! 0),
                        msg_payload = take (unat payloadSize) (drop 13 data),
                        msg_timestamp = ts\<rparr>)"

definition CreateTextMessage :: "'a env_scheme \<Rightarrow> string \<Rightarrow> Message" where
  "CreateTextMessage e text = Message_make e TEXT (string_to_bytes text)"

definition CreateHandshakeMessage :: "'a env_scheme \<Rightarrow> string \<Rightarrow> byte list \<Rightarrow> Message" where
  "CreateHandshakeMessage e peerId pubKey =
     Message_make e HANDSHAKE
       (put_u16 (of_nat (length peerId)) @ string_to_bytes peerId @ pubKey)"

fun peer_entries :: "string list \<Rightarrow> byte list" where
  "peer_entries [] = []"
| "peer_entries (p # ps) = put_u16 (of_nat (length p)) @ string_to_bytes p @ peer_entries ps"

definition CreatePeerListMessage :: "'a env_scheme \<Rightarrow> string list \<Rightarrow> Message" where
  "CreatePeerListMessage e ps =
     Message_make e PEER_LIST (put_u16 (of_nat (length ps)) @ peer_entries ps)"

definition CreatePingMessage :: "'a env_scheme \<Rightarrow> Message" where
  "CreatePingMessage e = Message_make e PING []"

definition CreatePongMessage :: "'a env_scheme \<Rightarrow> Message" where
  "CreatePongMessage e = Message_make e PONG []"

section \<open>Specification\<close>

text \<open>
  A value of \<open>MessageType\<close> is written in its enumerator where it has one. Messages the program
  builds or receives satisfy this.
\<close>
fun type_wf :: "MessageType \<Rightarrow> bool" where
  "type_wf (UNNAMED b) = (6 < b)"
| "type_wf _ = True"

definition message_wf :: "Message \<Rightarrow> bool" where
  "message_wf m = type_wf (msg_type m)"

text \<open>A message as the receiver sees it: the timestamp in whole milliseconds.\<close>
definition whole_milliseconds :: "Message \<Rightarrow> Message" where
  "whole_milliseconds m =
     m\<lparr>msg_timestamp := word_of_int ((sint (msg_timestamp m) sdiv 1000000) * 1000000)\<rparr>"

text \<open>The payload size a header announces, and whether its timestamp fits the clock.\<close>
definition announced_size :: "byte list \<Rightarrow> nat" where
  "announced_size data = unat (get_u32 (data ! 1) (data ! 2) (data ! 3) (data ! 4))"

definition timestamp_fits :: "byte list \<Rightarrow> bool" where
  "timestamp_fits data \<longleftrightarrow>
     - (2 ^ 63) \<le> sint (get_i64 (drop 5 data)) * 1000000 \<and>
     sint (get_i64 (drop 5 data)) * 1000000 < 2 ^ 63"

text \<open>A reader of the peer list layout that the comments of \<open>CreatePeerListMessage\<close> describe.\<close>
fun read_peers :: "nat \<Rightarrow> byte list \<Rightarrow> string list option" where
  "read_peers 0 bs = (if bs = [] then Some [] else None)"
| "read_peers (Suc n) bs =
     (if length bs < 2 then None
      else let len = unat (get_u16 (bs ! 0) (bs ! 1)); body = drop 2 bs in
           if length body < len then None
           else map_option ((#) (bytes_to_string (take len body))) (read_peers n (drop len body)))"

definition read_peer_list :: "byte list \<Rightarrow> string list option" where
  "read_peer_list bs =
     (if length bs < 2 then None else read_peers (unat (get_u16 (bs ! 0) (bs ! 1))) (drop 2 bs))"

section \<open>Lemmas\<close>

lemma MessageType_of_underlying: "type_wf t \<Longrightarrow> MessageType_of (underlying t) = t"
  by (cases t) (auto simp: MessageType_of_def)

lemma underlying_MessageType_of [simp]: "underlying (MessageType_of b) = b"
  by (simp add: MessageType_of_def)

lemma type_wf_MessageType_of [simp]: "type_wf (MessageType_of b)"
proof -
  have "6 < b" if "b \<noteq> 0" "b \<noteq> 1" "b \<noteq> 2" "b \<noteq> 3" "b \<noteq> 4" "b \<noteq> 5" "b \<noteq> 6"
    using that by unat_arith
  then show ?thesis by (simp add: MessageType_of_def)
qed

lemma sint_i64_range: "- (2 ^ 63) \<le> sint t \<and> sint t < 2 ^ 63" for t :: i64
  using sint_ge [of t] sint_lt [of t] by simp

lemma sint_word_of_int_i64:
  "- (2 ^ 63) \<le> k \<Longrightarrow> k < 2 ^ 63 \<Longrightarrow> sint (word_of_int k :: i64) = k"
  by (simp add: sint_sbintrunc' signed_take_bit_int_eq_self)

lemma sdiv_million:
  fixes x :: int
  shows "0 \<le> x \<Longrightarrow> 0 \<le> x sdiv 1000000 * 1000000 \<and> x sdiv 1000000 * 1000000 \<le> x"
    and "x \<le> 0 \<Longrightarrow> x \<le> x sdiv 1000000 * 1000000 \<and> x sdiv 1000000 * 1000000 \<le> 0"
    and "\<bar>x - x sdiv 1000000 * 1000000\<bar> < 1000000"
    and "(x * 1000000) sdiv 1000000 = x"
  by (cases "0 \<le> x"; simp add: signed_divide_int_def sgn_if; linarith)+

lemma sdiv_million_i64:
  "- (2 ^ 63) \<le> sint t sdiv 1000000 * 1000000 \<and> sint t sdiv 1000000 * 1000000 < 2 ^ 63"
  for t :: i64
  using sint_i64_range [of t] sdiv_million(1,2) [of "sint t"] by linarith

lemma to_milliseconds_sint: "sint (to_milliseconds t) = sint t sdiv 1000000"
  using sdiv_million_i64 [of t] unfolding to_milliseconds_def
  by (intro sint_word_of_int_i64) linarith+

lemma from_to_milliseconds:
  "from_milliseconds (to_milliseconds t) = Inr (word_of_int (sint t sdiv 1000000 * 1000000))"
  using sdiv_million_i64 [of t] unfolding from_milliseconds_def to_milliseconds_sint Let_def
  by (simp only: if_True simp_thms)

lemma to_from_milliseconds:
  assumes "from_milliseconds ms = Inr t"
  shows "to_milliseconds t = ms"
proof -
  from assms have "t = word_of_int (sint ms * 1000000)"
    and "- (2 ^ 63) \<le> sint ms * 1000000" "sint ms * 1000000 < 2 ^ 63"
    unfolding from_milliseconds_def Let_def by (simp_all only: split: if_splits) auto
  then have "sint t = sint ms * 1000000"
    by (simp only: sint_word_of_int_i64)
  then show ?thesis
    by (simp only: to_milliseconds_def sdiv_million(4) of_int_sint scast_id)
qed

lemma length_Serialize: "length (Serialize m) = 13 + length (msg_payload m)"
  by (simp add: Serialize_def Let_def u32_field.length_enc i64_field.length_enc)

text \<open>The header fields of a serialised message, as \<open>Deserialize\<close> reads them.\<close>

lemma Serialize_split:
  "Serialize m = underlying (msg_type m)
     # put_u32 (of_nat (length (msg_payload m))) @ put_i64 (to_milliseconds (msg_timestamp m))
     @ msg_payload m"
  by (simp add: Serialize_def Let_def)

lemma size_field_nth:
  "put_u32 n = [a, b, c, d] \<Longrightarrow> get_u32 a b c d = n"
  using u32_field.dec_enc [of n "[]"] by simp

lemma put_u32_cases: obtains a b c d where "put_u32 n = [a, b, c, d]" "get_u32 a b c d = n"
  using size_field_nth [of n] unfolding put_u32_def by blast

lemma Serialize_fields:
  shows "Serialize m ! 0 = underlying (msg_type m)"
    and "get_u32 (Serialize m ! 1) (Serialize m ! 2) (Serialize m ! 3) (Serialize m ! 4)
           = of_nat (length (msg_payload m))"
    and "get_i64 (drop 5 (Serialize m)) = to_milliseconds (msg_timestamp m)"
    and "drop 13 (Serialize m) = msg_payload m"
proof -
  obtain a b c d where *: "put_u32 (of_nat (length (msg_payload m))) = [a, b, c, d]"
    and n: "get_u32 a b c d = of_nat (length (msg_payload m))"
    by (rule put_u32_cases)
  have split: "Serialize m = [underlying (msg_type m), a, b, c, d]
      @ put_i64 (to_milliseconds (msg_timestamp m)) @ msg_payload m"
    by (simp add: Serialize_split *)
  show "Serialize m ! 0 = underlying (msg_type m)"
    and "get_u32 (Serialize m ! 1) (Serialize m ! 2) (Serialize m ! 3) (Serialize m ! 4)
           = of_nat (length (msg_payload m))"
    and "get_i64 (drop 5 (Serialize m)) = to_milliseconds (msg_timestamp m)"
    by (simp_all add: split n i64_field.dec_enc)
  have "drop 13 (Serialize m) = drop 8 (drop 5 (Serialize m))"
    by simp
  then show "drop 13 (Serialize m) = msg_payload m"
    by (simp add: split i64_field.length_enc)
qed

lemmas Serialize_reads = Serialize_fields [unfolded One_nat_def]

lemma from_milliseconds_fits:
  "from_milliseconds (get_i64 (drop 5 data)) =
     (if timestamp_fits data then Inr (word_of_int (sint (get_i64 (drop 5 data)) * 1000000))
      else Inl (UndefinedBehaviour ''signed overflow in chrono conversion''))"
  unfolding from_milliseconds_def timestamp_fits_def Let_def by (rule refl)

lemma wrapped_bound:
  "unat (13 + n :: u32) = (if unat n < 2 ^ 32 - 13 then 13 + unat n else 13 + unat n - 2 ^ 32)"
proof -
  have "unat n < 2 ^ 32" using unsigned_less [of n] by simp
  moreover have "unat (13 + n) = (13 + unat n) mod 2 ^ 32" by (simp add: unat_word_ariths)
  ultimately show ?thesis by (simp add: le_mod_geq)
qed

text \<open>\<open>Deserialize\<close> by cases of the announced size.\<close>

lemma Deserialize_cases:
  "Deserialize data =
     (if length data < 13 then Inl (RuntimeError ''Invalid message: too short'')
      else if announced_size data < 2 ^ 32 - 13 \<and> length data < 13 + announced_size data
      then Inl (RuntimeError ''Invalid message: payload size mismatch'')
      else if \<not> timestamp_fits data
      then Inl (UndefinedBehaviour ''signed overflow in chrono conversion'')
      else if length data < 13 + announced_size data
      then Inl (UndefinedBehaviour ''payload copied from outside the buffer'')
      else Inr \<lparr>msg_type = MessageType_of (data ! 0),
                msg_payload = take (announced_size data) (drop 13 data),
                msg_timestamp = word_of_int (sint (get_i64 (drop 5 data)) * 1000000)\<rparr>)"
proof -
  let ?size = "get_u32 (data ! 1) (data ! 2) (data ! 3) (data ! 4)"
  have size: "unat ?size = announced_size data"
    by (simp only: announced_size_def)
  have "announced_size data < 2 ^ 32"
    unfolding announced_size_def using unsigned_less [of ?size] by simp
  then have check: "length data < unat (13 + ?size) \<longleftrightarrow>
      announced_size data < 2 ^ 32 - 13 \<and> length data < 13 + announced_size data"
    if "\<not> length data < 13"
    using that wrapped_bound [of ?size] unfolding size by (simp split: if_splits)
  show ?thesis
    by (cases "length data < 13"; cases "timestamp_fits data")
      (simp_all only: Deserialize_def Let_def from_milliseconds_fits size check sum.case if_True
        if_False simp_thms)
qed

lemma Deserialize_InrD:
  assumes "Deserialize data = Inr m"
  shows "13 + announced_size data \<le> length data" and "timestamp_fits data"
    and "msg_type m = MessageType_of (data ! 0)"
    and "msg_payload m = take (announced_size data) (drop 13 data)"
    and "from_milliseconds (get_i64 (drop 5 data)) = Inr (msg_timestamp m)"
  using assms unfolding Deserialize_cases from_milliseconds_fits by (auto split: if_splits)

lemma header_split:
  assumes "13 \<le> length data"
  shows "data = data ! 0 # take 4 (drop 1 data) @ take 8 (drop 5 data) @ drop 13 data"
proof -
  from assms have "data = data ! 0 # drop 1 data"
    by (cases data) auto
  moreover have "drop 1 data = take 4 (drop 1 data) @ drop 5 data"
    using append_take_drop_id [of 4 "drop 1 data"] by simp
  moreover have "drop 5 data = take 8 (drop 5 data) @ drop 13 data"
    using append_take_drop_id [of 8 "drop 5 data"] by simp
  ultimately show ?thesis by metis
qed

lemma take_header:
  "length a = 4 \<Longrightarrow> length b = 8 \<Longrightarrow> take (13 + n) (x # a @ b @ c) = x # a @ b @ take n c"
  by (simp add: take_Cons')

lemma read_peers_entries:
  "\<forall>p \<in> set ps. length p < 2 ^ 16 \<Longrightarrow> read_peers (length ps) (peer_entries ps) = Some ps"
proof (induction ps)
  case Nil
  then show ?case by simp
next
  case (Cons p ps)
  then have fits: "length (string_to_bytes p) < 2 ^ LENGTH(16)" by simp
  have bs: "peer_entries (p # ps) =
      put_u16 (of_nat (length (string_to_bytes p))) @ string_to_bytes p @ peer_entries ps"
    by simp
  have "2 \<le> length (peer_entries (p # ps))"
    by (simp add: u16_field.length_enc)
  moreover have "length p \<le> length (drop 2 (peer_entries (p # ps)))"
    by (simp add: u16_field.length_enc)
  moreover have "unat (get_u16 (peer_entries (p # ps) ! 0) (peer_entries (p # ps) ! 1)) = length p"
    using fits unfolding bs u16_field.decoded_length by simp
  moreover note u16_field.block_fits [OF fits, of "peer_entries ps", folded bs]
  ultimately show ?case
    using Cons by (simp del: peer_entries.simps add: Let_def)
qed

lemma read_back:
  assumes "message_wf m" and "length (msg_payload m) < 2 ^ 32 - 13"
  shows "Deserialize (Serialize m) = Inr (whole_milliseconds m)"
proof -
  have size: "unat (of_nat (length (msg_payload m)) :: u32) = length (msg_payload m)"
    using assms(2) by (simp add: unat_of_nat)
  then have bound: "unat (13 + of_nat (length (msg_payload m)) :: u32) = 13 + length (msg_payload m)"
    using assms(2) by (simp add: unat_word_ariths)
  show ?thesis
    using assms(1) by (simp add: Deserialize_def Serialize_reads length_Serialize Let_def size bound
        from_to_milliseconds MessageType_of_underlying message_wf_def whole_milliseconds_def
        Message.equality)
qed

section \<open>Properties\<close>

text \<open>
  C1: Round trip. A message whose payload is shorter than 2^32 - 13 bytes is read back from its
  serialisation with the same type and payload and with its timestamp cut to whole milliseconds.
\<close>
theorem Deserialize_Serialize:
  assumes "message_wf m" and "length (msg_payload m) < 2 ^ 32 - 13"
  shows "Deserialize (Serialize m) = Inr (whole_milliseconds m)"
  using assms by (rule read_back)

theorem Deserialize_Serialize_witness:
  "Deserialize (Serialize \<lparr>msg_type = TEXT, msg_payload = [72, 105], msg_timestamp = 1234567\<rparr>)
     = Inr \<lparr>msg_type = TEXT, msg_payload = [72, 105], msg_timestamp = 1000000\<rparr>"
  using Deserialize_Serialize [of "\<lparr>msg_type = TEXT, msg_payload = [72, 105], msg_timestamp = 1234567\<rparr>"]
  by (simp add: message_wf_def whole_milliseconds_def)

text \<open>
  C33: Acceptance. \<open>Deserialize\<close> returns a message exactly when the buffer holds the header and
  all announced payload bytes and the timestamp fits the clock's 64-bit nanosecond count.
\<close>
theorem Deserialize_accepts_iff:
  "(\<exists>m. Deserialize data = Inr m) \<longleftrightarrow>
     13 \<le> length data \<and> 13 + announced_size data \<le> length data \<and> timestamp_fits data"
  by (auto simp: Deserialize_cases)

text \<open>
  C9: The 32-bit length check. Every buffer whose header announces at least 2^32 - 13 payload
  bytes passes the check, because \<open>13 + payloadSize\<close> wraps to at most 12, and a buffer shorter
  than 4 GiB then makes the copy (or the timestamp conversion before it) undefined.
\<close>
theorem Deserialize_length_check_wraps:
  assumes "13 \<le> length data" and "length data < 2 ^ 32" and "2 ^ 32 - 13 \<le> announced_size data"
  shows "\<exists>why. Deserialize data = Inl (UndefinedBehaviour why)"
  using assms by (auto simp: Deserialize_cases)

theorem Deserialize_length_check_wraps_witness:
  "\<exists>why. Deserialize [0, 255, 255, 255, 255, 0, 0, 0, 0, 0, 0, 0, 0] = Inl (UndefinedBehaviour why)"
  by (rule Deserialize_length_check_wraps) (simp_all add: announced_size_def get_u32_def)

text \<open>
  C32: Canonical form. Whatever buffer a message was read from, serialising the message again
  gives the bytes that were read: the header and the announced payload; bytes behind them are
  ignored.
\<close>
theorem Serialize_Deserialize:
  assumes "Deserialize data = Inr m"
  shows "Serialize m = take (13 + length (msg_payload m)) data"
proof -
  note fields = Deserialize_InrD(3,4) [OF assms]
  let ?n = "announced_size data"
  from assms have len: "13 + ?n \<le> length data" by (rule Deserialize_InrD)
  then have payload: "length (msg_payload m) = ?n" by (simp add: fields)
  have "put_u32 (of_nat ?n) = put_u32 (get_u32 (data ! 1) (data ! 2) (data ! 3) (data ! 4))"
    by (simp add: announced_size_def)
  also have "\<dots> = take 4 (drop 1 data)"
    using len u32_field.enc_dec [of "drop 1 data"] by (simp add: numeral_eq_Suc)
  finally have size: "put_u32 (of_nat ?n) = take 4 (drop 1 data)" .
  have time: "put_i64 (to_milliseconds (msg_timestamp m)) = take 8 (drop 5 data)"
    using len i64_field.enc_dec [of "drop 5 data"] to_from_milliseconds [OF Deserialize_InrD(5) [OF assms]]
    by simp
  have "Serialize m = data ! 0 # take 4 (drop 1 data) @ take 8 (drop 5 data) @ take ?n (drop 13 data)"
    unfolding Serialize_split payload size time by (simp add: fields)
  also have "\<dots> = take (13 + ?n) (data ! 0 # take 4 (drop 1 data) @ take 8 (drop 5 data) @ drop 13 data)"
    using len by (subst take_header) simp_all
  also have "\<dots> = take (13 + ?n) data"
    using header_split [of data] len by simp
  finally show ?thesis unfolding payload .
qed

theorem Serialize_Deserialize_witness:
  "Serialize \<lparr>msg_type = UNNAMED 99, msg_payload = [7], msg_timestamp = 2000000\<rparr>
     = take 14 [99, 0, 0, 0, 1, 0, 0, 0, 0, 0, 0, 0, 2, 7, 8]"
proof -
  have "Deserialize [99, 0, 0, 0, 1, 0, 0, 0, 0, 0, 0, 0, 2, 7, 8] =
      Inr \<lparr>msg_type = UNNAMED 99, msg_payload = [7], msg_timestamp = 2000000\<rparr>"
    by (simp add: Deserialize_def get_u32_def get_i64_def from_milliseconds_def MessageType_of_def)
  from Serialize_Deserialize [OF this] show ?thesis by simp
qed



text \<open>
  Timestamps survive transmission to within a millisecond: the received timestamp differs
  from the sent one by less than a million nanoseconds.
\<close>
theorem received_timestamp_close:
  assumes "length (msg_payload m) < 2 ^ 32 - 13" and "Deserialize (Serialize m) = Inr m'"
  shows "\<bar>sint (msg_timestamp m) - sint (msg_timestamp m')\<bar> < 1000000"
proof -
  have "from_milliseconds (to_milliseconds (msg_timestamp m)) = Inr (msg_timestamp m')"
    using Deserialize_InrD(5) [OF assms(2)] by (simp add: Serialize_reads)
  then have "msg_timestamp m' = word_of_int (sint (msg_timestamp m) sdiv 1000000 * 1000000)"
    unfolding from_to_milliseconds by (simp only: sum.inject)
  then have "sint (msg_timestamp m') = sint (msg_timestamp m) sdiv 1000000 * 1000000"
    using sdiv_million_i64 [of "msg_timestamp m"] by (simp only: sint_word_of_int_i64)
  then show ?thesis
    using sdiv_million(3) [of "sint (msg_timestamp m)"] by (simp only:)
qed

theorem received_timestamp_close_witness:
  "\<bar>sint (1234567 :: time_point) - sint (1000000 :: time_point)\<bar> < 1000000"
proof -
  have "Deserialize (Serialize \<lparr>msg_type = PING, msg_payload = [], msg_timestamp = 1234567\<rparr>)
      = Inr \<lparr>msg_type = PING, msg_payload = [], msg_timestamp = 1000000\<rparr>"
    by (simp add: Deserialize_def Serialize_def to_milliseconds_def put_u32_def put_i64_def
        get_u32_def get_i64_def from_milliseconds_def MessageType_of_def)
  from received_timestamp_close [OF _ this] show ?thesis by simp
qed

text \<open>
  The peer list format is unambiguous: from the payload of \<open>CreatePeerListMessage\<close> the
  list of addresses can be read back, for fewer than 65536 addresses of fewer than 65536 bytes.
\<close>
theorem peer_list_readable:
  assumes "length ps < 2 ^ 16" and "\<forall>p \<in> set ps. length p < 2 ^ 16"
  shows "read_peer_list (GetPayload (CreatePeerListMessage e ps)) = Some ps"
proof -
  let ?bs = "put_u16 (of_nat (length ps)) @ peer_entries ps"
  have "unat (get_u16 (?bs ! 0) (?bs ! 1)) = length ps"
    using assms(1) unfolding u16_field.dec_enc by (simp add: unat_of_nat)
  moreover have "drop 2 ?bs = peer_entries ps" and "2 \<le> length ?bs"
    by (simp_all add: u16_field.length_enc)
  ultimately have "read_peer_list ?bs = read_peers (length ps) (peer_entries ps)"
    by (simp add: read_peer_list_def)
  then show ?thesis
    using read_peers_entries [OF assms(2)]
    by (simp add: CreatePeerListMessage_def Message_make_def GetPayload_def)
qed

theorem peer_list_readable_witness:
  "read_peer_list (GetPayload (CreatePeerListMessage example_env [''10.0.0.1:80'', []]))
     = Some [''10.0.0.1:80'', []]"
  by (rule peer_list_readable) simp_all



end
