(* ===== verification/Cxx_Map.thy ===== *)
theory Cxx_Map
  imports Prelude "HOL-Library.AList"
begin

text \<open>
  \<open>std::unordered_map<std::string, V>\<close> as the program uses it: \<open>find\<close>, assignment through
  \<open>operator[]\<close>, \<open>erase\<close> and range-based \<open>for\<close>. The container is an association list without
  duplicate keys. The standard leaves the iteration order open, so the iteration visits the keys
  in the order the environment gives (\<open>hash_order\<close>), any permutation of them.

  Clients use the container through the interfaces \<open>keyed_store\<close> and \<open>iterable_store\<close>.
\<close>

section \<open>The container\<close>

type_synonym 'v umap = "(string \<times> 'v) list"

definition umap_find :: "string \<Rightarrow> 'v umap \<Rightarrow> 'v option" where
  "umap_find k m = map_of m k"

definition umap_assign :: "string \<Rightarrow> 'v \<Rightarrow> 'v umap \<Rightarrow> 'v umap" where
  "umap_assign k v m = AList.update k v m"

definition umap_erase :: "string \<Rightarrow> 'v umap \<Rightarrow> 'v umap" where
  "umap_erase k m = AList.delete k m"

definition umap_items :: "'e env_scheme \<Rightarrow> 'v umap \<Rightarrow> (string \<times> 'v) list" where
  "umap_items e m =
     List.map_filter (\<lambda>k. map_option (Pair k) (umap_find k m)) (hash_order e (map fst m))"

definition umap_wf :: "'v umap \<Rightarrow> bool" where
  "umap_wf m \<longleftrightarrow> distinct (map fst m)"

section \<open>Interfaces\<close>

text \<open>A store of values under keys: what a lookup returns after each operation.\<close>

locale keyed_store =
  fixes empty :: "'m"
    and find :: "'k \<Rightarrow> 'm \<Rightarrow> 'v option"
    and assign :: "'k \<Rightarrow> 'v \<Rightarrow> 'm \<Rightarrow> 'm"
    and erase :: "'k \<Rightarrow> 'm \<Rightarrow> 'm"
    and wf :: "'m \<Rightarrow> bool"
  assumes find_empty: "find k empty = None"
    and find_assign: "wf m \<Longrightarrow> find j (assign k v m) = (if j = k then Some v else find j m)"
    and find_erase: "wf m \<Longrightarrow> find j (erase k m) = (if j = k then None else find j m)"
    and wf_empty: "wf empty"
    and wf_assign: "wf m \<Longrightarrow> wf (assign k v m)"
    and wf_erase: "wf m \<Longrightarrow> wf (erase k m)"
begin

lemma wf_fold_assign: "wf m \<Longrightarrow> wf (fold (\<lambda>x. assign (key x) (val x)) xs m)"
  by (induction xs arbitrary: m) (auto intro: wf_assign)

text \<open>
  Storing a list of values one after the other: the last value stored under a key wins, other
  keys keep what they had.
\<close>
lemma find_fold_assign:
  assumes "wf m"
  shows "find j (fold (\<lambda>x. assign (key x) (val x)) xs m) =
    (case filter (\<lambda>x. key x = j) (rev xs) of [] \<Rightarrow> find j m | x # _ \<Rightarrow> Some (val x))"
proof (induction xs rule: rev_induct)
  case Nil
  then show ?case by simp
next
  case (snoc x xs)
  then show ?case
    by (auto simp: find_assign wf_fold_assign assms)
qed

lemma find_fold_assign_distinct:
  assumes "wf m" and "distinct (map key xs)" and "x \<in> set xs"
  shows "find (key x) (fold (\<lambda>x. assign (key x) (val x)) xs m) = Some (val x)"
proof -
  from assms(2,3) have "filter (\<lambda>y. key y = key x) (rev xs) = [x]"
    by (induction xs) (auto simp: filter_empty_conv rev_filter [symmetric] rev_image_eqI)
  then show ?thesis by (simp add: find_fold_assign [OF assms(1)])
qed

lemma find_fold_assign_other:
  assumes "wf m" and "j \<notin> key ` set xs"
  shows "find j (fold (\<lambda>x. assign (key x) (val x)) xs m) = find j m"
proof -
  from assms(2) have "filter (\<lambda>y. key y = j) (rev xs) = []"
    by (auto simp: filter_empty_conv)
  then show ?thesis by (simp add: find_fold_assign [OF assms(1)])
qed

text \<open>With distinct keys the order of the stores does not matter.\<close>
lemma find_fold_assign_perm:
  assumes "wf m" and "distinct (map key xs)" and "mset ys = mset xs"
  shows "find j (fold (\<lambda>x. assign (key x) (val x)) ys m)
       = find j (fold (\<lambda>x. assign (key x) (val x)) xs m)"
proof -
  have "mset (map key ys) = mset (map key xs)" using assms(3) by simp
  then have dist: "distinct (map key ys)" using assms(2) by (metis mset_eq_imp_distinct_iff)
  have set: "set ys = set xs" using assms(3) by (rule mset_eq_setD)
  show ?thesis
  proof (cases "j \<in> key ` set xs")
    case True
    then obtain x where "x \<in> set xs" "j = key x" by auto
    with set dist assms show ?thesis
      by (simp add: find_fold_assign_distinct)
  next
    case False
    with set assms show ?thesis
      by (simp add: find_fold_assign_other)
  qed
qed

end

text \<open>A store that can be iterated: every entry is visited exactly once.\<close>

locale iterable_store = keyed_store empty find assign erase wf
  for empty :: "'m"
    and find :: "'k \<Rightarrow> 'm \<Rightarrow> 'v option"
    and assign :: "'k \<Rightarrow> 'v \<Rightarrow> 'm \<Rightarrow> 'm"
    and erase :: "'k \<Rightarrow> 'm \<Rightarrow> 'm"
    and wf :: "'m \<Rightarrow> bool" +
  fixes items :: "'e \<Rightarrow> 'm \<Rightarrow> ('k \<times> 'v) list"
    and fair :: "'e \<Rightarrow> bool"
  assumes distinct_items: "fair e \<Longrightarrow> wf m \<Longrightarrow> distinct (map fst (items e m))"
    and items_find: "fair e \<Longrightarrow> wf m \<Longrightarrow> (k, v) \<in> set (items e m) \<longleftrightarrow> find k m = Some v"
begin

lemma map_of_items: "fair e \<Longrightarrow> wf m \<Longrightarrow> map_of (items e m) = (\<lambda>k. find k m)"
  using distinct_items [of e m] items_find [of e m]
  by (intro ext) (metis map_of_eq_Some_iff not_None_eq)

lemma mset_items_order_irrelevant:
  assumes "fair e" "fair e'" "wf m"
  shows "mset (items e m) = mset (items e' m)"
proof -
  have "distinct (items e m)" "distinct (items e' m)"
    using distinct_items assms by (auto simp: distinct_map)
  moreover have "set (items e m) = set (items e' m)"
    using items_find assms by (metis subrelI subset_antisym)
  ultimately show ?thesis by (simp add: set_eq_iff_mset_eq_distinct)
qed

lemma items_assigned_back:
  assumes "fair e" "wf m"
  shows "find j (fold (\<lambda>x. assign (fst x) (snd x)) (items e m) empty) = find j m"
proof (cases "find j m")
  case (Some v)
  then have "(j, v) \<in> set (items e m)" using items_find assms by simp
  from find_fold_assign_distinct [OF wf_empty distinct_items this, where val = snd] assms Some
  show ?thesis by simp
next
  case None
  then have "j \<notin> fst ` set (items e m)" using items_find assms by fastforce
  then show ?thesis by (simp add: find_fold_assign_other wf_empty find_empty None)
qed

end

section \<open>The container provides the interfaces\<close>

lemma hash_order_keys:
  assumes "permutes_keys e"
  shows "set (hash_order e ks) = set ks" and "distinct (hash_order e ks) \<longleftrightarrow> distinct ks"
    and "hash_order e ks = [] \<longleftrightarrow> ks = []"
proof -
  have "mset (hash_order e ks) = mset ks" using assms by (simp add: permutes_keys_def)
  then show "set (hash_order e ks) = set ks" and "distinct (hash_order e ks) \<longleftrightarrow> distinct ks"
    and "hash_order e ks = [] \<longleftrightarrow> ks = []"
    by (metis mset_eq_setD, metis mset_eq_imp_distinct_iff, metis mset_zero_iff)
qed

lemma umap_items_conv:
  assumes "permutes_keys e"
  shows "umap_items e m = map (\<lambda>k. (k, the (umap_find k m))) (hash_order e (map fst m))"
proof -
  have "set (hash_order e (map fst m)) = set (map fst m)"
    using assms by (rule hash_order_keys)
  then have "\<forall>k \<in> set (hash_order e (map fst m)). umap_find k m \<noteq> None"
    by (auto simp: umap_find_def map_of_eq_None_iff)
  then have "List.map_filter (\<lambda>k. map_option (Pair k) (umap_find k m)) ks
      = map (\<lambda>k. (k, the (umap_find k m))) ks"
    if "set ks \<subseteq> set (hash_order e (map fst m))" for ks
    using that by (induction ks) (auto simp: map_filter_simps)
  then show ?thesis by (simp add: umap_items_def)
qed

interpretation umap: iterable_store "[]" umap_find umap_assign umap_erase umap_wf umap_items permutes_keys
proof unfold_locales
  show "umap_find k [] = None" for k :: string
    by (simp add: umap_find_def)
  show "umap_find j (umap_assign k v m) = (if j = k then Some v else umap_find j m)" for j k v and m :: "'v umap"
    by (simp add: umap_find_def umap_assign_def update_conv')
  show "umap_find j (umap_erase k m) = (if j = k then None else umap_find j m)" for j k and m :: "'v umap"
    by (simp add: umap_find_def umap_erase_def delete_conv')
  show "umap_wf []" by (simp add: umap_wf_def)
  show "umap_wf (umap_assign k v m)" if "umap_wf m" for k v and m :: "'v umap"
    using that by (simp add: umap_wf_def umap_assign_def distinct_update)
  show "umap_wf (umap_erase k m)" if "umap_wf m" for k and m :: "'v umap"
    using that by (simp add: umap_wf_def umap_erase_def distinct_delete)
  show "distinct (map fst (umap_items e m))" if "permutes_keys e" "umap_wf m" for e :: "'e env_scheme" and m :: "'v umap"
    using that by (simp add: umap_items_conv umap_wf_def hash_order_keys comp_def)
  show "(k, v) \<in> set (umap_items e m) \<longleftrightarrow> umap_find k m = Some v"
    if "permutes_keys e" "umap_wf m" for e :: "'e env_scheme" and m :: "'v umap" and k v
    using that by (auto simp: umap_items_conv hash_order_keys umap_find_def umap_wf_def
        image_iff dest: map_of_SomeD intro: bexI [rotated])
qed

lemma umap_assign_Nil_iff [simp]: "umap_assign k v m \<noteq> []"
  by (cases m) (auto simp: umap_assign_def)

lemma umap_items_empty [simp]: "umap_items e [] = []"
proof -
  have "List.map_filter (\<lambda>k. map_option (Pair k) (umap_find k [])) ks = []" for ks
    by (induction ks) (simp_all add: map_filter_simps umap_find_def)
  then show ?thesis by (simp add: umap_items_def)
qed

lemma umap_items_Nil_iff: "permutes_keys e \<Longrightarrow> umap_items e m = [] \<longleftrightarrow> m = []"
  by (simp add: umap_items_conv hash_order_keys)

text \<open>The keys an iteration visits.\<close>
lemma umap_items_keys:
  assumes "permutes_keys e"
  shows "set (map fst (umap_items e m)) = fst ` set m" and "length (umap_items e m) = length m"
proof -
  show "set (map fst (umap_items e m)) = fst ` set m"
    using assms by (simp add: umap_items_conv hash_order_keys image_image)
  have "length (hash_order e (map fst m)) = length (map fst m)"
    using assms by (metis permutes_keys_def size_mset)
  then show "length (umap_items e m) = length m"
    using assms by (simp add: umap_items_conv)
qed

lemma umap_find_None_iff: "umap_find k m = None \<longleftrightarrow> k \<notin> fst ` set m"
  by (simp add: umap_find_def map_of_eq_None_iff)

end
