(* ===== verification/Cxx_Text.thy ===== *)
theory Cxx_Text
  imports Prelude
begin

text \<open>
  The parts of the C++ standard library that the program's text handling uses: decimal and
  hexadecimal output (\<open>std::to_string\<close>, \<open>std::dec\<close>, \<open>std::hex\<close> with \<open>setw(2)\<close> and
  \<open>setfill('0')\<close>), \<open>std::stoul\<close> and \<open>std::stoi\<close> with their exceptions, \<open>std::getline\<close>,
  extraction of words with \<open>operator>>\<close> and \<open>std::string::find\<close> for a character. The lemmas are
  the round trips and the bounds that the readers and writers of the program rest on.
\<close>

section \<open>Definitions\<close>

text \<open>\<open>std::isspace\<close> in the C locale.\<close>
definition is_space :: "char \<Rightarrow> bool" where
  "is_space c \<longleftrightarrow> c = CHR '' '' \<or> c = CHR 0x09 \<or> c = CHR 0x0A \<or> c = CHR 0x0B \<or> c = CHR 0x0C \<or> c = CHR 0x0D"

definition digit_value :: "char \<Rightarrow> nat option" where
  "digit_value c =
     (let n = of_char c :: nat in
      if 48 \<le> n \<and> n \<le> 57 then Some (n - 48)
      else if 97 \<le> n \<and> n \<le> 122 then Some (n - 87)
      else if 65 \<le> n \<and> n \<le> 90 then Some (n - 55)
      else None)"

definition digit_in :: "nat \<Rightarrow> char \<Rightarrow> nat option" where
  "digit_in base c =
     (case digit_value c of None \<Rightarrow> None | Some d \<Rightarrow> if d < base then Some d else None)"

definition digit_char :: "nat \<Rightarrow> char" where
  "digit_char d = (if d < 10 then char_of (48 + d) else char_of (87 + d))"

text \<open>An unsigned number in decimal, and a byte as two lower-case hexadecimal digits.\<close>
fun dec_string :: "nat \<Rightarrow> string" where
  "dec_string n = (if n < 10 then [digit_char n] else dec_string (n div 10) @ [digit_char (n mod 10)])"

definition hex_byte :: "byte \<Rightarrow> string" where
  "hex_byte b = [digit_char (unat b div 16), digit_char (unat b mod 16)]"

definition hex_string :: "byte list \<Rightarrow> string" where
  "hex_string bs = concat (map hex_byte bs)"

text \<open>\<open>strtoul\<close>: the longest run of digits, an optional sign, an optional \<open>0x\<close> in base 16.\<close>
fun scan_digits :: "nat \<Rightarrow> nat \<Rightarrow> string \<Rightarrow> nat" where
  "scan_digits base acc [] = acc"
| "scan_digits base acc (c # cs) =
     (case digit_in base c of None \<Rightarrow> acc | Some d \<Rightarrow> scan_digits base (acc * base + d) cs)"

definition magnitude :: "nat \<Rightarrow> string \<Rightarrow> nat option" where
  "magnitude base s =
     (case s of [] \<Rightarrow> None
      | c # cs \<Rightarrow> (if digit_in base c = None then None else Some (scan_digits base 0 s)))"

definition skip_0x :: "nat \<Rightarrow> string \<Rightarrow> string" where
  "skip_0x base s =
     (case s of
        a # x # c # cs \<Rightarrow>
          if base = 16 \<and> a = CHR ''0'' \<and> (x = CHR ''x'' \<or> x = CHR ''X'') \<and> digit_in 16 c \<noteq> None
          then c # cs else s
      | _ \<Rightarrow> s)"

definition split_sign :: "string \<Rightarrow> bool \<times> string" where
  "split_sign s =
     (case s of
        [] \<Rightarrow> (False, [])
      | c # cs \<Rightarrow> if c = CHR ''-'' then (True, cs) else if c = CHR ''+'' then (False, cs) else (False, s))"

text \<open>
  \<open>std::stoul\<close> returns an \<open>unsigned long\<close> of 64 bits: a minus sign negates modulo 2^64.
  \<open>std::stoi\<close> refuses what does not fit a 32-bit \<open>int\<close>.
\<close>
definition stoul :: "nat \<Rightarrow> string \<Rightarrow> i64 result" where
  "stoul base s =
     (let (negative, digits) = split_sign (dropWhile is_space s) in
      case magnitude base (skip_0x base digits) of
        None \<Rightarrow> Inl (InvalidArgument ''stoul'')
      | Some n \<Rightarrow>
          if 2 ^ 64 \<le> n then Inl (OutOfRange ''stoul'')
          else Inr (if negative then - of_nat n else of_nat n))"

definition stoi :: "string \<Rightarrow> int result" where
  "stoi s =
     (let (negative, digits) = split_sign (dropWhile is_space s) in
      case magnitude 10 digits of
        None \<Rightarrow> Inl (InvalidArgument ''stoi'')
      | Some n \<Rightarrow>
          let v = (if negative then - int n else int n) in
          if v < - (2 ^ 31) \<or> 2 ^ 31 \<le> v then Inl (OutOfRange ''stoi'') else Inr v)"

text \<open>
  \<open>std::getline(stream, str, delim)\<close>: \<open>None\<close> when nothing is left to extract; otherwise the
  characters up to the delimiter, which is dropped, and what is left in the stream.
\<close>
definition getline :: "char \<Rightarrow> string \<Rightarrow> (string \<times> string) option" where
  "getline d s =
     (if s = [] then None
      else Some (takeWhile (\<lambda>c. c \<noteq> d) s, tl (dropWhile (\<lambda>c. c \<noteq> d) s)))"

text \<open>\<open>stream >> word\<close>: skip white space, then take a maximal non-empty run without it.\<close>
definition extract_word :: "string \<Rightarrow> (string \<times> string) option" where
  "extract_word s =
     (let r = dropWhile is_space s in
      if r = [] then None
      else Some (takeWhile (\<lambda>c. \<not> is_space c) r, dropWhile (\<lambda>c. \<not> is_space c) r))"

text \<open>\<open>std::string::find\<close> of a character: the first position, \<open>None\<close> for \<open>npos\<close>.\<close>
definition find_char :: "char \<Rightarrow> string \<Rightarrow> nat option" where
  "find_char c s = (if c \<in> set s then Some (length (takeWhile (\<lambda>x. x \<noteq> c) s)) else None)"

declare dec_string.simps [simp del]

section \<open>Digits\<close>

lemma digit_value_digit_char [simp]: "d < 16 \<Longrightarrow> digit_value (digit_char d) = Some d"
  by (auto simp: digit_value_def digit_char_def Let_def)

lemma digit_in_digit_char [simp]: "d < base \<Longrightarrow> base \<le> 16 \<Longrightarrow> digit_in base (digit_char d) = Some d"
  by (simp add: digit_in_def)

lemma digit_char_eq_iff:
  "d < 16 \<Longrightarrow> digit_char d = c \<longleftrightarrow> of_char c = (if d < 10 then 48 + d else 87 + d)"
  by (auto simp: digit_char_def) (metis char_of_char)+

lemma digit_char_plain [simp]:
  assumes "d < 16"
  shows "\<not> is_space (digit_char d)" and "digit_char d \<noteq> CHR ''-''" and "digit_char d \<noteq> CHR ''+''"
    and "digit_char d \<noteq> CHR ''|''" and "digit_char d \<noteq> CHR 0x0A"
    and "digit_char d \<noteq> CHR '':''"
  using assms by (auto simp: is_space_def digit_char_eq_iff)

section \<open>Decimal and hexadecimal round trips\<close>

lemma dec_string_not_Nil [simp]: "dec_string n \<noteq> []"
  by (subst dec_string.simps) simp

lemma set_dec_string: "c \<in> set (dec_string n) \<Longrightarrow> \<exists>d < 10. c = digit_char d"
proof (induction n rule: dec_string.induct)
  case (1 n)
  then show ?case
    by (cases "n < 10") (auto simp: dec_string.simps [of n] intro: exI [of _ "n mod 10"])
qed

lemma scan_digits_append:
  "\<forall>c \<in> set s. digit_in base c \<noteq> None \<Longrightarrow>
     scan_digits base acc (s @ t) = scan_digits base (scan_digits base acc s) t"
  by (induction s arbitrary: acc) auto

lemma scan_dec_string: "scan_digits 10 0 (dec_string n) = n"
proof (induction n rule: dec_string.induct)
  case (1 n)
  show ?case
  proof (cases "n < 10")
    case True
    then show ?thesis by (simp add: dec_string.simps [of n])
  next
    case False
    have "\<forall>c \<in> set (dec_string (n div 10)). digit_in 10 c \<noteq> None"
      using set_dec_string by fastforce
    with "1.IH" False show ?thesis
      by (simp add: dec_string.simps [of n] scan_digits_append)
  qed
qed

lemma dec_string_Cons: obtains d cs where "d < 10" "dec_string n = digit_char d # cs"
proof (cases "dec_string n")
  case Nil
  then show ?thesis by simp
next
  case (Cons c cs)
  then obtain d where "d < 10" "c = digit_char d"
    using set_dec_string [of c n] by auto
  with Cons that show ?thesis by blast
qed

lemma magnitude_dec_string [simp]: "magnitude 10 (dec_string n) = Some n"
proof -
  obtain d cs where d: "d < 10" "dec_string n = digit_char d # cs"
    by (rule dec_string_Cons)
  then have "magnitude 10 (dec_string n) = Some (scan_digits 10 0 (dec_string n))"
    by (simp add: magnitude_def)
  then show ?thesis by (simp add: scan_dec_string)
qed

lemma number_text_dec_string:
  "split_sign (dropWhile is_space (dec_string n)) = (False, dec_string n)"
proof -
  obtain d cs where "d < 10" "dec_string n = digit_char d # cs"
    by (rule dec_string_Cons)
  then show ?thesis by (simp add: split_sign_def)
qed

lemma skip_0x_10 [simp]: "skip_0x 10 s = s"
  by (auto simp: skip_0x_def split: list.splits)

lemma stoul_dec_string: "n < 2 ^ 64 \<Longrightarrow> stoul 10 (dec_string n) = Inr (of_nat n)"
  by (simp add: stoul_def number_text_dec_string)

lemma stoi_dec_string: "n < 2 ^ 31 \<Longrightarrow> stoi (dec_string n) = Inr (int n)"
  by (simp add: stoi_def number_text_dec_string)

lemma stoul_faults: "stoul b s = Inl f \<Longrightarrow> is_exception f"
  by (auto simp: stoul_def Let_def split: prod.splits option.splits if_splits)

lemma stoul_hex_byte: "stoul 16 (hex_byte b) = Inr (of_nat (unat b))"
proof -
  have "unat b < 256" by (rule unat_byte_less)
  then have "unat b div 16 < 16" and "unat b mod 16 < 16" by auto
  then show ?thesis
    using \<open>unat b < 256\<close>
    by (simp add: stoul_def hex_byte_def split_sign_def skip_0x_def magnitude_def)
qed

section \<open>Lines and words\<close>

lemma getline_shorter: "getline d s = Some (l, r) \<Longrightarrow> length r < length s"
proof -
  assume "getline d s = Some (l, r)"
  then have "s \<noteq> []" and r: "r = tl (dropWhile (\<lambda>c. c \<noteq> d) s)"
    by (auto simp: getline_def split: if_splits)
  have "length (dropWhile (\<lambda>c. c \<noteq> d) s) \<le> length s"
    by (rule length_dropWhile_le)
  moreover have "0 < length s" using \<open>s \<noteq> []\<close> by simp
  ultimately show ?thesis unfolding r length_tl by linarith
qed

lemma getline_field [simp]: "d \<notin> set s \<Longrightarrow> getline d (s @ d # rest) = Some (s, rest)"
  by (auto simp: getline_def takeWhile_append dropWhile_append)

lemma getline_last [simp]:
  assumes "d \<notin> set s" and "s \<noteq> []"
  shows "getline d s = Some (s, [])"
proof -
  from assms(1) have "dropWhile (\<lambda>c. c \<noteq> d) s = []" and "takeWhile (\<lambda>c. c \<noteq> d) s = s"
    by (auto simp: dropWhile_eq_Nil_conv takeWhile_eq_all_conv)
  with assms(2) show ?thesis by (simp only: getline_def list.sel if_False)
qed

lemma getline_Nil [simp]: "getline d [] = None"
  by (simp add: getline_def)

lemma getline_no_delim: "getline d s = Some (l, r) \<Longrightarrow> d \<notin> set l"
  by (auto simp: getline_def split: if_splits dest: set_takeWhileD)

lemma extract_word_shorter: "extract_word s = Some (w, r) \<Longrightarrow> length r < length s"
proof -
  assume "extract_word s = Some (w, r)"
  then have ne: "dropWhile is_space s \<noteq> []"
    and r: "r = dropWhile (\<lambda>c. \<not> is_space c) (dropWhile is_space s)"
    by (auto simp: extract_word_def Let_def split: if_splits)
  from ne obtain c cs where c: "dropWhile is_space s = c # cs" and "\<not> is_space c"
    by (metis hd_dropWhile list.exhaust_sel)
  then have "length r \<le> length cs"
    unfolding r by (simp add: length_dropWhile_le)
  moreover have "length (c # cs) \<le> length s"
    unfolding c [symmetric] by (rule length_dropWhile_le)
  ultimately show ?thesis by simp
qed

lemma find_char_SomeD:
  assumes "find_char c s = Some i"
  shows "i < length s" and "s = take i s @ c # drop (Suc i) s" and "c \<notin> set (take i s)"
proof -
  from assms have mem: "c \<in> set s" and i: "i = length (takeWhile (\<lambda>x. x \<noteq> c) s)"
    by (auto simp: find_char_def split: if_splits)
  from mem obtain ys zs where s: "s = ys @ c # zs" and "c \<notin> set ys"
    by (metis split_list_first)
  then have "takeWhile (\<lambda>x. x \<noteq> c) s = ys"
    by (auto simp: takeWhile_append)
  with i s \<open>c \<notin> set ys\<close>
  show "i < length s" and "s = take i s @ c # drop (Suc i) s" and "c \<notin> set (take i s)"
    by auto
qed

lemma find_char_append: "c \<notin> set s \<Longrightarrow> find_char c (s @ c # t) = Some (length s)"
  by (auto simp: find_char_def takeWhile_append)

end
