(* ===== verification/PeerManager.thy ===== *)
theory PeerManager
  imports Cxx_Map Cxx_Text
begin

text \<open>
  The peer directory: \<open>Include/PeerManager.hpp\<close> and \<open>Source/PeerManager.cpp\<close>. The class keeps an
  \<open>unordered_map\<close> from peer ids to \<open>PeerInfo\<close> and the description of the local peer. Each
  method that touches the map holds \<open>mutex_\<close> from its first to its last statement, so that a
  concurrent run of methods is some sequence of the operations below; \<open>directory_op\<close> and
  \<open>run_ops\<close> are such sequences.

  The peers file is text: a line per peer, the fields \<open>id|address|port|key\<close>, the key in
  hexadecimal. A file system is a map from names to contents.
\<close>

section \<open>Data\<close>

text \<open>The struct \<open>PeerInfo\<close>; its member \<open>id\<close> is \<open>peer_id\<close> here.\<close>
record PeerInfo =
  peer_id :: string
  address :: string
  port :: u16
  publicKey :: "byte list"
  isConnected :: bool
  lastSeen :: time_point

text \<open>
  \<open>PeerInfo peer;\<close> leaves \<open>port\<close> and \<open>isConnected\<close> indeterminate; \<open>lastSeen\<close> starts at the epoch.
\<close>
definition PeerInfo_uninitialised :: "'e env_scheme \<Rightarrow> PeerInfo" where
  "PeerInfo_uninitialised e =
     \<lparr>peer_id = [], address = [], port = indeterminate_port e, publicKey = [],
      isConnected = indeterminate_flag e, lastSeen = 0\<rparr>"

text \<open>The class \<open>PeerManager\<close>: \<open>peers_\<close> and \<open>localPeer_\<close>.\<close>
record PeerManager =
  peers :: "PeerInfo umap"
  localPeer :: PeerInfo

type_synonym files = "string \<Rightarrow> string option"

section \<open>Operations\<close>

definition PeerManager_new :: "'e env_scheme \<Rightarrow> PeerManager" where
  "PeerManager_new e = \<lparr>peers = [], localPeer = PeerInfo_uninitialised e\<rparr>"

definition AddPeer :: "PeerInfo \<Rightarrow> PeerManager \<Rightarrow> PeerManager" where
  "AddPeer peer pm = pm\<lparr>peers := umap_assign (peer_id peer) peer (peers pm)\<rparr>"

definition RemovePeer :: "string \<Rightarrow> PeerManager \<Rightarrow> PeerManager" where
  "RemovePeer peerId pm = pm\<lparr>peers := umap_erase peerId (peers pm)\<rparr>"

definition UpdatePeerStatus :: "'e env_scheme \<Rightarrow> string \<Rightarrow> bool \<Rightarrow> PeerManager \<Rightarrow> PeerManager" where
  "UpdatePeerStatus e peerId connected pm =
     (case umap_find peerId (peers pm) of
        None \<Rightarrow> pm
      | Some p \<Rightarrow>
          pm\<lparr>peers := umap_assign peerId (p\<lparr>isConnected := connected, lastSeen := clock_now e\<rparr>) (peers pm)\<rparr>)"

definition GetPeer :: "string \<Rightarrow> PeerManager \<Rightarrow> PeerInfo option" where
  "GetPeer peerId pm = umap_find peerId (peers pm)"

definition GetAllPeers :: "'e env_scheme \<Rightarrow> PeerManager \<Rightarrow> PeerInfo list" where
  "GetAllPeers e pm = map snd (umap_items e (peers pm))"

definition GetConnectedPeers :: "'e env_scheme \<Rightarrow> PeerManager \<Rightarrow> PeerInfo list" where
  "GetConnectedPeers e pm = filter isConnected (map snd (umap_items e (peers pm)))"

definition SetLocalPeer :: "PeerInfo \<Rightarrow> PeerManager \<Rightarrow> PeerManager" where
  "SetLocalPeer p pm = pm\<lparr>localPeer := p\<rparr>"

definition GetLocalPeer :: "PeerManager \<Rightarrow> PeerInfo" where
  "GetLocalPeer pm = localPeer pm"

subsection \<open>The peers file\<close>

definition peer_line :: "PeerInfo \<Rightarrow> string" where
  "peer_line p =
     peer_id p @ ''|'' @ address p @ ''|'' @ dec_string (unat (port p)) @ ''|''
     @ hex_string (publicKey p) @ [CHR 0x0A]"

definition SavePeersToFile :: "'e env_scheme \<Rightarrow> string \<Rightarrow> PeerManager \<Rightarrow> files \<Rightarrow> files" where
  "SavePeersToFile e filename pm fs =
     (if can_open_for_writing e filename
      then fs(filename \<mapsto> concat (map (\<lambda>(key, peer). peer_line peer) (umap_items e (peers pm))))
      else fs)"

text \<open>The loop over \<open>keyHex\<close> in steps of two; \<open>substr(i, 2)\<close> of an odd rest is one character.\<close>
fun parse_key :: "string \<Rightarrow> byte list result" where
  "parse_key [] = Inr []"
| "parse_key [c] = (case stoul 16 [c] of Inl f \<Rightarrow> Inl f | Inr v \<Rightarrow> Inr [ucast v])"
| "parse_key (c # d # cs) =
     (case stoul 16 [c, d] of
        Inl f \<Rightarrow> Inl f
      | Inr v \<Rightarrow> (case parse_key cs of Inl f \<Rightarrow> Inl f | Inr bs \<Rightarrow> Inr (ucast v # bs)))"

text \<open>
  One line of the file: \<open>None\<close> where the loop does \<open>continue\<close>, a fault where \<open>stoul\<close> throws.
\<close>
definition parse_peer_line :: "'e env_scheme \<Rightarrow> string \<Rightarrow> PeerInfo option result" where
  "parse_peer_line e line =
     (case getline (CHR ''|'') line of None \<Rightarrow> Inr None | Some (idStr, iss1) \<Rightarrow>
      case getline (CHR ''|'') iss1 of None \<Rightarrow> Inr None | Some (addressStr, iss2) \<Rightarrow>
      case getline (CHR ''|'') iss2 of None \<Rightarrow> Inr None | Some (portStr, iss3) \<Rightarrow>
      case getline (CHR 0x0A) iss3 of None \<Rightarrow> Inr None | Some (keyHex, iss4) \<Rightarrow>
      case stoul 10 portStr of Inl f \<Rightarrow> Inl f | Inr portNumber \<Rightarrow>
      case parse_key keyHex of Inl f \<Rightarrow> Inl f | Inr key \<Rightarrow>
        Inr (Some \<lparr>peer_id = idStr, address = addressStr, port = ucast portNumber, publicKey = key,
                   isConnected = False, lastSeen = clock_now e\<rparr>))"

text \<open>
  The loop \<open>while (std::getline(file, line))\<close>. An exception leaves the method with the peers of
  the lines before it stored.
\<close>
function load_lines :: "'e env_scheme \<Rightarrow> string \<Rightarrow> PeerManager \<Rightarrow> unit result \<times> PeerManager" where
  "load_lines e content pm =
     (case getline (CHR 0x0A) content of
        None \<Rightarrow> (Inr (), pm)
      | Some (line, rest) \<Rightarrow>
          (case parse_peer_line e line of
             Inl f \<Rightarrow> (Inl f, pm)
           | Inr None \<Rightarrow> load_lines e rest pm
           | Inr (Some peer) \<Rightarrow>
               load_lines e rest (pm\<lparr>peers := umap_assign (peer_id peer) peer (peers pm)\<rparr>)))"
  by pat_completeness auto
termination
  by (relation "measure (\<lambda>(e, content, pm). length content)") (auto dest: getline_shorter)

declare load_lines.simps [simp del]

definition LoadPeersFromFile ::
    "'e env_scheme \<Rightarrow> string \<Rightarrow> files \<Rightarrow> PeerManager \<Rightarrow> unit result \<times> PeerManager" where
  "LoadPeersFromFile e filename fs pm =
     (case fs filename of None \<Rightarrow> (Inr (), pm) | Some content \<Rightarrow> load_lines e content pm)"

section \<open>Specification\<close>

text \<open>The invariant: no id twice, and every peer is stored under its own id.\<close>
definition pm_wf :: "PeerManager \<Rightarrow> bool" where
  "pm_wf pm \<longleftrightarrow> umap_wf (peers pm) \<and> (\<forall>(k, p) \<in> set (peers pm). peer_id p = k)"

text \<open>Abstractly the directory is a partial map from ids to peers.\<close>
definition directory :: "PeerManager \<Rightarrow> string \<Rightarrow> PeerInfo option" where
  "directory pm = (\<lambda>k. GetPeer k pm)"

text \<open>The calls that change the directory, as values, and the effect of each on its own entry.\<close>
datatype directory_op = Add PeerInfo | Remove string | Status env string bool

fun op_id :: "directory_op \<Rightarrow> string" where
  "op_id (Add p) = peer_id p"
| "op_id (Remove k) = k"
| "op_id (Status e k c) = k"

fun apply_op :: "directory_op \<Rightarrow> PeerManager \<Rightarrow> PeerManager" where
  "apply_op (Add p) pm = AddPeer p pm"
| "apply_op (Remove k) pm = RemovePeer k pm"
| "apply_op (Status e k c) pm = UpdatePeerStatus e k c pm"

fun op_effect :: "directory_op \<Rightarrow> PeerInfo option \<Rightarrow> PeerInfo option" where
  "op_effect (Add p) entry = Some p"
| "op_effect (Remove k) entry = None"
| "op_effect (Status e k c) entry = map_option (\<lambda>p. p\<lparr>isConnected := c, lastSeen := clock_now e\<rparr>) entry"

definition run_ops :: "directory_op list \<Rightarrow> PeerManager \<Rightarrow> PeerManager" where
  "run_ops ops pm = fold apply_op ops pm"

text \<open>The managers the program can come to: any sequence of calls from a new one.\<close>
inductive pm_reachable :: "PeerManager \<Rightarrow> bool" where
  reach_new: "pm_reachable (PeerManager_new (e :: env))"
| reach_op: "pm_reachable pm \<Longrightarrow> pm_reachable (apply_op x pm)"
| reach_local: "pm_reachable pm \<Longrightarrow> pm_reachable (SetLocalPeer p pm)"
| reach_load: "pm_reachable pm \<Longrightarrow> pm_reachable (snd (LoadPeersFromFile (e :: env) f fs pm))"

text \<open>Fields free of the separators of the peers file, and what reading a saved peer gives.\<close>
definition text_safe :: "PeerInfo \<Rightarrow> bool" where
  "text_safe p \<longleftrightarrow>
     CHR ''|'' \<notin> set (peer_id p) \<and> CHR 0x0A \<notin> set (peer_id p) \<and>
     CHR ''|'' \<notin> set (address p) \<and> CHR 0x0A \<notin> set (address p)"

definition restored :: "'e env_scheme \<Rightarrow> PeerInfo \<Rightarrow> PeerInfo" where
  "restored e p = p\<lparr>isConnected := False, lastSeen := clock_now e\<rparr>"

section \<open>Independent entries\<close>

text \<open>
  The interface behind the concurrency of the directory: calls that each act on the entry of one
  key. The entry of a key is then decided by the calls on that key alone, whatever the
  interleaving with others.
\<close>

locale keyed_ops =
  fixes get :: "'k \<Rightarrow> 's \<Rightarrow> 'p option"
    and act :: "'o \<Rightarrow> 's \<Rightarrow> 's"
    and key :: "'o \<Rightarrow> 'k"
    and effect :: "'o \<Rightarrow> 'p option \<Rightarrow> 'p option"
    and ok :: "'s \<Rightarrow> bool"
  assumes get_act: "ok s \<Longrightarrow> get k (act x s) = (if k = key x then effect x (get k s) else get k s)"
    and ok_act: "ok s \<Longrightarrow> ok (act x s)"
begin

lemma ok_fold: "ok s \<Longrightarrow> ok (fold act xs s)"
  by (induction xs arbitrary: s) (auto intro: ok_act)

lemma get_fold: "ok s \<Longrightarrow> get k (fold act xs s) = fold effect (filter (\<lambda>x. key x = k) xs) (get k s)"
  by (induction xs arbitrary: s) (auto simp: get_act ok_act)

lemma get_interleaved:
  assumes "ok s" and "zs \<in> shuffles xs ys" and "key ` set xs \<inter> key ` set ys = {}"
  shows "get k (fold act zs s) = get k (fold act (xs @ ys) s)"
proof -
  let ?on_k = "filter (\<lambda>x. key x = k)"
  have "?on_k zs \<in> shuffles (?on_k xs) (?on_k ys)"
    using assms(2) filter_shuffles [of "\<lambda>x. key x = k" xs ys] by blast
  moreover have "?on_k xs = [] \<or> ?on_k ys = []"
    using assms(3) by (auto simp: filter_empty_conv)
  ultimately have "?on_k zs = ?on_k xs @ ?on_k ys" by auto
  then show ?thesis by (simp only: get_fold [OF assms(1)] filter_append)
qed

end

section \<open>Lemmas\<close>

lemma pm_wf_umap [simp]: "pm_wf pm \<Longrightarrow> umap_wf (peers pm)"
  by (simp add: pm_wf_def)

lemma pm_wf_alt:
  "pm_wf pm \<longleftrightarrow> umap_wf (peers pm) \<and> (\<forall>k p. umap_find k (peers pm) = Some p \<longrightarrow> peer_id p = k)"
  by (auto simp: pm_wf_def umap_wf_def umap_find_def dest: map_of_SomeD)

lemma GetPeer_id: "pm_wf pm \<Longrightarrow> GetPeer k pm = Some p \<Longrightarrow> peer_id p = k"
  by (simp add: pm_wf_alt GetPeer_def)

lemma pm_wf_new: "pm_wf (PeerManager_new e)"
  by (simp add: pm_wf_alt PeerManager_new_def umap.wf_empty umap.find_empty)

lemma pm_wf_AddPeer: "pm_wf pm \<Longrightarrow> pm_wf (AddPeer p pm)"
  by (auto simp: pm_wf_alt AddPeer_def umap.wf_assign umap.find_assign)

lemma pm_wf_RemovePeer: "pm_wf pm \<Longrightarrow> pm_wf (RemovePeer k pm)"
  by (auto simp: pm_wf_alt RemovePeer_def umap.wf_erase umap.find_erase)

lemma pm_wf_UpdatePeerStatus: "pm_wf pm \<Longrightarrow> pm_wf (UpdatePeerStatus e k c pm)"
  by (auto simp: pm_wf_alt UpdatePeerStatus_def umap.wf_assign umap.find_assign split: option.splits)

lemma pm_wf_SetLocalPeer: "pm_wf pm \<Longrightarrow> pm_wf (SetLocalPeer p pm)"
  by (simp add: pm_wf_def SetLocalPeer_def)

lemma GetPeer_new [simp]: "GetPeer k (PeerManager_new e) = None"
  by (simp add: GetPeer_def PeerManager_new_def umap.find_empty)

lemma GetPeer_AddPeer:
  "pm_wf pm \<Longrightarrow> GetPeer k (AddPeer p pm) = (if k = peer_id p then Some p else GetPeer k pm)"
  by (simp add: GetPeer_def AddPeer_def umap.find_assign)

lemma GetPeer_RemovePeer:
  "pm_wf pm \<Longrightarrow> GetPeer k (RemovePeer j pm) = (if k = j then None else GetPeer k pm)"
  by (simp add: GetPeer_def RemovePeer_def umap.find_erase)

lemma GetPeer_UpdatePeerStatus:
  "pm_wf pm \<Longrightarrow> GetPeer k (UpdatePeerStatus e j c pm) =
     (if k = j then map_option (\<lambda>p. p\<lparr>isConnected := c, lastSeen := clock_now e\<rparr>) (GetPeer k pm)
      else GetPeer k pm)"
  by (auto simp: GetPeer_def UpdatePeerStatus_def umap.find_assign split: option.splits)

lemma GetPeer_SetLocalPeer [simp]: "GetPeer k (SetLocalPeer p pm) = GetPeer k pm"
  by (simp add: GetPeer_def SetLocalPeer_def)

lemma localPeer_simps [simp]:
  "localPeer (AddPeer p pm) = localPeer pm" "localPeer (RemovePeer k pm) = localPeer pm"
  "localPeer (UpdatePeerStatus e k c pm) = localPeer pm" "localPeer (SetLocalPeer p pm) = p"
  by (simp_all add: AddPeer_def RemovePeer_def UpdatePeerStatus_def SetLocalPeer_def split: option.split)

lemmas pm_wf_intros =
  pm_wf_new pm_wf_AddPeer pm_wf_RemovePeer pm_wf_UpdatePeerStatus pm_wf_SetLocalPeer

lemmas GetPeer_simps = GetPeer_AddPeer GetPeer_RemovePeer GetPeer_UpdatePeerStatus

interpretation pm_ops: keyed_ops GetPeer apply_op op_id op_effect pm_wf
proof unfold_locales
  show "GetPeer k (apply_op x pm) = (if k = op_id x then op_effect x (GetPeer k pm) else GetPeer k pm)"
    if "pm_wf pm" for k x pm
    using that by (cases x) (auto simp: GetPeer_simps)
  show "pm_wf (apply_op x pm)" if "pm_wf pm" for x pm
    using that by (cases x) (auto intro: pm_wf_intros)
qed

lemma GetAllPeers_iff:
  assumes "permutes_keys e" and "pm_wf pm"
  shows "p \<in> set (GetAllPeers e pm) \<longleftrightarrow> GetPeer (peer_id p) pm = Some p"
proof -
  have "p \<in> set (GetAllPeers e pm) \<longleftrightarrow> (\<exists>k. (k, p) \<in> set (umap_items e (peers pm)))"
    by (force simp: GetAllPeers_def)
  also have "\<dots> \<longleftrightarrow> (\<exists>k. GetPeer k pm = Some p)"
    using assms by (simp add: umap.items_find GetPeer_def)
  also have "\<dots> \<longleftrightarrow> GetPeer (peer_id p) pm = Some p"
    using GetPeer_id [OF assms(2)] by blast
  finally show ?thesis .
qed

lemma distinct_GetAllPeers:
  assumes "permutes_keys e" and "pm_wf pm"
  shows "distinct (map peer_id (GetAllPeers e pm))"
proof -
  have "map peer_id (GetAllPeers e pm) = map fst (umap_items e (peers pm))"
    unfolding GetAllPeers_def using umap.items_find [OF assms(1), of "peers pm"] assms(2)
    by (auto simp: pm_wf_alt)
  then show ?thesis by (simp add: umap.distinct_items assms)
qed

subsection \<open>Reading back a saved file\<close>

lemma ucast_ucast_byte: "ucast (ucast b :: i64) = (b :: byte)"
  by (rule bit_word_eqI) (simp add: bit_simps)

lemma parse_key_hex_string: "parse_key (hex_string bs) = Inr bs"
proof (induction bs)
  case Nil
  then show ?case by (simp add: hex_string_def)
next
  case (Cons b bs)
  have "hex_string (b # bs) = digit_char (unat b div 16) # digit_char (unat b mod 16) # hex_string bs"
    by (simp add: hex_string_def hex_byte_def)
  with Cons stoul_hex_byte [of b] show ?case
    by (simp add: hex_byte_def ucast_ucast_byte)
qed

lemma hex_string_plain: "c \<in> set (hex_string bs) \<Longrightarrow> \<exists>d < 16. c = digit_char d"
proof -
  assume "c \<in> set (hex_string bs)"
  then obtain b :: byte where "c = digit_char (unat b div 16) \<or> c = digit_char (unat b mod 16)"
    by (auto simp: hex_string_def hex_byte_def)
  moreover have "unat b div 16 < 16" using unat_byte_less [of b] by simp
  ultimately show ?thesis by (auto intro: exI [of _ "unat b mod 16"])
qed

lemma no_separator [simp]:
  "CHR ''|'' \<notin> set (dec_string n)" "CHR 0x0A \<notin> set (dec_string n)"
  "CHR ''|'' \<notin> set (hex_string bs)" "CHR 0x0A \<notin> set (hex_string bs)"
proof -
  have "c \<noteq> CHR ''|'' \<and> c \<noteq> CHR 0x0A" if "c \<in> set (dec_string n)" for c
    using set_dec_string [OF that] digit_char_plain(4,5) by fastforce
  then show "CHR ''|'' \<notin> set (dec_string n)" "CHR 0x0A \<notin> set (dec_string n)" by blast+
  have "c \<noteq> CHR ''|'' \<and> c \<noteq> CHR 0x0A" if "c \<in> set (hex_string bs)" for c
    using hex_string_plain [OF that] digit_char_plain(4,5) by fastforce
  then show "CHR ''|'' \<notin> set (hex_string bs)" "CHR 0x0A \<notin> set (hex_string bs)" by blast+
qed

lemma hex_string_Nil [simp]: "hex_string [] = []"
  by (simp add: hex_string_def)

lemma hex_string_Nil_iff [simp]: "hex_string bs = [] \<longleftrightarrow> bs = []"
  by (cases bs) (auto simp: hex_string_def hex_byte_def)

text \<open>A line without its newline, as the loop sees it.\<close>
definition line_body :: "PeerInfo \<Rightarrow> string" where
  "line_body p =
     peer_id p @ CHR ''|'' # address p @ CHR ''|'' # dec_string (unat (port p)) @ CHR ''|''
     # hex_string (publicKey p)"

lemma peer_line_body: "peer_line p = line_body p @ [CHR 0x0A]"
  by (simp add: peer_line_def line_body_def)

lemma parse_line_body:
  assumes "text_safe p"
  shows "parse_peer_line e (line_body p) = Inr (if publicKey p = [] then None else Some (restored e p))"
proof -
  have "unat (port p) < 2 ^ 64"
    using unat_u16_less [of "port p"] by simp
  moreover have "ucast (of_nat (unat (port p)) :: i64) = port p"
    by (rule bit_word_eqI) (simp add: bit_simps)
  ultimately show ?thesis
    using assms by (auto simp: parse_peer_line_def line_body_def text_safe_def stoul_dec_string
        parse_key_hex_string restored_def)
qed

lemma load_lines_Nil: "load_lines e [] pm = (Inr (), pm)"
  by (simp add: load_lines.simps)

lemma load_lines_step:
  "CHR 0x0A \<notin> set line \<Longrightarrow> load_lines e (line @ CHR 0x0A # rest) pm =
     (case parse_peer_line e line of
        Inl f \<Rightarrow> (Inl f, pm)
      | Inr None \<Rightarrow> load_lines e rest pm
      | Inr (Some p) \<Rightarrow> load_lines e rest (AddPeer p pm))"
  by (subst load_lines.simps) (simp add: AddPeer_def split: sum.split option.split)

lemma load_lines_saved:
  assumes "\<forall>p \<in> set ps. text_safe p"
  shows "load_lines e (concat (map peer_line ps) @ rest) pm =
    load_lines e rest (fold AddPeer (map (restored e) (filter (\<lambda>p. publicKey p \<noteq> []) ps)) pm)"
  using assms
proof (induction ps arbitrary: pm)
  case Nil
  then show ?case by simp
next
  case (Cons p ps)
  then have "CHR 0x0A \<notin> set (line_body p)"
    by (auto simp: line_body_def text_safe_def)
  then show ?case
    using Cons by (simp add: peer_line_body load_lines_step parse_line_body)
qed

lemma AddPeer_fold_peers:
  "peers (fold AddPeer ps pm) = fold (\<lambda>p. umap_assign (peer_id p) p) ps (peers pm)"
  by (induction ps arbitrary: pm) (simp_all add: AddPeer_def)

lemma GetPeer_fold_AddPeer:
  assumes "pm_wf pm" and "distinct (map peer_id ps)"
  shows "GetPeer k (fold AddPeer ps pm) =
    (case find (\<lambda>p. peer_id p = k) ps of None \<Rightarrow> GetPeer k pm | Some p \<Rightarrow> Some p)"
proof (cases "find (\<lambda>p. peer_id p = k) ps")
  case None
  then have "k \<notin> peer_id ` set ps" by (auto simp: find_None_iff)
  then show ?thesis
    using None umap.find_fold_assign_other [of "peers pm" k peer_id ps "\<lambda>p. p"] assms(1)
    by (simp add: GetPeer_def AddPeer_fold_peers)
next
  case (Some p)
  then have "p \<in> set ps" "peer_id p = k" by (auto simp: find_Some_iff)
  then show ?thesis
    using Some umap.find_fold_assign_distinct [of "peers pm" peer_id ps p "\<lambda>p. p"] assms
    by (simp add: GetPeer_def AddPeer_fold_peers)
qed

lemma pm_wf_load_lines: "pm_wf pm \<Longrightarrow> pm_wf (snd (load_lines e content pm))"
proof (induction e content pm rule: load_lines.induct)
  case (1 e content pm)
  show ?case
  proof (cases "getline (CHR 0x0A) content")
    case None
    then show ?thesis using "1.prems" by (simp add: load_lines.simps [of e content])
  next
    case (Some lr)
    with 1 show ?thesis
      by (cases lr) (auto simp: load_lines.simps [of e content] AddPeer_def [symmetric]
          pm_wf_AddPeer split: sum.splits option.splits)
  qed
qed

lemma snd_items_GetAllPeers: "map (\<lambda>(key, peer). peer_line peer) (umap_items e (peers pm)) = map peer_line (GetAllPeers e pm)"
  by (auto simp: GetAllPeers_def)

lemma find_distinct_map:
  assumes "distinct (map f xs)" and "x \<in> set xs"
  shows "find (\<lambda>y. f y = f x) xs = Some x"
  using assms by (induction xs) (auto simp: rev_image_eqI)

lemma restored_simps [simp]: "peer_id (restored e p) = peer_id p"
  by (simp add: restored_def)

text \<open>What a manager holds after reading a file that another manager has saved.\<close>
lemma GetPeer_load_saved:
  assumes "permutes_keys e" and "pm_wf pm" and "can_open_for_writing e f"
    and "\<forall>p \<in> set (GetAllPeers e pm). text_safe p" and "pm_wf pm'"
  shows "fst (LoadPeersFromFile e' f (SavePeersToFile e f pm fs) pm') = Inr ()"
    and "GetPeer k (snd (LoadPeersFromFile e' f (SavePeersToFile e f pm fs) pm')) =
      (case GetPeer k pm of
         Some p \<Rightarrow> if publicKey p \<noteq> [] then Some (restored e' p) else GetPeer k pm'
       | None \<Rightarrow> GetPeer k pm')"
proof -
  let ?kept = "filter (\<lambda>p. publicKey p \<noteq> []) (GetAllPeers e pm)"
  let ?new = "map (restored e') ?kept"
  have load: "LoadPeersFromFile e' f (SavePeersToFile e f pm fs) pm' = (Inr (), fold AddPeer ?new pm')"
    using assms(3) load_lines_saved [OF assms(4), of e' "[]" pm']
    by (simp add: LoadPeersFromFile_def SavePeersToFile_def snd_items_GetAllPeers load_lines_Nil)
  then show "fst (LoadPeersFromFile e' f (SavePeersToFile e f pm fs) pm') = Inr ()" by simp
  have dist: "distinct (map peer_id ?new)"
    using distinct_GetAllPeers [OF assms(1,2)] by (simp add: comp_def distinct_map_filter)
  have "find (\<lambda>p. peer_id p = k) ?new =
      (case GetPeer k pm of Some p \<Rightarrow> if publicKey p \<noteq> [] then Some (restored e' p) else None | None \<Rightarrow> None)"
  proof (cases "\<exists>p. GetPeer k pm = Some p \<and> publicKey p \<noteq> []")
    case True
    then obtain p where p: "GetPeer k pm = Some p" "publicKey p \<noteq> []" by blast
    then have "peer_id p = k" using GetPeer_id assms(2) by blast
    with p have "restored e' p \<in> set ?new"
      using GetAllPeers_iff [OF assms(1,2), of p] by auto
    with find_distinct_map [OF dist this] p \<open>peer_id p = k\<close> show ?thesis by simp
  next
    case False
    then have "find (\<lambda>p. peer_id p = k) ?new = None"
      using GetAllPeers_iff [OF assms(1,2)] by (auto simp: find_None_iff)
    with False show ?thesis by (auto split: option.splits)
  qed
  then show "GetPeer k (snd (LoadPeersFromFile e' f (SavePeersToFile e f pm fs) pm')) =
      (case GetPeer k pm of
         Some p \<Rightarrow> if publicKey p \<noteq> [] then Some (restored e' p) else GetPeer k pm'
       | None \<Rightarrow> GetPeer k pm')"
    unfolding load by (simp add: GetPeer_fold_AddPeer [OF assms(5) dist] split: option.splits)
qed

subsection \<open>Lines that abort the load\<close>

text \<open>A line that does not parse makes the load throw, whatever whole lines stand before it.\<close>
lemma load_lines_aborts:
  assumes "parse_peer_line e line = Inl f" and "CHR 0x0A \<notin> set line" and "x = [] \<or> last x = CHR 0x0A"
  shows "\<exists>g. fst (load_lines e (x @ line @ CHR 0x0A # rest) pm) = Inl g"
  using assms(3)
proof (induction x arbitrary: pm rule: length_induct)
  case (1 x)
  show ?case
  proof (cases "x = []")
    case True
    then show ?thesis using assms(1,2) by (simp add: load_lines_step)
  next
    case False
    then obtain l x' where x: "x = l @ CHR 0x0A # x'" and "CHR 0x0A \<notin> set l"
      using "1.prems" by (metis last_in_set split_list_first)
    moreover have "x' = [] \<or> last x' = CHR 0x0A"
      using "1.prems" False unfolding x by (auto split: if_splits)
    then have "\<exists>g. fst (load_lines e (x' @ line @ CHR 0x0A # rest) pm') = Inl g" for pm'
      using "1.IH" [rule_format, of x'] unfolding x by simp
    ultimately show ?thesis by (simp add: load_lines_step split: sum.split option.split)
  qed
qed

lemma last_peer_lines: "ps \<noteq> [] \<Longrightarrow> last (concat (map peer_line ps)) = CHR 0x0A \<and> concat (map peer_line ps) \<noteq> []"
  by (induction ps rule: rev_induct) (simp_all add: peer_line_def)

text \<open>An id with two separators in it makes the third field of its line the text behind them.\<close>
lemma parse_poisoned_line:
  assumes "peer_id p = a @ CHR ''|'' # b @ CHR ''|'' # c" and "CHR ''|'' \<notin> set (a @ b @ c)" and "stoul 10 c = Inl f"
  shows "parse_peer_line e (line_body p) = Inl f"
proof -
  let ?rest = "address p @ CHR ''|'' # dec_string (unat (port p)) @ CHR ''|'' # hex_string (publicKey p)"
  have "\<exists>l r. getline (CHR 0x0A) ?rest = Some (l, r)" by (simp add: getline_def)
  then show ?thesis using assms by (auto simp: parse_peer_line_def line_body_def)
qed

lemma poisoned_load:
  assumes "permutes_keys e" and "pm_wf pm" and "can_open_for_writing e f" and "GetPeer k pm = Some p"
    and "parse_peer_line e' (line_body p) = Inl g" and "CHR 0x0A \<notin> set (line_body p)"
  shows "\<exists>h. fst (LoadPeersFromFile e' f (SavePeersToFile e f pm fs) pm') = Inl h"
proof -
  have "p \<in> set (GetAllPeers e pm)"
    using assms(4) GetPeer_id [OF assms(2,4)] GetAllPeers_iff [OF assms(1,2), of p] by simp
  then obtain xs ys where split: "GetAllPeers e pm = xs @ p # ys" by (metis split_list)
  have "concat (map peer_line xs) = [] \<or> last (concat (map peer_line xs)) = CHR 0x0A"
    using last_peer_lines [of xs] by (cases xs) simp_all
  then show ?thesis
    using load_lines_aborts [OF assms(5,6)] assms(3)
    by (simp add: LoadPeersFromFile_def SavePeersToFile_def snd_items_GetAllPeers split peer_line_body)
qed

lemma parse_key_faults: "parse_key s = Inl f \<Longrightarrow> is_exception f"
  by (induction s arbitrary: f rule: parse_key.induct) (auto simp: stoul_faults split: sum.splits)

lemma load_lines_faults: "fst (load_lines e content pm) = Inl f \<Longrightarrow> is_exception f"
proof (induction e content pm rule: load_lines.induct)
  case (1 e content pm)
  have line: "is_exception g" if "parse_peer_line e l = Inl g" for l g
    using that by (auto simp: parse_peer_line_def stoul_faults parse_key_faults split: option.splits sum.splits)
  show ?case
  proof (cases "getline (CHR 0x0A) content")
    case None
    then show ?thesis using "1.prems" by (simp add: load_lines.simps [of e content])
  next
    case (Some lr)
    with 1 line show ?thesis
      by (cases lr) (auto simp: load_lines.simps [of e content] split: sum.splits option.splits)
  qed
qed

lemma LoadPeersFromFile_faults: "LoadPeersFromFile e f fs pm = (Inl g, pm') \<Longrightarrow> is_exception g"
  using load_lines_faults [of e "the (fs f)" pm g] by (auto simp: LoadPeersFromFile_def split: option.splits)

section \<open>Properties\<close>

text \<open>
  C27: Refinement. Every state-changing call on a well-formed manager acts on the abstract
  directory as its specification says: it replaces the entry of its own id and no other.
\<close>
theorem directory_refinement:
  assumes "pm_wf pm"
  shows "directory (apply_op x pm) = (directory pm)(op_id x := op_effect x (directory pm (op_id x)))"
  using pm_ops.get_act [OF assms] by (auto simp: directory_def)

theorem directory_refinement_witness:
  "directory (apply_op (Remove ''a'') (PeerManager_new example_env)) ''a'' = None"
  using directory_refinement [OF pm_wf_new, of "Remove ''a''" example_env] by simp

text \<open>
  Invariant. Whatever calls are made on a manager, loads of files with arbitrary contents
  included, and whether or not they throw, ids stay unique and every peer is stored under its
  own id.
\<close>
theorem directory_invariant:
  assumes "pm_reachable pm"
  shows "pm_wf pm"
  using assms
proof (induction rule: pm_reachable.induct)
  case (reach_load pm e f fs)
  then show ?case
    by (auto simp: LoadPeersFromFile_def intro: pm_wf_load_lines split: option.splits)
qed (auto intro: pm_wf_intros pm_ops.ok_act)

theorem directory_invariant_witness:
  "pm_wf (apply_op (Status example_env ''a'' True) (PeerManager_new example_env))"
  by (rule directory_invariant, rule reach_op, rule reach_new)

text \<open>
  Listing. For every iteration order of the hash map, \<open>GetAllPeers\<close> lists each stored peer
  exactly once and nothing else, and \<open>GetConnectedPeers\<close> lists exactly the connected ones.
\<close>
theorem listing_exact:
  assumes "permutes_keys e" and "pm_wf pm"
  shows "distinct (map peer_id (GetAllPeers e pm)) \<and>
    set (GetAllPeers e pm) = {p. GetPeer (peer_id p) pm = Some p} \<and>
    GetConnectedPeers e pm = filter isConnected (GetAllPeers e pm)"
  using distinct_GetAllPeers [OF assms] GetAllPeers_iff [OF assms]
  by (auto simp: GetConnectedPeers_def GetAllPeers_def)

lemma permutes_keys_example [simp]: "permutes_keys example_env"
  by (simp add: permutes_keys_def example_env_def)

theorem listing_exact_witness:
  "set (GetAllPeers example_env (PeerManager_new example_env))
     = {p. GetPeer (peer_id p) (PeerManager_new example_env) = Some p}"
  using listing_exact [OF permutes_keys_example pm_wf_new, of example_env] by blast



text \<open>
  C4: Save and load. A file saved by one manager and loaded into a new one restores every peer
  (id, address, port and key; disconnected, seen now) and adds no other, provided ids and
  addresses are free of the separators and keys are not empty.
\<close>
theorem save_load_round_trip:
  assumes "permutes_keys e" and "pm_wf pm" and "can_open_for_writing e f"
    and "\<forall>p \<in> set (GetAllPeers e pm). text_safe p \<and> publicKey p \<noteq> []"
  shows "fst (LoadPeersFromFile e' f (SavePeersToFile e f pm fs) (PeerManager_new e'')) = Inr () \<and>
    GetPeer k (snd (LoadPeersFromFile e' f (SavePeersToFile e f pm fs) (PeerManager_new e'')))
       = map_option (restored e') (GetPeer k pm)"
proof -
  have safe: "\<forall>p \<in> set (GetAllPeers e pm). text_safe p" using assms(4) by simp
  have "publicKey p \<noteq> []" if "GetPeer k pm = Some p" for p
    using that assms(4) GetAllPeers_iff [OF assms(1,2), of p] GetPeer_id [OF assms(2) that] by auto
  then show ?thesis
    unfolding GetPeer_load_saved [OF assms(1-3) safe pm_wf_new] by (auto split: option.splits)
qed

definition example_peer :: PeerInfo where
  "example_peer = \<lparr>peer_id = ''p1'', address = ''10.0.0.1'', port = 8081, publicKey = [1, 254],
     isConnected = True, lastSeen = 7\<rparr>"

lemma GetAllPeers_single:
  "permutes_keys e \<Longrightarrow> GetAllPeers e (AddPeer p (PeerManager_new e')) = [p]"
proof -
  assume "permutes_keys e"
  then have "mset (hash_order e [peer_id p]) = mset [peer_id p]" by (simp add: permutes_keys_def)
  then have "hash_order e [peer_id p] = [peer_id p]" by simp
  then show ?thesis
    by (simp add: GetAllPeers_def AddPeer_def PeerManager_new_def umap_assign_def umap_items_def
        umap_find_def map_filter_simps)
qed

lemma example_peer_safe [simp]: "text_safe example_peer" "publicKey example_peer \<noteq> []"
  "peer_id example_peer = ''p1''"
  by (simp_all add: example_peer_def text_safe_def)

lemma example_env_writes [simp]: "can_open_for_writing example_env f"
  by (simp add: example_env_def)

theorem save_load_round_trip_witness:
  "GetPeer ''p1'' (snd (LoadPeersFromFile example_env ''f''
     (SavePeersToFile example_env ''f'' (AddPeer example_peer (PeerManager_new example_env)) Map.empty)
     (PeerManager_new example_env)))
   = map_option (restored example_env) (GetPeer ''p1'' (AddPeer example_peer (PeerManager_new example_env)))"
  by (rule save_load_round_trip [THEN conjunct2]) (simp_all add: pm_wf_intros GetAllPeers_single)

text \<open>
  A peer with an empty public key does not survive saving and loading: its line ends in the
  last separator, the fourth \<open>getline\<close> fails at the end of the line, and the loop skips it.
\<close>
theorem empty_key_not_restored:
  assumes "permutes_keys e" and "pm_wf pm" and "can_open_for_writing e f"
    and "\<forall>p \<in> set (GetAllPeers e pm). text_safe p"
    and "GetPeer k pm = Some p" and "publicKey p = []"
  shows "GetPeer k (snd (LoadPeersFromFile e' f (SavePeersToFile e f pm fs) (PeerManager_new e''))) = None"
  using assms(5,6) by (simp add: GetPeer_load_saved [OF assms(1-4) pm_wf_new])

theorem empty_key_not_restored_witness:
  "GetPeer ''p1'' (snd (LoadPeersFromFile example_env ''f''
     (SavePeersToFile example_env ''f''
        (AddPeer (example_peer\<lparr>publicKey := []\<rparr>) (PeerManager_new example_env)) Map.empty)
     (PeerManager_new example_env))) = None"
  by (rule empty_key_not_restored [where p = "example_peer\<lparr>publicKey := []\<rparr>"])
    (simp_all add: pm_wf_intros GetAllPeers_single GetPeer_AddPeer example_peer_def text_safe_def)

text \<open>
  Unescaped separators. An id that contains a newline, which a remote peer can choose in its
  handshake, writes a line of its own into the peers file: loading the file back installs a peer
  of that line's id although the saved manager never held it.
\<close>
theorem newline_in_id_forges_peer:
  assumes "permutes_keys e" and "can_open_for_writing e f"
    and "text_safe p" and "publicKey p \<noteq> []" and "text_safe q" and "peer_id q \<noteq> peer_id p"
    and "pm = AddPeer (q\<lparr>peer_id := line_body p @ CHR 0x0A # peer_id q\<rparr>) (PeerManager_new e)"
  shows "GetPeer (peer_id p) pm = None \<and>
    GetPeer (peer_id p) (snd (LoadPeersFromFile e' f (SavePeersToFile e f pm fs) (PeerManager_new e'')))
      = Some (restored e' p)"
proof -
  let ?forger = "q\<lparr>peer_id := line_body p @ CHR 0x0A # peer_id q\<rparr>"
  have saved: "SavePeersToFile e f pm fs = fs(f \<mapsto> concat (map peer_line [p, q]))"
    using assms(2) GetAllPeers_single [OF assms(1), of ?forger e]
    by (simp add: SavePeersToFile_def snd_items_GetAllPeers assms(7) peer_line_body)
      (simp add: line_body_def)
  have "LoadPeersFromFile e' f (SavePeersToFile e f pm fs) (PeerManager_new e'') = (Inr (),
      fold AddPeer (map (restored e') (filter (\<lambda>p. publicKey p \<noteq> []) [p, q])) (PeerManager_new e''))"
    unfolding saved using load_lines_saved [of "[p, q]" e' "[]"] assms(3,5)
    by (simp add: LoadPeersFromFile_def load_lines_Nil)
  moreover have "length (peer_id p) < length (peer_id ?forger)" by (simp add: line_body_def)
  then have "peer_id p \<noteq> peer_id ?forger" by (metis less_irrefl)
  ultimately show ?thesis
    using assms(4,6) by (auto simp: assms(7) GetPeer_AddPeer pm_wf_intros)
qed

theorem newline_in_id_forges_peer_witness:
  "GetPeer ''p1'' (snd (LoadPeersFromFile example_env ''f''
     (SavePeersToFile example_env ''f'' (AddPeer
        ((example_peer\<lparr>peer_id := ''q''\<rparr>)\<lparr>peer_id := line_body example_peer @ CHR 0x0A # ''q''\<rparr>)
        (PeerManager_new example_env)) Map.empty)
     (PeerManager_new example_env))) = Some (restored example_env example_peer)"
  using newline_in_id_forges_peer [of example_env "''f''" example_peer "example_peer\<lparr>peer_id := ''q''\<rparr>",
      OF _ _ _ _ _ _ refl, of example_env Map.empty example_env]
  by (simp add: example_peer_def text_safe_def)

text \<open>
  A malformed port aborts the load. A line whose third field is no number makes
  \<open>LoadPeersFromFile\<close> throw \<open>std::invalid_argument\<close>; the peers of the lines before it have been
  stored, those of the lines after it are not read.
\<close>
theorem malformed_port_aborts_load:
  assumes "\<forall>p \<in> set ps. text_safe p \<and> publicKey p \<noteq> []"
    and "fs f = Some (concat (map peer_line ps) @ (i @ ''|'' @ a @ ''|'' @ n @ ''|'' @ key) @ CHR 0x0A # rest)"
    and "set (i @ a @ n @ key) \<inter> {CHR ''|'', CHR 0x0A} = {}" and "key \<noteq> []"
    and "stoul 10 n = Inl (InvalidArgument ''stoul'')"
  shows "LoadPeersFromFile e f fs pm =
    (Inl (InvalidArgument ''stoul''), fold AddPeer (map (restored e) ps) pm)"
proof -
  let ?line = "i @ ''|'' @ a @ ''|'' @ n @ ''|'' @ key"
  have "parse_peer_line e ?line = Inl (InvalidArgument ''stoul'')"
    using assms(3,4,5) by (simp add: parse_peer_line_def)
  moreover have "CHR 0x0A \<notin> set ?line"
    using assms(3) by auto
  moreover have "filter (\<lambda>p. publicKey p \<noteq> []) ps = ps"
    using assms(1) by (simp add: filter_id_conv)
  moreover have "\<forall>p \<in> set ps. text_safe p" using assms(1) by simp
  ultimately show ?thesis
    by (simp only: LoadPeersFromFile_def assms(2) option.case load_lines_saved load_lines_step sum.case
        not_False_eq_True)
qed

theorem malformed_port_aborts_load_witness:
  "LoadPeersFromFile example_env ''f''
     [''f'' \<mapsto> concat (map peer_line [example_peer]) @ (''x'' @ ''|'' @ ''h'' @ ''|'' @ ''http'' @ ''|'' @ ''ab'') @ CHR 0x0A # []]
     (PeerManager_new example_env)
   = (Inl (InvalidArgument ''stoul''), fold AddPeer (map (restored example_env) [example_peer]) (PeerManager_new example_env))"
  by (rule malformed_port_aborts_load [where rest = "[]" and i = "''x''" and a = "''h''" and n = "''http''" and key = "''ab''"])
    (simp_all add: stoul_def is_space_def split_sign_def magnitude_def digit_in_def digit_value_def)

end
