(* ===== verification/Cxx_Run.thy ===== *)
theory Cxx_Run
  imports Prelude
begin

text \<open>
  How a member function of a class with shared state runs: it returns, an exception (or undefined
  behaviour) leaves it, or its thread waits for ever. State changes made before an exception stay.

  \<open>guard\<close> is a block under \<open>std::lock_guard<std::mutex>\<close>. A \<open>std::mutex\<close> is not recursive: a
  thread that locks a mutex it already holds never gets past the call (undefined in the standard,
  a wait without end on the platform's mutex). The interface \<open>monitor\<close>
  collects what holds of every such block.
\<close>

datatype ('a, 's) outcome =
    Returns 'a 's
  | Raises fault 's
  | Blocks 's

fun bind_outcome :: "('a, 's) outcome \<Rightarrow> ('a \<Rightarrow> 's \<Rightarrow> ('b, 's) outcome) \<Rightarrow> ('b, 's) outcome" where
  "bind_outcome (Returns a s) f = f a s"
| "bind_outcome (Raises x s) f = Raises x s"
| "bind_outcome (Blocks s) f = Blocks s"

fun final_state :: "('a, 's) outcome \<Rightarrow> 's" where
  "final_state (Returns a s) = s"
| "final_state (Raises x s) = s"
| "final_state (Blocks s) = s"

fun map_state :: "('s \<Rightarrow> 's) \<Rightarrow> ('a, 's) outcome \<Rightarrow> ('a, 's) outcome" where
  "map_state f (Returns a s) = Returns a (f s)"
| "map_state f (Raises x s) = Raises x (f s)"
| "map_state f (Blocks s) = Blocks s"

text \<open>A \<open>catch\<close> clause: \<open>handles\<close> selects the exceptions, \<open>handler\<close> goes on from the state.\<close>
fun catch_outcome ::
    "(fault \<Rightarrow> bool) \<Rightarrow> (fault \<Rightarrow> 's \<Rightarrow> ('a, 's) outcome) \<Rightarrow> ('a, 's) outcome \<Rightarrow> ('a, 's) outcome" where
  "catch_outcome handles handler (Raises x s) = (if handles x then handler x s else Raises x s)"
| "catch_outcome handles handler r = r"

fun for_each :: "('x \<Rightarrow> 's \<Rightarrow> (unit, 's) outcome) \<Rightarrow> 'x list \<Rightarrow> 's \<Rightarrow> (unit, 's) outcome" where
  "for_each f [] s = Returns () s"
| "for_each f (x # xs) s = bind_outcome (f x s) (\<lambda>_. for_each f xs)"

definition guard ::
    "('s \<Rightarrow> bool) \<Rightarrow> (bool \<Rightarrow> 's \<Rightarrow> 's) \<Rightarrow> ('s \<Rightarrow> ('a, 's) outcome) \<Rightarrow> 's \<Rightarrow> ('a, 's) outcome" where
  "guard locked set_locked body s =
     (if locked s then Blocks s
      else map_state (set_locked False) (body (set_locked True s)))"

fun is_blocked :: "('a, 's) outcome \<Rightarrow> bool" where
  "is_blocked (Blocks s) = True"
| "is_blocked _ = False"

fun no_throw :: "('a, 's) outcome \<Rightarrow> bool" where
  "no_throw (Raises x s) = False"
| "no_throw _ = True"

text \<open>What \<open>e.what()\<close> prints, and which faults the clauses of the program catch.\<close>
fun what :: "fault \<Rightarrow> string" where
  "what (RuntimeError s) = s"
| "what (InvalidArgument s) = s"
| "what (OutOfRange s) = s"
| "what (ZmqError s) = s"
| "what (Terminates s) = s"
| "what (UndefinedBehaviour s) = s"

fun is_zmq_error :: "fault \<Rightarrow> bool" where
  "is_zmq_error (ZmqError _) = True"
| "is_zmq_error _ = False"

lemma final_state_map_state:
  "final_state (map_state f r) = (case r of Blocks s \<Rightarrow> s | _ \<Rightarrow> f (final_state r))"
  by (cases r) auto

lemma bind_outcome_Returns_iff:
  "bind_outcome r f = Returns b t \<longleftrightarrow> (\<exists>a s. r = Returns a s \<and> f a s = Returns b t)"
  by (cases r) auto

lemma map_state_Returns_iff: "map_state f r = Returns a t \<longleftrightarrow> (\<exists>s. r = Returns a s \<and> t = f s)"
  by (cases r) auto

lemma map_state_Raises_iff: "map_state f r = Raises x t \<longleftrightarrow> (\<exists>s. r = Raises x s \<and> t = f s)"
  by (cases r) auto

lemmas outcome_iffs = bind_outcome_Returns_iff map_state_Returns_iff map_state_Raises_iff

lemma final_state_catch:
  assumes "I (final_state r)" and "\<And>x s. I s \<Longrightarrow> I (final_state (handler x s))"
  shows "I (final_state (catch_outcome handles handler r))"
  using assms by (cases r) auto

lemma final_state_bind:
  assumes "I (final_state r)" and "\<And>a s. I s \<Longrightarrow> I (final_state (f a s))"
  shows "I (final_state (bind_outcome r f))"
  using assms by (cases r) auto

text \<open>A loop over calls that all return runs to its end, threading the state.\<close>
lemma for_each_fold:
  assumes "\<And>x s. x \<in> set xs \<Longrightarrow> f x s = Returns () (g x s)"
  shows "for_each f xs s = Returns () (fold g xs s)"
  using assms by (induction xs arbitrary: s) auto

text \<open>What a step keeps, a loop keeps.\<close>
lemma for_each_final_state:
  assumes "\<And>x s. I s \<Longrightarrow> I (final_state (f x s))" and "I s"
  shows "I (final_state (for_each f xs s))"
  using assms(2)
proof (induction xs arbitrary: s)
  case Nil
  then show ?case by simp
next
  case (Cons x xs)
  then have "I (final_state (f x s))" using assms(1) by blast
  then show ?case using Cons.IH by (cases "f x s") auto
qed

text \<open>Steps that end and keep a property make a loop that ends and keeps it.\<close>
lemma for_each_ends:
  assumes "\<And>x s. I s \<Longrightarrow> \<not> is_blocked (f x s) \<and> I (final_state (f x s))" and "I s"
  shows "\<not> is_blocked (for_each f xs s) \<and> I (final_state (for_each f xs s))"
  using assms(2)
proof (induction xs arbitrary: s)
  case Nil
  then show ?case by simp
next
  case (Cons x xs)
  then have "\<not> is_blocked (f x s) \<and> I (final_state (f x s))" using assms(1) by blast
  then show ?case using Cons.IH by (cases "f x s") auto
qed

lemma is_blocked_map_state [simp]: "is_blocked (map_state f r) = is_blocked r"
  by (cases r) auto

lemma catch_ends:
  assumes "\<not> is_blocked r \<and> I (final_state r)"
    and "\<And>x s. I s \<Longrightarrow> \<not> is_blocked (handler x s) \<and> I (final_state (handler x s))"
  shows "\<not> is_blocked (catch_outcome handles handler r) \<and> I (final_state (catch_outcome handles handler r))"
  using assms by (cases r) auto

lemma no_throw_map_state [simp]: "no_throw (map_state f r) = no_throw r"
  by (cases r) auto

lemma no_throw_bind [intro!]:
  "no_throw r \<Longrightarrow> (\<And>a s. no_throw (f a s)) \<Longrightarrow> no_throw (bind_outcome r f)"
  by (cases r) auto

lemma no_throw_catch:
  assumes "\<And>x s. r = Raises x s \<Longrightarrow> handles x" and "\<And>x s. no_throw (handler x s)"
  shows "no_throw (catch_outcome handles handler r)"
  using assms by (cases r) auto

lemma no_throw_for_each: "(\<And>x s. no_throw (f x s)) \<Longrightarrow> no_throw (for_each f xs s)"
  by (induction xs arbitrary: s) auto

lemma no_throw_guard: "(\<And>t. no_throw (body t)) \<Longrightarrow> no_throw (guard locked set_locked body s)"
  by (simp add: guard_def)

locale monitor =
  fixes locked :: "'s \<Rightarrow> bool"
    and set_locked :: "bool \<Rightarrow> 's \<Rightarrow> 's"
  assumes locked_set: "locked (set_locked b s) = b"
    and set_set: "set_locked b (set_locked c s) = set_locked b s"
    and set_same: "locked s = b \<Longrightarrow> set_locked b s = s"
begin

lemma guard_held: "locked s \<Longrightarrow> guard locked set_locked body s = Blocks s"
  by (simp add: guard_def)

text \<open>A guarded block that calls a guarded block never gets past the inner one.\<close>
lemma guard_reentered:
  "\<not> locked s \<Longrightarrow> body (set_locked True s) = bind_outcome (guard locked set_locked inner t) rest
     \<Longrightarrow> locked t \<Longrightarrow> guard locked set_locked body s = Blocks t"
  by (simp add: guard_def)

lemma guard_releases:
  assumes "\<not> locked s"
  shows "(\<forall>a t. guard locked set_locked body s = Returns a t \<longrightarrow> \<not> locked t) \<and>
    (\<forall>x t. guard locked set_locked body s = Raises x t \<longrightarrow> \<not> locked t)"
  using assms by (auto simp: guard_def outcome_iffs locked_set)

lemma guard_free:
  "\<not> locked s \<Longrightarrow> guard locked set_locked body s = map_state (set_locked False) (body (set_locked True s))"
  by (simp add: guard_def)

text \<open>A property of states that ignores the mutex is kept by a block that keeps it.\<close>
lemma guard_keeps:
  assumes "\<And>b t. I (set_locked b t) = I t" and "\<And>t. I t \<Longrightarrow> I (final_state (body t))" and "I s"
  shows "I (final_state (guard locked set_locked body s))"
proof (cases "locked s")
  case True
  then show ?thesis using assms(3) by (simp add: guard_held)
next
  case False
  have "I (final_state (body (set_locked True s)))" using assms by simp
  then show ?thesis
    using False by (cases "body (set_locked True s)") (auto simp: guard_free assms(1))
qed

end

end
