(* ===== verification/Network.thy ===== *)
theory Network
  imports Message PeerManager Cxx_Run
begin

text \<open>
  The network layer: \<open>Include/Network.hpp\<close> and \<open>Source/Network.cpp\<close> (the ZeroMQ version that the
  build uses). \<open>NetworkManager\<close> forwards every call to \<open>Impl\<close>, whose state is the record
  \<open>NetImpl\<close>: the router socket for incoming connections, one dealer socket per outgoing
  connection under the key \<open>address:port\<close>, the mutex over the dealer sockets, the handlers and the
  reference to the peer directory.

  ZeroMQ is not part of the sources. What its calls return or throw is a field of the environment
  \<open>znv\<close>, an arbitrary function of the arguments; what the program hands to it is recorded in
  \<open>wire\<close>. Handlers are functions on the peer directory and on a user-interface state of any type
  \<open>'ui\<close>; like the program's own handlers they do not call back into the network layer.

  The functions are the code of one thread; the theories \<open>Shutdown\<close> and \<open>RouterSends\<close> look at how
  several of them interleave. \<open>Blocks\<close> means that the thread waits for ever on
  \<open>socketsMutex_\<close>.
\<close>

section \<open>Data\<close>

datatype socket_type = Router | Dealer

text \<open>A socket as an argument of \<open>send\<close>: the router, or the dealer stored under a key.\<close>
datatype socket_ref = RouterSocket | DealerSocket string

datatype send_result = Sent | WouldBlock | SendFails string

datatype recv_result = Received "byte list" | NothingReceived | RecvFails string

record znv = env +
  zmq_socket :: "socket_type \<Rightarrow> string option"
  zmq_set :: "string \<Rightarrow> string \<Rightarrow> string option"
  zmq_bind :: "string \<Rightarrow> string option"
  zmq_connect :: "string \<Rightarrow> string option"
  zmq_send :: "socket_ref \<Rightarrow> bool \<Rightarrow> byte list \<Rightarrow> send_result"

text \<open>A frame handed to ZeroMQ: the socket, the \<open>sndmore\<close> flag and the bytes.\<close>
datatype frame = Frame socket_ref bool "byte list"

record dealer =
  dealer_identity :: string
  dealer_endpoint :: string

type_synonym 'ui world = "PeerManager \<times> 'ui"
type_synonym 'ui MessageHandler = "znv \<Rightarrow> string \<Rightarrow> Message \<Rightarrow> 'ui world \<Rightarrow> 'ui world"
type_synonym 'ui ConnectionHandler = "znv \<Rightarrow> string \<Rightarrow> bool \<Rightarrow> 'ui world \<Rightarrow> 'ui world"

text \<open>
  \<open>struct NetworkManager::Impl\<close>; \<open>routerSocket\<close> and the two threads are present or absent,
  \<open>errorLog\<close> is what was written to \<open>std::cerr\<close>.
\<close>
record 'ui NetImpl =
  peerManager :: PeerManager
  userInterface :: 'ui
  userMessageHandler :: "'ui MessageHandler option"
  connectionHandler :: "'ui ConnectionHandler option"
  routerSocket :: bool
  dealerSockets :: "dealer umap"
  socketsMutex :: bool
  routerThread :: bool
  pollerThread :: bool
  running :: bool
  listenPort :: u16
  wire :: "frame list"
  errorLog :: "string list"

type_synonym ('a, 'ui) net_outcome = "('a, 'ui NetImpl) outcome"

section \<open>Operations\<close>

definition NetImpl_new :: "PeerManager \<Rightarrow> 'ui \<Rightarrow> 'ui NetImpl" where
  "NetImpl_new pm u =
     \<lparr>peerManager = pm, userInterface = u, userMessageHandler = None, connectionHandler = None,
      routerSocket = False, dealerSockets = [], socketsMutex = False, routerThread = False,
      pollerThread = False, running = False, listenPort = 0, wire = [], errorLog = []\<rparr>"

definition set_mutex :: "bool \<Rightarrow> 'ui NetImpl \<Rightarrow> 'ui NetImpl" where
  "set_mutex b s = s\<lparr>socketsMutex := b\<rparr>"

definition lock_sockets :: "('ui NetImpl \<Rightarrow> ('a, 'ui) net_outcome) \<Rightarrow> 'ui NetImpl \<Rightarrow> ('a, 'ui) net_outcome" where
  "lock_sockets = guard socketsMutex set_mutex"

definition log_error :: "string \<Rightarrow> 'ui NetImpl \<Rightarrow> 'ui NetImpl" where
  "log_error line s = s\<lparr>errorLog := errorLog s @ [line]\<rparr>"

definition send_frame :: "socket_ref \<Rightarrow> bool \<Rightarrow> byte list \<Rightarrow> 'ui NetImpl \<Rightarrow> 'ui NetImpl" where
  "send_frame ref sndmore bs s = s\<lparr>wire := wire s @ [Frame ref sndmore bs]\<rparr>"

definition notify_connection :: "znv \<Rightarrow> string \<Rightarrow> bool \<Rightarrow> 'ui NetImpl \<Rightarrow> 'ui NetImpl" where
  "notify_connection e peerId connected s =
     (case connectionHandler s of
        None \<Rightarrow> s
      | Some h \<Rightarrow> let (pm, u) = h e peerId connected (peerManager s, userInterface s)
                  in s\<lparr>peerManager := pm, userInterface := u\<rparr>)"

definition notify_message :: "znv \<Rightarrow> string \<Rightarrow> Message \<Rightarrow> 'ui NetImpl \<Rightarrow> 'ui NetImpl" where
  "notify_message e peerId msg s =
     (case userMessageHandler s of
        None \<Rightarrow> s
      | Some h \<Rightarrow> let (pm, u) = h e peerId msg (peerManager s, userInterface s)
                  in s\<lparr>peerManager := pm, userInterface := u\<rparr>)"

definition endpoint :: "string \<Rightarrow> u16 \<Rightarrow> string" where
  "endpoint addr portNo = addr @ '':'' @ dec_string (unat portNo)"

subsection \<open>Start and Stop\<close>

text \<open>The calls in the \<open>try\<close> block of \<open>Start\<close>: the message of the first that throws.\<close>
definition open_router :: "znv \<Rightarrow> u16 \<Rightarrow> string option" where
  "open_router e portNo =
     (case zmq_socket e Router of Some w \<Rightarrow> Some w | None \<Rightarrow>
      case zmq_set e ''router_mandatory'' ''1'' of Some w \<Rightarrow> Some w | None \<Rightarrow>
      case zmq_set e ''linger'' ''0'' of Some w \<Rightarrow> Some w | None \<Rightarrow>
        zmq_bind e (''tcp://*:'' @ dec_string (unat portNo)))"

definition Start :: "znv \<Rightarrow> u16 \<Rightarrow> 'ui NetImpl \<Rightarrow> (unit, 'ui) net_outcome" where
  "Start e portNo s =
     (if running s then Returns () s
      else
        let s = s\<lparr>listenPort := portNo, running := True\<rparr> in
        case open_router e portNo of
          Some w \<Rightarrow> Raises (ZmqError w) (s\<lparr>running := False, routerSocket := False\<rparr>)
        | None \<Rightarrow>
            let s = s\<lparr>routerSocket := True\<rparr> in
            if routerThread s \<or> pollerThread s
            then Raises (Terminates ''thread assigned while joinable'') s
            else Returns () (s\<lparr>routerThread := True, pollerThread := True\<rparr>))"

definition Stop :: "'ui NetImpl \<Rightarrow> (unit, 'ui) net_outcome" where
  "Stop s =
     (if \<not> running s then Returns () s
      else
        bind_outcome
          (lock_sockets (\<lambda>s. Returns () (s\<lparr>dealerSockets := []\<rparr>)) (s\<lparr>running := False\<rparr>))
          (\<lambda>_ s. Returns () (s\<lparr>routerSocket := False, routerThread := False, pollerThread := False\<rparr>)))"

definition Impl_destroy :: "'ui NetImpl \<Rightarrow> (unit, 'ui) net_outcome" where
  "Impl_destroy s = Stop s"

text \<open>The class around \<open>Impl\<close>: its constructor makes the \<open>Impl\<close>, its destructor stops and destroys it.\<close>
definition NetworkManager_new :: "PeerManager \<Rightarrow> 'ui \<Rightarrow> 'ui NetImpl" where
  "NetworkManager_new pm u = NetImpl_new pm u"

definition NetworkManager_destroy :: "'ui NetImpl \<Rightarrow> (unit, 'ui) net_outcome" where
  "NetworkManager_destroy s = bind_outcome (Stop s) (\<lambda>_. Impl_destroy)"

subsection \<open>Sending\<close>

definition SendToPeer :: "znv \<Rightarrow> string \<Rightarrow> Message \<Rightarrow> 'ui NetImpl \<Rightarrow> (unit, 'ui) net_outcome" where
  "SendToPeer e peerId msg =
     lock_sockets (\<lambda>s.
       case umap_find peerId (dealerSockets s) of
         None \<Rightarrow> Returns () s
       | Some sock \<Rightarrow>
           let data = Serialize msg in
           (case zmq_send e (DealerSocket peerId) False data of
              Sent \<Rightarrow> Returns () (send_frame (DealerSocket peerId) False data s)
            | WouldBlock \<Rightarrow> Returns () s
            | SendFails w \<Rightarrow> Returns () (log_error (''Failed to send message: '' @ w) s)))"

definition SendViaRouter :: "znv \<Rightarrow> string \<Rightarrow> Message \<Rightarrow> 'ui NetImpl \<Rightarrow> 'ui NetImpl" where
  "SendViaRouter e peerId msg s =
     (if \<not> routerSocket s then s
      else
        let idMsg = string_to_bytes peerId; data = Serialize msg in
        case zmq_send e RouterSocket True idMsg of
          SendFails w \<Rightarrow> s
        | first \<Rightarrow>
            let s = (if first = Sent then send_frame RouterSocket True idMsg s else s) in
            (case zmq_send e RouterSocket False data of
               Sent \<Rightarrow> send_frame RouterSocket False data s
             | WouldBlock \<Rightarrow> s
             | SendFails w \<Rightarrow> s))"

definition SendMessage :: "znv \<Rightarrow> string \<Rightarrow> Message \<Rightarrow> 'ui NetImpl \<Rightarrow> (unit, 'ui) net_outcome" where
  "SendMessage e peerId msg s = SendToPeer e peerId msg s"

definition BroadcastMessage :: "znv \<Rightarrow> Message \<Rightarrow> 'ui NetImpl \<Rightarrow> (unit, 'ui) net_outcome" where
  "BroadcastMessage e msg =
     lock_sockets (\<lambda>s.
       bind_outcome
         (for_each (\<lambda>(peerId, sock). SendToPeer e peerId msg) (umap_items e (dealerSockets s)) s)
         (\<lambda>_ s.
            let connectedPeers = GetAllPeers e (peerManager s) in
            Returns () (fold (\<lambda>peer s. if isConnected peer then SendViaRouter e (peer_id peer) msg s else s)
                          connectedPeers s)))"

subsection \<open>Connecting\<close>

text \<open>The calls that set up a dealer socket: the message of the first that throws.\<close>
definition open_dealer :: "znv \<Rightarrow> string \<Rightarrow> string \<Rightarrow> string option" where
  "open_dealer e identity connectAddr =
     (case zmq_socket e Dealer of Some w \<Rightarrow> Some w | None \<Rightarrow>
      case zmq_set e ''routing_id'' identity of Some w \<Rightarrow> Some w | None \<Rightarrow>
      case zmq_set e ''linger'' ''0'' of Some w \<Rightarrow> Some w | None \<Rightarrow>
        zmq_connect e connectAddr)"

definition ConnectToPeer :: "znv \<Rightarrow> string \<Rightarrow> u16 \<Rightarrow> 'ui NetImpl \<Rightarrow> (unit, 'ui) net_outcome" where
  "ConnectToPeer e addr portNo =
     lock_sockets (\<lambda>s.
       let local = GetLocalPeer (peerManager s);
           connectAddr = ''tcp://'' @ endpoint addr portNo;
           peerKey = endpoint addr portNo
       in catch_outcome is_zmq_error
            (\<lambda>x s. Raises x (log_error (''Failed to connect to peer '' @ peerKey @ '': '' @ what x) s))
            (case open_dealer e (peer_id local) connectAddr of
               Some w \<Rightarrow> Raises (ZmqError w) s
             | None \<Rightarrow>
                 SendToPeer e peerKey (CreateHandshakeMessage e (peer_id local) (publicKey local))
                   (s\<lparr>dealerSockets := umap_assign peerKey
                        \<lparr>dealer_identity = peer_id local, dealer_endpoint = connectAddr\<rparr> (dealerSockets s)\<rparr>)))"

definition DisconnectPeer :: "znv \<Rightarrow> string \<Rightarrow> 'ui NetImpl \<Rightarrow> (unit, 'ui) net_outcome" where
  "DisconnectPeer e peerId =
     lock_sockets (\<lambda>s.
       case umap_find peerId (dealerSockets s) of
         None \<Rightarrow> Returns () s
       | Some sock \<Rightarrow>
           Returns () (notify_connection e peerId False
             (s\<lparr>dealerSockets := umap_erase peerId (dealerSockets s)\<rparr>)))"

definition NetworkManager_GetConnectedPeers :: "znv \<Rightarrow> 'ui NetImpl \<Rightarrow> (string list, 'ui) net_outcome" where
  "NetworkManager_GetConnectedPeers e =
     lock_sockets (\<lambda>s.
       Returns (map fst (umap_items e (dealerSockets s))
                @ map peer_id (filter isConnected (GetAllPeers e (peerManager s)))) s)"

definition SetMessageHandler :: "'ui MessageHandler option \<Rightarrow> 'ui NetImpl \<Rightarrow> 'ui NetImpl" where
  "SetMessageHandler h s = s\<lparr>userMessageHandler := h\<rparr>"

definition SetConnectionHandler :: "'ui ConnectionHandler option \<Rightarrow> 'ui NetImpl \<Rightarrow> 'ui NetImpl" where
  "SetConnectionHandler h s = s\<lparr>connectionHandler := h\<rparr>"

subsection \<open>Receiving\<close>

text \<open>
  The id and the key in a handshake payload, \<open>None\<close> where one of the two length checks fails. The
  sum \<open>2 + idLen\<close> is an \<open>int\<close> and cannot wrap.
\<close>
definition handshake_fields :: "byte list \<Rightarrow> (string \<times> byte list) option" where
  "handshake_fields payload =
     (if 2 \<le> length payload then
        let idLen = unat (get_u16 (payload ! 0) (payload ! 1)) in
        if 2 + idLen \<le> length payload
        then Some (bytes_to_string (take idLen (drop 2 payload)), drop (2 + idLen) payload)
        else None
      else None)"

text \<open>
  The peer a handshake announces. Without a colon in the sender's id the member \<open>port\<close> is never
  assigned; with one, \<open>std::stoi\<close> reads it and may throw.
\<close>
definition handshake_peer :: "znv \<Rightarrow> string \<Rightarrow> string \<Rightarrow> byte list \<Rightarrow> PeerInfo result" where
  "handshake_peer e senderId peerId key =
     (let peer = (PeerInfo_uninitialised e)\<lparr>peer_id := peerId, publicKey := key, isConnected := True,
                   lastSeen := clock_now e\<rparr> in
      case find_char (CHR '':'') senderId of
        None \<Rightarrow> Inr peer
      | Some colonPos \<Rightarrow>
          (case stoi (drop (colonPos + 1) senderId) of
             Inl f \<Rightarrow> Inl f
           | Inr v \<Rightarrow> Inr (peer\<lparr>address := take colonPos senderId, port := word_of_int v\<rparr>)))"

definition receive_handshake :: "znv \<Rightarrow> string \<Rightarrow> byte list \<Rightarrow> 'ui NetImpl \<Rightarrow> (unit, 'ui) net_outcome" where
  "receive_handshake e senderId payload s =
     (case handshake_fields payload of
        None \<Rightarrow> Returns () s
      | Some (peerId, key) \<Rightarrow>
          (case handshake_peer e senderId peerId key of
             Inl f \<Rightarrow> Raises f s
           | Inr peer \<Rightarrow>
               let s = notify_connection e peerId True (s\<lparr>peerManager := AddPeer peer (peerManager s)\<rparr>) in
               if senderId = peerId then
                 let local = GetLocalPeer (peerManager s) in
                 Returns () (SendViaRouter e peerId
                   (CreateHandshakeMessage e (peer_id local) (publicKey local)) s)
               else Returns () s))"

definition actual_peer_id :: "string \<Rightarrow> Message \<Rightarrow> string" where
  "actual_peer_id senderId msg =
     (if GetType msg = HANDSHAKE then
        (case handshake_fields (GetPayload msg) of None \<Rightarrow> senderId | Some (peerId, key) \<Rightarrow> peerId)
      else senderId)"

definition HandleMessage :: "znv \<Rightarrow> string \<Rightarrow> Message \<Rightarrow> 'ui NetImpl \<Rightarrow> (unit, 'ui) net_outcome" where
  "HandleMessage e senderId msg s =
     bind_outcome
       (if GetType msg = HANDSHAKE then receive_handshake e senderId (GetPayload msg) s else Returns () s)
       (\<lambda>_ s. Returns () (notify_message e (actual_peer_id senderId msg) msg s))"

text \<open>The inner \<open>try\<close> of both receiving loops: decode a frame and handle it.\<close>
definition process_frame :: "znv \<Rightarrow> string \<Rightarrow> byte list \<Rightarrow> 'ui NetImpl \<Rightarrow> (unit, 'ui) net_outcome" where
  "process_frame e senderId data s =
     catch_outcome is_exception
       (\<lambda>x s. Returns () (log_error (''Failed to deserialize message: '' @ what x) s))
       (case Deserialize data of
          Inl f \<Rightarrow> Raises f s
        | Inr msg \<Rightarrow> HandleMessage e senderId msg s)"

text \<open>One turn of the router loop: what \<open>poll\<close> and the two \<open>recv\<close> calls gave.\<close>
datatype router_event = RouterIdle | RouterPollFails string | RouterReadable recv_result recv_result

definition route_turn :: "znv \<Rightarrow> router_event \<Rightarrow> 'ui NetImpl \<Rightarrow> (unit, 'ui) net_outcome" where
  "route_turn e ev s =
     (if \<not> routerSocket s then Raises (UndefinedBehaviour ''null router socket'') s
      else
        catch_outcome is_zmq_error
          (\<lambda>x s. Returns () (if running s then log_error (''Router error: '' @ what x) s else s))
          (case ev of
             RouterIdle \<Rightarrow> Returns () s
           | RouterPollFails w \<Rightarrow> Raises (ZmqError w) s
           | RouterReadable (RecvFails w) _ \<Rightarrow> Raises (ZmqError w) s
           | RouterReadable NothingReceived _ \<Rightarrow> Returns () s
           | RouterReadable (Received identity) (RecvFails w) \<Rightarrow> Raises (ZmqError w) s
           | RouterReadable (Received identity) NothingReceived \<Rightarrow> Returns () s
           | RouterReadable (Received identity) (Received data) \<Rightarrow>
               process_frame e (bytes_to_string identity) data s))"

text \<open>\<open>RouteMessages\<close> over the events of its turns, each with the environment of its turn.\<close>
fun RouteMessages :: "(znv \<times> router_event) list \<Rightarrow> 'ui NetImpl \<Rightarrow> (unit, 'ui) net_outcome" where
  "RouteMessages [] s = Returns () s"
| "RouteMessages ((e, ev) # evs) s =
     (if running s then bind_outcome (route_turn e ev s) (\<lambda>_. RouteMessages evs) else Returns () s)"

text \<open>
  One turn of the poller loop. \<open>DealersReadable\<close> gives, for the key of a dealer, whether \<open>poll\<close>
  reported it readable and what \<open>recv\<close> then gave.
\<close>
datatype poller_event = PollerPollFails string | DealersReadable "string \<Rightarrow> recv_result option"

definition poll_dealer :: "znv \<Rightarrow> (string \<Rightarrow> recv_result option) \<Rightarrow> string \<Rightarrow> 'ui NetImpl \<Rightarrow> (unit, 'ui) net_outcome" where
  "poll_dealer e readable peerId s =
     (case readable peerId of
        None \<Rightarrow> Returns () s
      | Some r \<Rightarrow>
          lock_sockets (\<lambda>s.
            case umap_find peerId (dealerSockets s) of
              None \<Rightarrow> Returns () s
            | Some sock \<Rightarrow>
                (case r of
                   RecvFails w \<Rightarrow> Raises (ZmqError w) s
                 | NothingReceived \<Rightarrow> Returns () s
                 | Received data \<Rightarrow> process_frame e peerId data s)) s)"

definition poll_turn :: "znv \<Rightarrow> poller_event \<Rightarrow> 'ui NetImpl \<Rightarrow> (unit, 'ui) net_outcome" where
  "poll_turn e ev s =
     bind_outcome (lock_sockets (\<lambda>s. Returns (map fst (umap_items e (dealerSockets s))) s) s)
       (\<lambda>peerIds s.
          if peerIds = [] then Returns () s
          else
            catch_outcome is_zmq_error
              (\<lambda>x s. Returns () (if running s then log_error (''Poll error: '' @ what x) s else s))
              (case ev of
                 PollerPollFails w \<Rightarrow> Raises (ZmqError w) s
               | DealersReadable readable \<Rightarrow> for_each (poll_dealer e readable) peerIds s))"

fun PollMessages :: "(znv \<times> poller_event) list \<Rightarrow> 'ui NetImpl \<Rightarrow> (unit, 'ui) net_outcome" where
  "PollMessages [] s = Returns () s"
| "PollMessages ((e, ev) # evs) s =
     (if running s then bind_outcome (poll_turn e ev s) (\<lambda>_. PollMessages evs) else Returns () s)"

section \<open>Specification\<close>

text \<open>Handlers that keep the invariant of the peer directory.\<close>
definition message_handler_ok :: "'ui MessageHandler \<Rightarrow> bool" where
  "message_handler_ok h \<longleftrightarrow> (\<forall>e peerId msg pm u. pm_wf pm \<longrightarrow> pm_wf (fst (h e peerId msg (pm, u))))"

definition connection_handler_ok :: "'ui ConnectionHandler \<Rightarrow> bool" where
  "connection_handler_ok h \<longleftrightarrow> (\<forall>e peerId c pm u. pm_wf pm \<longrightarrow> pm_wf (fst (h e peerId c (pm, u))))"

text \<open>
  The invariant of \<open>Impl\<close> between calls: a running manager has its router socket and its threads, the two threads exist together,
  the containers are well-formed, and the handlers keep them so.
\<close>
definition net_wf :: "'ui NetImpl \<Rightarrow> bool" where
  "net_wf s \<longleftrightarrow>
     (running s \<longrightarrow> routerSocket s \<and> pollerThread s) \<and> routerThread s = pollerThread s \<and>
     umap_wf (dealerSockets s) \<and> pm_wf (peerManager s) \<and>
     pred_option message_handler_ok (userMessageHandler s) \<and>
     pred_option connection_handler_ok (connectionHandler s)"

text \<open>
  The calls on the network layer and the turns of its two threads; the methods of \<open>NetworkManager\<close>
  hand each call to \<open>Impl\<close>.
\<close>
datatype net_call =
    CallStart u16 | CallStop | CallConnect string u16 | CallDisconnect string
  | CallSend string Message | CallBroadcast Message | CallGetConnected
  | TurnRouter router_event | TurnPoller poller_event

fun run_call :: "znv \<Rightarrow> net_call \<Rightarrow> 'ui NetImpl \<Rightarrow> (unit, 'ui) net_outcome" where
  "run_call e (CallStart p) s = Start e p s"
| "run_call e CallStop s = Stop s"
| "run_call e (CallConnect a p) s = ConnectToPeer e a p s"
| "run_call e (CallDisconnect k) s = DisconnectPeer e k s"
| "run_call e (CallSend k msg) s = SendMessage e k msg s"
| "run_call e (CallBroadcast msg) s = BroadcastMessage e msg s"
| "run_call e CallGetConnected s = bind_outcome (NetworkManager_GetConnectedPeers e s) (\<lambda>_ s. Returns () s)"
| "run_call e (TurnRouter ev) s = RouteMessages [(e, ev)] s"
| "run_call e (TurnPoller ev) s = PollMessages [(e, ev)] s"

fun is_undefined :: "('a, 's) outcome \<Rightarrow> bool" where
  "is_undefined (Raises x s) = (\<not> is_exception x)"
| "is_undefined _ = False"

text \<open>
  The states between calls: calls and turns happen in any order, with any results of ZeroMQ and
  any received bytes; after undefined behaviour there is no next state.
\<close>
inductive net_reachable :: "'ui NetImpl \<Rightarrow> bool" where
  net_init: "pm_wf pm \<Longrightarrow> net_reachable (NetImpl_new pm u)"
| net_message_handler:
    "net_reachable s \<Longrightarrow> pred_option message_handler_ok h \<Longrightarrow> net_reachable (SetMessageHandler h s)"
| net_connection_handler:
    "net_reachable s \<Longrightarrow> pred_option connection_handler_ok h \<Longrightarrow> net_reachable (SetConnectionHandler h s)"
| net_call: "net_reachable s \<Longrightarrow> \<not> is_undefined (run_call e c s) \<Longrightarrow> net_reachable (final_state (run_call e c s))"

definition run_calls :: "(znv \<times> net_call) list \<Rightarrow> 'ui NetImpl \<Rightarrow> 'ui NetImpl" where
  "run_calls cs s = fold (\<lambda>(e, c) s. final_state (run_call e c s)) cs s"

text \<open>A turn of the router whose frame, if any, \<open>Deserialize\<close> accepts or refuses with an exception.\<close>
fun frame_defined :: "router_event \<Rightarrow> bool" where
  "frame_defined (RouterReadable (Received identity) (Received data)) =
     (case Deserialize data of Inl f \<Rightarrow> is_exception f | Inr m \<Rightarrow> True)"
| "frame_defined _ = True"

text \<open>The frames handed to dealer sockets, and the states in which there is none and none can follow.\<close>
definition dealer_frames :: "'ui NetImpl \<Rightarrow> frame list" where
  "dealer_frames s = filter (\<lambda>f. case f of Frame r _ _ \<Rightarrow> r \<noteq> RouterSocket) (wire s)"

definition quiet :: "'ui NetImpl \<Rightarrow> bool" where
  "quiet s \<longleftrightarrow> dealer_frames s = [] \<and> (dealerSockets s = [] \<or> socketsMutex s)"

section \<open>Lemmas\<close>

interpretation sockets: monitor socketsMutex set_mutex
  by unfold_locales (simp_all add: set_mutex_def)

lemma lock_sockets_held [simp]: "socketsMutex s \<Longrightarrow> lock_sockets body s = Blocks s"
  by (simp add: lock_sockets_def sockets.guard_held)

lemma lock_sockets_free [simp]:
  "\<not> socketsMutex s \<Longrightarrow> lock_sockets body s = map_state (set_mutex False) (body (set_mutex True s))"
  by (simp add: lock_sockets_def sockets.guard_free)

lemma set_mutex_simps [simp]:
  "peerManager (set_mutex b s) = peerManager s" "userInterface (set_mutex b s) = userInterface s"
  "userMessageHandler (set_mutex b s) = userMessageHandler s"
  "connectionHandler (set_mutex b s) = connectionHandler s"
  "routerSocket (set_mutex b s) = routerSocket s" "dealerSockets (set_mutex b s) = dealerSockets s"
  "socketsMutex (set_mutex b s) = b" "routerThread (set_mutex b s) = routerThread s"
  "pollerThread (set_mutex b s) = pollerThread s" "running (set_mutex b s) = running s"
  "wire (set_mutex b s) = wire s" "errorLog (set_mutex b s) = errorLog s"
  by (simp_all add: set_mutex_def)

subsection \<open>What the operations leave alone\<close>

lemma log_error_simps [simp]:
  "peerManager (log_error l s) = peerManager s" "socketsMutex (log_error l s) = socketsMutex s"
  "wire (log_error l s) = wire s" "dealerSockets (log_error l s) = dealerSockets s"
  "running (log_error l s) = running s" "userInterface (log_error l s) = userInterface s"
  by (simp_all add: log_error_def)

lemma send_frame_simps [simp]:
  "peerManager (send_frame r b d s) = peerManager s" "socketsMutex (send_frame r b d s) = socketsMutex s"
  "routerSocket (send_frame r b d s) = routerSocket s" "dealerSockets (send_frame r b d s) = dealerSockets s"
  "userInterface (send_frame r b d s) = userInterface s" "running (send_frame r b d s) = running s"
  "wire (send_frame r b d s) = wire s @ [Frame r b d]"
  "userMessageHandler (send_frame r b d s) = userMessageHandler s"
  "connectionHandler (send_frame r b d s) = connectionHandler s"
  by (simp_all add: send_frame_def)

lemma notify_connection_simps [simp]:
  "socketsMutex (notify_connection e k c s) = socketsMutex s" "wire (notify_connection e k c s) = wire s"
  "dealerSockets (notify_connection e k c s) = dealerSockets s" "running (notify_connection e k c s) = running s"
  "routerSocket (notify_connection e k c s) = routerSocket s" "errorLog (notify_connection e k c s) = errorLog s"
  by (simp_all add: notify_connection_def Let_def split: option.split prod.split)

lemma notify_message_simps [simp]:
  "socketsMutex (notify_message e k m s) = socketsMutex s" "wire (notify_message e k m s) = wire s"
  "dealerSockets (notify_message e k m s) = dealerSockets s" "running (notify_message e k m s) = running s"
  "routerSocket (notify_message e k m s) = routerSocket s" "errorLog (notify_message e k m s) = errorLog s"
  by (simp_all add: notify_message_def Let_def split: option.split prod.split)

lemma SendViaRouter_simps [simp]:
  "peerManager (SendViaRouter e k m s) = peerManager s" "socketsMutex (SendViaRouter e k m s) = socketsMutex s"
  "dealerSockets (SendViaRouter e k m s) = dealerSockets s" "userInterface (SendViaRouter e k m s) = userInterface s"
  "running (SendViaRouter e k m s) = running s" "routerSocket (SendViaRouter e k m s) = routerSocket s"
  "userMessageHandler (SendViaRouter e k m s) = userMessageHandler s"
  "connectionHandler (SendViaRouter e k m s) = connectionHandler s"
  by (auto simp: SendViaRouter_def Let_def split: send_result.split)

lemma dealer_frames_simps [simp]:
  "dealer_frames (set_mutex b s) = dealer_frames s" "dealer_frames (log_error l s) = dealer_frames s"
  "dealer_frames (notify_connection e k c s) = dealer_frames s"
  "dealer_frames (notify_message e k m s) = dealer_frames s"
  "dealer_frames (SendViaRouter e k m s) = dealer_frames s"
  "dealer_frames (s\<lparr>peerManager := pm\<rparr>) = dealer_frames s"
  by (auto simp: dealer_frames_def SendViaRouter_def Let_def split: send_result.split)

subsection \<open>Closed forms\<close>

lemma SendToPeer_unlocked:
  assumes "\<not> socketsMutex s"
  shows "SendToPeer e k msg s = Returns () (
    case umap_find k (dealerSockets s) of
      None \<Rightarrow> s
    | Some sock \<Rightarrow>
        (case zmq_send e (DealerSocket k) False (Serialize msg) of
           Sent \<Rightarrow> send_frame (DealerSocket k) False (Serialize msg) s
         | WouldBlock \<Rightarrow> s
         | SendFails w \<Rightarrow> log_error (''Failed to send message: '' @ w) s))"
  using assms
  by (auto simp: SendToPeer_def Let_def set_mutex_def send_frame_def log_error_def
      split: option.split send_result.split)

lemma SendToPeer_locked: "socketsMutex s \<Longrightarrow> SendToPeer e k msg s = Blocks s"
  by (simp add: SendToPeer_def)

text \<open>The state in which a successful dial leaves the program: socket stored, mutex held.\<close>
definition dialled :: "string \<Rightarrow> u16 \<Rightarrow> 'ui NetImpl \<Rightarrow> 'ui NetImpl" where
  "dialled addr portNo s =
     (set_mutex True s)\<lparr>dealerSockets := umap_assign (endpoint addr portNo)
        \<lparr>dealer_identity = peer_id (GetLocalPeer (peerManager s)),
         dealer_endpoint = ''tcp://'' @ endpoint addr portNo\<rparr> (dealerSockets s)\<rparr>"

lemma ConnectToPeer_cases:
  "ConnectToPeer e addr portNo s =
     (if socketsMutex s then Blocks s
      else
        case open_dealer e (peer_id (GetLocalPeer (peerManager s))) (''tcp://'' @ endpoint addr portNo) of
          Some w \<Rightarrow> Raises (ZmqError w)
            (log_error (''Failed to connect to peer '' @ endpoint addr portNo @ '': '' @ w) s)
        | None \<Rightarrow> Blocks (dialled addr portNo s))"
  by (auto simp: ConnectToPeer_def Let_def SendToPeer_locked dialled_def log_error_def set_mutex_def
      split: option.split)

lemma BroadcastMessage_dialled:
  assumes "\<not> socketsMutex s" and "permutes_keys e" and "dealerSockets s \<noteq> []"
  shows "BroadcastMessage e msg s = Blocks (set_mutex True s)"
proof -
  obtain k d rest where "umap_items e (dealerSockets s) = (k, d) # rest"
    using umap_items_Nil_iff [OF assms(2), of "dealerSockets s"] assms(3)
    by (metis list.exhaust surj_pair)
  then show ?thesis
    using assms(1) by (simp add: BroadcastMessage_def SendToPeer_locked)
qed

lemma BroadcastMessage_router_only:
  assumes "\<not> socketsMutex s" and "dealerSockets s = []"
  shows "BroadcastMessage e msg s = Returns ()
    (fold (\<lambda>peer s. if isConnected peer then SendViaRouter e (peer_id peer) msg s else s)
       (GetAllPeers e (peerManager s)) s)"
proof -
  have "umap_items e (dealerSockets s) = []"
    using assms(2) by simp
  moreover have "set_mutex False (fold (\<lambda>peer s. if isConnected peer then SendViaRouter e (peer_id peer) msg s else s)
      ps (set_mutex True s)) = fold (\<lambda>peer s. if isConnected peer then SendViaRouter e (peer_id peer) msg s else s) ps s"
    if "\<not> socketsMutex s" for ps s
    using that
  proof (induction ps arbitrary: s)
    case Nil
    then show ?case by (simp add: set_mutex_def)
  next
    case (Cons p ps)
    have "SendViaRouter e (peer_id p) msg (set_mutex True s) = set_mutex True (SendViaRouter e (peer_id p) msg s)"
      by (auto simp: SendViaRouter_def Let_def set_mutex_def send_frame_def split: send_result.split)
    with Cons show ?case by simp
  qed
  ultimately show ?thesis
    using assms(1) by (simp add: BroadcastMessage_def Let_def)
qed

lemma router_fold_simps [simp]:
  "dealer_frames (fold (\<lambda>p s. if isConnected p then SendViaRouter e (peer_id p) msg s else s) ps s) = dealer_frames s"
  "dealerSockets (fold (\<lambda>p s. if isConnected p then SendViaRouter e (peer_id p) msg s else s) ps s) = dealerSockets s"
  "socketsMutex (fold (\<lambda>p s. if isConnected p then SendViaRouter e (peer_id p) msg s else s) ps s) = socketsMutex s"
  "peerManager (fold (\<lambda>p s. if isConnected p then SendViaRouter e (peer_id p) msg s else s) ps s) = peerManager s"
  "userInterface (fold (\<lambda>p s. if isConnected p then SendViaRouter e (peer_id p) msg s else s) ps s) = userInterface s"
  by (induction ps arbitrary: s) auto

text \<open>What a broadcast through the router writes when ZeroMQ takes every frame.\<close>
lemma wire_router_fold:
  assumes "routerSocket s" and "\<And>b d. zmq_send e RouterSocket b d = Sent"
  shows "wire (fold (\<lambda>peer s. if isConnected peer then SendViaRouter e (peer_id peer) msg s else s) ps s) =
    wire s @ concat (map (\<lambda>p. [Frame RouterSocket True (string_to_bytes (peer_id p)),
                               Frame RouterSocket False (Serialize msg)]) (filter isConnected ps))"
  using assms(1)
proof (induction ps arbitrary: s)
  case Nil
  then show ?case by simp
next
  case (Cons p ps)
  then show ?case
    by (simp add: SendViaRouter_def assms(2))
qed

subsection \<open>The invariant\<close>

text \<open>
  The interface behind every invariant of the network layer: a property of states that does not
  depend on the mutex, the log and the wire, and that the handlers, the directory, the table of
  dealers, \<open>Start\<close> and \<open>Stop\<close> keep, is kept by every call and every turn of the two threads.
\<close>

locale call_invariant =
  fixes I :: "'ui NetImpl \<Rightarrow> bool"
  assumes I_mutex: "I (set_mutex b s) = I s"
    and I_log: "I (log_error l s) = I s"
    and I_send: "I (send_frame r m d s) = I s"
    and I_connection: "I s \<Longrightarrow> I (notify_connection e k c s)"
    and I_message: "I s \<Longrightarrow> I (notify_message e k msg s)"
    and I_AddPeer: "I s \<Longrightarrow> I (s\<lparr>peerManager := AddPeer p (peerManager s)\<rparr>)"
    and I_assign: "I s \<Longrightarrow> I (s\<lparr>dealerSockets := umap_assign k v (dealerSockets s)\<rparr>)"
    and I_erase: "I s \<Longrightarrow> I (s\<lparr>dealerSockets := umap_erase k (dealerSockets s)\<rparr>)"
    and I_Start: "I s \<Longrightarrow> I (final_state (Start e q s))"
    and I_Stop: "I s \<Longrightarrow> I (final_state (Stop s))"
begin

lemma I_lock_sockets:
  "(\<And>t. I t \<Longrightarrow> I (final_state (body t))) \<Longrightarrow> I s \<Longrightarrow> I (final_state (lock_sockets body s))"
  unfolding lock_sockets_def by (rule sockets.guard_keeps) (simp_all add: I_mutex)

lemma I_SendViaRouter: "I (SendViaRouter e k msg s) = I s"
  by (auto simp: SendViaRouter_def Let_def I_send split: send_result.split)

lemma I_HandleMessage: "I s \<Longrightarrow> I (final_state (HandleMessage e k msg s))"
  by (simp add: HandleMessage_def receive_handshake_def Let_def I_connection I_message I_AddPeer I_SendViaRouter
      split: option.split prod.split sum.split)

lemma I_process_frame:
  assumes "I s"
  shows "I (final_state (process_frame e k d s))"
  unfolding process_frame_def
  by (rule final_state_catch) (use assms in \<open>simp_all add: I_HandleMessage I_log split: sum.split\<close>)

lemma I_SendToPeer: "I s \<Longrightarrow> I (final_state (SendToPeer e k msg s))"
  unfolding SendToPeer_def
  by (rule I_lock_sockets) (auto simp: Let_def I_send I_log split: option.split send_result.split)

lemma I_ConnectToPeer: "I s \<Longrightarrow> I (final_state (ConnectToPeer e a q s))"
  unfolding ConnectToPeer_def
  by (rule I_lock_sockets)
    (auto simp: Let_def I_log intro!: final_state_catch [where I = I] I_SendToPeer I_assign split: option.split)

lemma I_BroadcastMessage: "I s \<Longrightarrow> I (final_state (BroadcastMessage e msg s))"
proof -
  have "I (fold (\<lambda>peer s. if isConnected peer then SendViaRouter e (peer_id peer) msg s else s) ps t)"
    if "I t" for ps t
    using that by (induction ps arbitrary: t) (auto simp: I_SendViaRouter)
  then show "I s \<Longrightarrow> ?thesis"
    unfolding BroadcastMessage_def
    by (intro I_lock_sockets final_state_bind [where I = I] for_each_final_state [where I = I])
      (auto simp: Let_def I_SendToPeer)
qed

lemma I_DisconnectPeer: "I s \<Longrightarrow> I (final_state (DisconnectPeer e k s))"
  unfolding DisconnectPeer_def
  by (rule I_lock_sockets) (simp_all add: I_connection I_erase split: option.split)

lemma I_GetConnectedPeers: "I s \<Longrightarrow> I (final_state (NetworkManager_GetConnectedPeers e s))"
  unfolding NetworkManager_GetConnectedPeers_def by (rule I_lock_sockets) simp_all

lemma I_route_turn: "I s \<Longrightarrow> I (final_state (route_turn e ev s))"
  unfolding route_turn_def
  by (auto simp: I_log intro!: final_state_catch [where I = I] I_process_frame
      split: router_event.split recv_result.split)

lemma I_poll_dealer: "I s \<Longrightarrow> I (final_state (poll_dealer e readable k s))"
  unfolding poll_dealer_def
  by (auto intro!: I_lock_sockets I_process_frame split: option.split recv_result.split)

lemma I_poll_turn:
  assumes "I s"
  shows "I (final_state (poll_turn e ev s))"
  unfolding poll_turn_def
proof (rule final_state_bind [where I = I])
  show "I (final_state (lock_sockets (\<lambda>s. Returns (map fst (umap_items e (dealerSockets s))) s) s))"
    using assms by (intro I_lock_sockets) simp_all
qed (auto simp: I_log intro!: final_state_catch [where I = I] for_each_final_state [where I = I]
      I_poll_dealer split: poller_event.split)

lemma run_call_keeps: "I s \<Longrightarrow> I (final_state (run_call e c s))"
  by (cases c) (auto simp: SendMessage_def intro!: I_ConnectToPeer I_BroadcastMessage I_Start I_Stop I_DisconnectPeer
      I_SendToPeer I_GetConnectedPeers final_state_bind [where I = I] I_route_turn I_poll_turn)

end

interpretation net_inv: call_invariant net_wf
proof unfold_locales
  show "net_wf (set_mutex b s) = net_wf s" for b and s :: "'a NetImpl"
    by (simp add: net_wf_def)
  show "net_wf (log_error l s) = net_wf s" "net_wf (send_frame r m d s) = net_wf s" for l r m d and s :: "'a NetImpl"
    by (simp_all add: net_wf_def log_error_def send_frame_def)
  show "net_wf s \<Longrightarrow> net_wf (notify_connection e k c s)" for e k c and s :: "'a NetImpl"
    by (auto simp: net_wf_def notify_connection_def connection_handler_ok_def Let_def split: option.split prod.split)
      (metis fst_conv)+
  show "net_wf s \<Longrightarrow> net_wf (notify_message e k msg s)" for e k msg and s :: "'a NetImpl"
    by (auto simp: net_wf_def notify_message_def message_handler_ok_def Let_def split: option.split prod.split)
      (metis fst_conv)+
  show "net_wf s \<Longrightarrow> net_wf (final_state (Stop s))" for s :: "'a NetImpl"
    unfolding Stop_def by (cases "socketsMutex s") (auto simp: net_wf_def set_mutex_def umap.wf_empty)
qed (auto simp: net_wf_def pm_wf_AddPeer umap.wf_assign umap.wf_erase Start_def Let_def split: option.split)

lemma net_reachable_wf: "net_reachable s \<Longrightarrow> net_wf s"
proof (induction rule: net_reachable.induct)
  case (net_init pm u)
  then show ?case by (simp add: net_wf_def NetImpl_new_def umap.wf_empty)
next
  case (net_message_handler s h)
  then show ?case by (simp add: net_wf_def SetMessageHandler_def)
next
  case (net_connection_handler s h)
  then show ?case by (simp add: net_wf_def SetConnectionHandler_def)
next
  case (net_call s e c)
  then show ?case by (simp add: net_inv.run_call_keeps)
qed

subsection \<open>Frames and handshakes\<close>

lemma handshake_fields_payload:
  assumes "length peerId < 2 ^ 16"
  shows "handshake_fields (put_u16 (of_nat (length peerId)) @ string_to_bytes peerId @ key) = Some (peerId, key)"
proof -
  have fits: "length (string_to_bytes peerId) < 2 ^ LENGTH(16)" using assms by simp
  let ?bs = "put_u16 (of_nat (length (string_to_bytes peerId))) @ string_to_bytes peerId @ key"
  have len: "unat (get_u16 (?bs ! 0) (?bs ! 1)) = length peerId"
    using fits unfolding u16_field.decoded_length by simp
  moreover have "2 + length peerId \<le> length ?bs"
    by (simp add: u16_field.length_enc)
  moreover have "take (length peerId) (drop 2 ?bs) = string_to_bytes peerId"
    and "drop (2 + length peerId) ?bs = key"
    by (simp_all add: u16_field.length_enc)
  ultimately show ?thesis
    by (simp del: append_assoc add: handshake_fields_def Let_def)
qed

lemma stoi_faults: "stoi s = Inl f \<Longrightarrow> is_exception f \<and> \<not> is_zmq_error f"
  by (auto simp: stoi_def Let_def split: prod.splits option.splits if_splits)

lemma Deserialize_faults:
  "Deserialize data = Inl f \<Longrightarrow> \<not> is_zmq_error f \<and> (is_exception f \<or> (\<exists>why. f = UndefinedBehaviour why))"
  unfolding Deserialize_cases by (auto split: if_splits)

text \<open>A handler call ends; the only exceptions are those of \<open>std::stoi\<close>, before any effect.\<close>
lemma HandleMessage_ends:
  "(\<exists>t. HandleMessage e k m s = Returns () t \<and> dealerSockets t = dealerSockets s \<and>
      socketsMutex t = socketsMutex s \<and> dealer_frames t = dealer_frames s)
   \<or> (\<exists>f. HandleMessage e k m s = Raises f s \<and> is_exception f \<and> \<not> is_zmq_error f)"
  by (auto simp: HandleMessage_def receive_handshake_def handshake_peer_def Let_def
      dest: stoi_faults split: option.split prod.split sum.splits)

lemma process_frame_ends:
  "(\<exists>t. process_frame e k data s = Returns () t \<and> dealerSockets t = dealerSockets s \<and>
      socketsMutex t = socketsMutex s \<and> dealer_frames t = dealer_frames s)
   \<or> (\<exists>why. Deserialize data = Inl (UndefinedBehaviour why) \<and>
        process_frame e k data s = Raises (UndefinedBehaviour why) s)"
proof (cases "Deserialize data")
  case (Inl f)
  then show ?thesis using Deserialize_faults [OF Inl] by (auto simp: process_frame_def)
next
  case (Inr m)
  then show ?thesis using HandleMessage_ends [of e k m s] by (auto simp: process_frame_def)
qed

subsection \<open>What throws\<close>

lemma no_throw_SendToPeer: "no_throw (SendToPeer e k msg s)"
  unfolding SendToPeer_def lock_sockets_def
  by (rule no_throw_guard) (simp add: Let_def split: option.split send_result.split)

lemma no_throw_calls:
  "no_throw (SendMessage e k msg s)" "no_throw (BroadcastMessage e msg s)" "no_throw (DisconnectPeer e k s)"
  "no_throw (NetworkManager_GetConnectedPeers e s)" "no_throw (Stop s)"
proof -
  show "no_throw (SendMessage e k msg s)" by (simp add: SendMessage_def no_throw_SendToPeer)
  show "no_throw (BroadcastMessage e msg s)"
    unfolding BroadcastMessage_def lock_sockets_def
    by (intro no_throw_guard no_throw_bind no_throw_for_each) (auto simp: no_throw_SendToPeer Let_def)
  show "no_throw (DisconnectPeer e k s)" "no_throw (NetworkManager_GetConnectedPeers e s)"
    unfolding DisconnectPeer_def NetworkManager_GetConnectedPeers_def lock_sockets_def
    by (rule no_throw_guard; simp split: option.split)+
  show "no_throw (Stop s)"
    unfolding Stop_def lock_sockets_def by (auto intro: no_throw_guard)
qed

lemma ConnectToPeer_throws: "ConnectToPeer e a p s = Raises x t \<Longrightarrow> \<exists>w. x = ZmqError w"
  by (auto simp: ConnectToPeer_cases split: if_splits option.splits)

subsection \<open>Waiting for ever\<close>

text \<open>A property that depends on the dealers, the mutex and the dealer frames survives a frame.\<close>
lemma process_frame_keeps:
  "\<not> is_blocked (process_frame e k data s) \<and>
   dealerSockets (final_state (process_frame e k data s)) = dealerSockets s \<and>
   socketsMutex (final_state (process_frame e k data s)) = socketsMutex s \<and>
   dealer_frames (final_state (process_frame e k data s)) = dealer_frames s"
  using process_frame_ends [of e k data s] by auto

lemma route_turn_keeps:
  "\<not> is_blocked (route_turn e ev s) \<and>
   dealerSockets (final_state (route_turn e ev s)) = dealerSockets s \<and>
   socketsMutex (final_state (route_turn e ev s)) = socketsMutex s \<and>
   dealer_frames (final_state (route_turn e ev s)) = dealer_frames s"
proof -
  let ?I = "\<lambda>t. dealerSockets t = dealerSockets s \<and> socketsMutex t = socketsMutex s \<and>
    dealer_frames t = dealer_frames s"
  show ?thesis
    unfolding route_turn_def
    by (cases "routerSocket s")
      (auto intro!: catch_ends [where I = ?I] simp: process_frame_keeps
        split: router_event.split recv_result.split if_splits)
qed

lemma poll_dealer_keeps:
  assumes "\<not> socketsMutex s"
  shows "\<not> is_blocked (poll_dealer e readable k s) \<and> \<not> socketsMutex (final_state (poll_dealer e readable k s))"
proof -
  have "\<not> is_blocked (process_frame e k data t)" for data t
    using process_frame_keeps by blast
  moreover have "\<not> socketsMutex (final_state (map_state (set_mutex False) r))" if "\<not> is_blocked r" for r :: "('x, 'a) net_outcome"
    using that by (cases r) auto
  ultimately show ?thesis
    using assms unfolding poll_dealer_def
    by (auto split: option.split recv_result.split)
qed

lemma relock [simp]: "\<not> socketsMutex s \<Longrightarrow> set_mutex False (set_mutex True s) = s"
  by (simp add: set_mutex_def)

lemma poll_turn_free:
  assumes "\<not> socketsMutex s"
  shows "poll_turn e ev s =
    (if umap_items e (dealerSockets s) = [] then Returns () s
     else catch_outcome is_zmq_error
       (\<lambda>x s. Returns () (if running s then log_error (''Poll error: '' @ what x) s else s))
       (case ev of
          PollerPollFails w \<Rightarrow> Raises (ZmqError w) s
        | DealersReadable readable \<Rightarrow>
            for_each (poll_dealer e readable) (map fst (umap_items e (dealerSockets s))) s))"
  using assms by (simp add: poll_turn_def)

lemma poll_turn_keeps:
  assumes "\<not> socketsMutex s"
  shows "\<not> is_blocked (poll_turn e ev s) \<and> \<not> socketsMutex (final_state (poll_turn e ev s))"
proof -
  let ?I = "\<lambda>s. \<not> socketsMutex s"
  let ?r = "case ev of PollerPollFails w \<Rightarrow> Raises (ZmqError w) s
    | DealersReadable readable \<Rightarrow> for_each (poll_dealer e readable) (map fst (umap_items e (dealerSockets s))) s"
  have "\<not> is_blocked ?r \<and> ?I (final_state ?r)"
  proof (cases ev)
    case (DealersReadable readable)
    then show ?thesis
      using for_each_ends [where I = ?I, OF poll_dealer_keeps assms] by simp
  qed (simp add: assms)
  then show ?thesis
    unfolding poll_turn_free [OF assms]
    using assms catch_ends [where I = ?I and handles = is_zmq_error and r = ?r and
      handler = "\<lambda>x s. Returns () (if running s then log_error (''Poll error: '' @ what x) s else s)"]
    by simp
qed

text \<open>
  Which calls wait for ever when the mutex is free: a connection that was set up, and a broadcast
  with an outgoing connection.
\<close>
lemma blocked_iff:
  assumes "\<not> socketsMutex s" and "permutes_keys e"
  shows "is_blocked (run_call e c s) \<longleftrightarrow>
    (\<exists>addr p. c = CallConnect addr p \<and>
       open_dealer e (peer_id (GetLocalPeer (peerManager s))) (''tcp://'' @ endpoint addr p) = None) \<or>
    (\<exists>msg. c = CallBroadcast msg \<and> dealerSockets s \<noteq> [])"
proof (cases c)
  case (CallConnect addr p)
  then show ?thesis using assms(1) by (simp add: ConnectToPeer_cases split: option.split)
next
  case (CallBroadcast msg)
  then show ?thesis
    using assms by (cases "dealerSockets s = []") (simp_all add: BroadcastMessage_dialled BroadcastMessage_router_only)
next
  case (TurnRouter ev)
  then show ?thesis using route_turn_keeps [of e ev s] by (cases "route_turn e ev s") auto
next
  case (TurnPoller ev)
  then show ?thesis using poll_turn_keeps [OF assms(1), of e ev] by (cases "poll_turn e ev s") auto
next
  case CallGetConnected
  then show ?thesis using assms(1) by (simp add: NetworkManager_GetConnectedPeers_def)
next
  case (CallDisconnect k)
  then show ?thesis using assms(1) by (simp add: DisconnectPeer_def split: option.split)
next
  case (CallSend k msg)
  then show ?thesis using assms(1) by (simp add: SendMessage_def SendToPeer_unlocked)
next
  case (CallStart p)
  then show ?thesis by (simp add: Start_def Let_def split: option.split)
next
  case CallStop
  then show ?thesis using assms(1) by (simp add: Stop_def)
qed

lemma mutex_after:
  assumes "\<not> socketsMutex s" and "permutes_keys e"
  shows "socketsMutex (final_state (run_call e c s)) = is_blocked (run_call e c s)"
proof (cases c)
  case (CallConnect addr p)
  then show ?thesis using assms(1) by (simp add: ConnectToPeer_cases dialled_def split: option.split)
next
  case (CallBroadcast msg)
  then show ?thesis
    using assms by (cases "dealerSockets s = []") (simp_all add: BroadcastMessage_dialled BroadcastMessage_router_only)
next
  case (TurnRouter ev)
  then show ?thesis using assms(1) route_turn_keeps [of e ev s] by (cases "route_turn e ev s") auto
next
  case (TurnPoller ev)
  then show ?thesis using assms(1) poll_turn_keeps [OF assms(1), of e ev] by (cases "poll_turn e ev s") auto
qed (use assms(1) in \<open>simp_all add: NetworkManager_GetConnectedPeers_def DisconnectPeer_def SendMessage_def
      SendToPeer_unlocked Start_def Stop_def Let_def split: option.split send_result.split\<close>)

text \<open>Once held between calls, the mutex is never released.\<close>
lemma held_for_ever:
  assumes "socketsMutex s"
  shows "socketsMutex (final_state (run_call e c s)) \<and>
    dealerSockets (final_state (run_call e c s)) = dealerSockets s \<and>
    dealer_frames (final_state (run_call e c s)) = dealer_frames s"
proof (cases c)
  case (TurnRouter ev)
  then show ?thesis using route_turn_keeps [of e ev s] assms by (cases "route_turn e ev s") auto
next
  case (TurnPoller ev)
  then show ?thesis using assms by (simp add: poll_turn_def)
next
  case (CallStart p)
  then show ?thesis using assms by (simp add: Start_def Let_def dealer_frames_def split: option.split)
next
  case CallStop
  then show ?thesis using assms by (simp add: Stop_def dealer_frames_def)
qed (use assms in \<open>simp_all add: ConnectToPeer_def DisconnectPeer_def SendMessage_def SendToPeer_def
      BroadcastMessage_def NetworkManager_GetConnectedPeers_def\<close>)

lemma quiet_run_call:
  assumes "quiet s"
  shows "quiet (final_state (run_call e c s))"
proof (cases "socketsMutex s")
  case True
  then show ?thesis using held_for_ever [OF True, of e c] assms by (simp add: quiet_def)
next
  case free: False
  then have none: "dealerSockets s = []" and frames: "dealer_frames s = []"
    using assms by (simp_all add: quiet_def)
  then have empty: "umap_items e (dealerSockets s) = []" and lookup: "umap_find k (dealerSockets s) = None" for k
    by (simp_all add: umap.find_empty)
  show ?thesis
  proof (cases c)
    case (TurnRouter ev)
    then show ?thesis using route_turn_keeps [of e ev s] assms by (cases "route_turn e ev s") (auto simp: quiet_def)
  next
    case (TurnPoller ev)
    then show ?thesis using assms free empty by (simp add: poll_turn_free)
  next
    case (CallBroadcast msg)
    then show ?thesis using free none frames by (simp add: quiet_def BroadcastMessage_router_only)
  qed (use free none frames lookup in \<open>simp_all add: quiet_def dealer_frames_def dialled_def set_mutex_def log_error_def
        ConnectToPeer_cases DisconnectPeer_def SendMessage_def SendToPeer_unlocked Start_def Stop_def Let_def
        NetworkManager_GetConnectedPeers_def split: option.split\<close>)
qed

lemma net_reachable_quiet: "net_reachable s \<Longrightarrow> quiet s"
proof (induction rule: net_reachable.induct)
  case (net_init pm u)
  then show ?case by (simp add: quiet_def NetImpl_new_def dealer_frames_def)
next
  case (net_message_handler s h)
  then show ?case by (simp add: quiet_def SetMessageHandler_def dealer_frames_def)
next
  case (net_connection_handler s h)
  then show ?case by (simp add: quiet_def SetConnectionHandler_def dealer_frames_def)
next
  case (net_call s e c)
  then show ?case by (simp add: quiet_run_call)
qed

lemma held_after_calls: "socketsMutex s \<Longrightarrow> socketsMutex (run_calls cs s)"
  unfolding run_calls_def using held_for_ever
  by (induction cs arbitrary: s) (auto split: prod.split)

lemma route_turn_returns:
  assumes "routerSocket s" and "frame_defined ev"
  shows "\<exists>t. route_turn e ev s = Returns () t \<and> routerSocket t \<and> running t = running s"
proof -
  have keeps: "\<exists>t. process_frame e k data s = Returns () t \<and> routerSocket t \<and> running t = running s"
    if "case Deserialize data of Inl f \<Rightarrow> is_exception f | Inr m \<Rightarrow> True" for k data
    using that assms(1)
    by (auto simp: process_frame_def HandleMessage_def receive_handshake_def handshake_peer_def Let_def log_error_def
        dest!: stoi_faults split: sum.splits option.split prod.split)
  show ?thesis
  proof (cases ev)
    case (RouterReadable r1 r2)
    then show ?thesis
    proof (cases r1; cases r2)
      fix identity data
      assume "r1 = Received identity" and "r2 = Received data"
      with keeps [of data "bytes_to_string identity"] RouterReadable assms show ?thesis
        by (auto simp: route_turn_def)
    qed (use RouterReadable assms in \<open>auto simp: route_turn_def log_error_def\<close>)
  qed (use assms in \<open>auto simp: route_turn_def log_error_def\<close>)
qed

section \<open>Properties\<close>

text \<open>A network layer of ZeroMQ calls that all succeed, and a manager in which to run them.\<close>
definition example_znv :: znv where
  "example_znv = \<lparr>clock_now = 42000000, hash_order = rev, indeterminate_port = 999,
     indeterminate_flag = False, can_open_for_writing = (\<lambda>_. True), zmq_socket = (\<lambda>_. None),
     zmq_set = (\<lambda>_ _. None), zmq_bind = (\<lambda>_. None), zmq_connect = (\<lambda>_. None), zmq_send = (\<lambda>_ _ _. Sent)\<rparr>"

definition example_net :: "unit NetImpl" where
  "example_net = NetImpl_new (PeerManager_new example_znv) ()"

lemma example_znv_simps [simp]:
  "permutes_keys example_znv" "open_router example_znv p = None" "open_dealer example_znv i a = None"
  "zmq_send example_znv r b d = Sent" "indeterminate_port example_znv = 999"
  by (simp_all add: example_znv_def permutes_keys_def open_router_def open_dealer_def)

lemma example_net_reachable: "net_reachable example_net"
  unfolding example_net_def by (intro net_init pm_wf_new)

lemma example_net_simps [simp]:
  "\<not> socketsMutex example_net" "dealerSockets example_net = []" "\<not> running example_net"
  "\<not> routerSocket example_net" "\<not> routerThread example_net" "\<not> pollerThread example_net"
  "connectionHandler example_net = None"
  by (simp_all add: example_net_def NetImpl_new_def)

text \<open>
  Connecting never completes. \<open>ConnectToPeer\<close> holds \<open>socketsMutex_\<close> while it calls
  \<open>SendToPeer\<close>, which locks the same mutex: whatever ZeroMQ does, the call does not return, and
  the handshake is not handed to ZeroMQ.
\<close>
theorem connect_never_returns:
  "(\<forall>t. ConnectToPeer e addr p s \<noteq> Returns () t) \<and>
   wire (final_state (ConnectToPeer e addr p s)) = wire s"
  by (simp add: ConnectToPeer_cases dialled_def split: option.split)

text \<open>
  A dial locks everybody out. After a \<open>ConnectToPeer\<close> that ZeroMQ accepts, and whatever calls
  and turns of the two threads follow, every call that needs \<open>socketsMutex_\<close> waits for ever:
  connecting, disconnecting, sending, broadcasting, listing the connections, and stopping while
  the manager runs.
\<close>
theorem dial_locks_out:
  assumes "\<not> socketsMutex s"
    and "open_dealer e (peer_id (GetLocalPeer (peerManager s))) (''tcp://'' @ endpoint addr p) = None"
  shows "let t = run_calls cs (final_state (ConnectToPeer e addr p s)) in
    is_blocked (ConnectToPeer e' addr' p' t) \<and> is_blocked (DisconnectPeer e' k t) \<and>
    is_blocked (SendMessage e' k msg t) \<and> is_blocked (BroadcastMessage e' msg t) \<and>
    is_blocked (NetworkManager_GetConnectedPeers e' t) \<and> is_blocked (Stop t) = running t"
proof -
  have "socketsMutex (run_calls cs (final_state (ConnectToPeer e addr p s)))"
    using assms by (intro held_after_calls) (simp add: ConnectToPeer_cases dialled_def)
  then show ?thesis
    by (simp add: Let_def ConnectToPeer_def DisconnectPeer_def SendMessage_def SendToPeer_def
        BroadcastMessage_def NetworkManager_GetConnectedPeers_def Stop_def)
qed

theorem dial_locks_out_witness:
  "is_blocked (SendMessage example_znv ''10.0.0.1:8080'' (CreatePingMessage example_znv)
     (run_calls [(example_znv, TurnRouter RouterIdle)]
       (final_state (ConnectToPeer example_znv ''10.0.0.1'' 8080 example_net))))"
  using dial_locks_out [of example_net example_znv "''10.0.0.1''" 8080 "[(example_znv, TurnRouter RouterIdle)]"]
  by (simp add: Let_def)

text \<open>
  C3: Which calls deadlock. With the mutex free, a call or a turn of a thread waits for ever
  exactly if it is a \<open>ConnectToPeer\<close> that ZeroMQ accepts or a \<open>BroadcastMessage\<close> while an
  outgoing connection exists; every other call ends and leaves the mutex free.
\<close>
theorem deadlock_exactly:
  assumes "\<not> socketsMutex s" and "permutes_keys e"
  shows "(is_blocked (run_call e c s) \<longleftrightarrow>
     (\<exists>addr p. c = CallConnect addr p \<and>
        open_dealer e (peer_id (GetLocalPeer (peerManager s))) (''tcp://'' @ endpoint addr p) = None) \<or>
     (\<exists>msg. c = CallBroadcast msg \<and> dealerSockets s \<noteq> [])) \<and>
    socketsMutex (final_state (run_call e c s)) = is_blocked (run_call e c s)"
  using blocked_iff [OF assms] mutex_after [OF assms] by simp

theorem deadlock_exactly_witness:
  "is_blocked (run_call example_znv (CallConnect ''10.0.0.1'' 8080) example_net) \<and>
   \<not> is_blocked (run_call example_znv (CallBroadcast (CreatePingMessage example_znv)) example_net)"
  using deadlock_exactly [of example_net example_znv "CallConnect ''10.0.0.1'' 8080"]
    deadlock_exactly [of example_net example_znv "CallBroadcast (CreatePingMessage example_znv)"]
  by simp

text \<open>
  C37: No outgoing connection ever carries a message. In every state the network layer can come
  to, nothing has been handed to a dealer socket; and a direct \<open>SendMessage\<close> or a
  \<open>DisconnectPeer\<close>, for any id, either waits for ever or returns without any effect.
\<close>
theorem direct_messages_never_sent:
  assumes "net_reachable s"
  shows "dealer_frames s = [] \<and>
    SendMessage e k msg s = (if socketsMutex s then Blocks s else Returns () s) \<and>
    DisconnectPeer e k s = (if socketsMutex s then Blocks s else Returns () s)"
proof -
  have "dealer_frames s = []" and "\<not> socketsMutex s \<Longrightarrow> umap_find j (dealerSockets s) = None" for j
    using net_reachable_quiet [OF assms] by (auto simp: quiet_def umap.find_empty)
  then show ?thesis
    by (auto simp: SendMessage_def SendToPeer_locked SendToPeer_unlocked DisconnectPeer_def)
qed

theorem direct_messages_never_sent_witness:
  "SendMessage example_znv ''0123456789abcdef'' (CreateTextMessage example_znv ''hi'') example_net
     = Returns () example_net"
  using direct_messages_never_sent [OF example_net_reachable, of example_znv] by simp

text \<open>
  C15: The network invariant. In every state that calls, handlers and turns of the two threads
  lead to, a running manager has its router socket and both threads, no dealer key is stored
  twice and the peer directory is well-formed; so a turn of the router on a frame that
  \<open>Deserialize\<close> accepts or refuses returns (between calls no null socket is dereferenced).
\<close>
theorem network_invariant:
  assumes "net_reachable s"
  shows "net_wf s \<and> (running s \<and> frame_defined ev \<longrightarrow> (\<exists>t. route_turn e ev s = Returns () t))"
proof -
  have "net_wf s" using assms by (rule net_reachable_wf)
  then show ?thesis using route_turn_returns [of s ev e] by (auto simp: net_wf_def)
qed

theorem network_invariant_witness:
  "\<exists>t. route_turn example_znv (RouterReadable (Received [1]) (Received [2]))
     (final_state (run_call example_znv (CallStart 8080) example_net)) = Returns () t"
  using network_invariant [OF net_call [OF example_net_reachable, of example_znv "CallStart 8080"],
      of "RouterReadable (Received [1]) (Received [2])" example_znv]
  by (simp add: Start_def Let_def Deserialize_def)


text \<open>
  The router loop survives. A running router thread gets through any sequence of turns
  (quiet polls, ZeroMQ errors, frames of any content) whose frames \<open>Deserialize\<close> accepts or
  refuses, and is still running.
\<close>
theorem router_loop_survives:
  assumes "running s" and "routerSocket s" and "\<forall>ev \<in> set evs. frame_defined (snd ev)"
  shows "\<exists>t. RouteMessages evs s = Returns () t \<and> running t \<and> routerSocket t"
  using assms
proof (induction evs arbitrary: s)
  case Nil
  then show ?case by simp
next
  case (Cons ev evs)
  obtain e v where ev: "ev = (e, v)" by fastforce
  with Cons.prems obtain t where "route_turn e v s = Returns () t" "routerSocket t" "running t"
    using route_turn_returns [of s v e] by auto
  with Cons ev show ?case by simp
qed

theorem router_loop_survives_witness:
  "\<exists>t. RouteMessages [(example_znv, RouterReadable (Received [65]) (Received [1, 2, 3])),
       (example_znv, RouterPollFails ''interrupted'')]
     (example_net\<lparr>running := True, routerSocket := True\<rparr>) = Returns () t \<and> running t \<and> routerSocket t"
  by (rule router_loop_survives) (simp_all add: Deserialize_def)

text \<open>
  Broadcast through the router. With no outgoing connection and a router that takes every
  frame, \<open>BroadcastMessage\<close> hands it for each connected peer of the directory, once each and in
  the order of the listing, the peer's id followed by the serialised message, and nothing else.
\<close>
theorem broadcast_reaches_connected:
  assumes "\<not> socketsMutex s" and "dealerSockets s = []" and "routerSocket s"
    and "\<And>b d. zmq_send e RouterSocket b d = Sent"
  shows "\<exists>t. BroadcastMessage e msg s = Returns () t \<and>
    wire t = wire s @ concat (map (\<lambda>p. [Frame RouterSocket True (string_to_bytes (peer_id p)),
                                         Frame RouterSocket False (Serialize msg)])
                          (GetConnectedPeers e (peerManager s)))"
  using wire_router_fold [OF assms(3,4)] BroadcastMessage_router_only [OF assms(1,2)]
  by (simp add: GetConnectedPeers_def GetAllPeers_def)

theorem broadcast_reaches_connected_witness:
  "\<exists>t. BroadcastMessage example_znv (CreatePingMessage example_znv)
      (example_net\<lparr>routerSocket := True, peerManager := AddPeer (example_peer\<lparr>isConnected := True\<rparr>) (PeerManager_new example_znv)\<rparr>)
        = Returns () t \<and> wire t = [] @ concat (map (\<lambda>p. [Frame RouterSocket True (string_to_bytes (peer_id p)),
            Frame RouterSocket False (Serialize (CreatePingMessage example_znv))])
          (GetConnectedPeers example_znv (AddPeer (example_peer\<lparr>isConnected := True\<rparr>) (PeerManager_new example_znv))))"
  using broadcast_reaches_connected [of "example_net\<lparr>routerSocket := True,
      peerManager := AddPeer (example_peer\<lparr>isConnected := True\<rparr>) (PeerManager_new example_znv)\<rparr>"
      example_znv "CreatePingMessage example_znv"]
  by (simp add: example_net_def NetImpl_new_def)

text \<open>
  The handshake format. What \<open>CreateHandshakeMessage\<close> packs, the reader in \<open>HandleMessage\<close>
  unpacks: the id, if shorter than 65536 bytes, and every byte of the key.
\<close>
theorem handshake_round_trip:
  assumes "length peerId < 2 ^ 16"
  shows "handshake_fields (GetPayload (CreateHandshakeMessage e peerId key)) = Some (peerId, key)"
  using handshake_fields_payload [OF assms]
  by (simp add: CreateHandshakeMessage_def Message_make_def GetPayload_def)

theorem handshake_round_trip_witness:
  "handshake_fields (GetPayload (CreateHandshakeMessage example_znv ''alice'' [1, 2])) = Some (''alice'', [1, 2])"
  by (rule handshake_round_trip) simp

text \<open>
  The peer behind an outgoing connection. The key \<open>address:port\<close> of a dealer is split back
  into the address and the port, for every address without a colon; the announced peer is then
  fully initialised.
\<close>
theorem dialled_peer_known:
  assumes "CHR '':'' \<notin> set addr"
  shows "handshake_peer e (endpoint addr p) peerId key =
    Inr \<lparr>peer_id = peerId, address = addr, port = p, publicKey = key, isConnected = True,
         lastSeen = clock_now e\<rparr>"
proof -
  have "stoi (dec_string (unat p)) = Inr (int (unat p))"
    using unat_u16_less [of p] by (intro stoi_dec_string) simp
  moreover have "find_char (CHR '':'') (endpoint addr p) = Some (length addr)"
    using find_char_append [OF assms] by (simp add: endpoint_def)
  ultimately show ?thesis
    by (simp add: handshake_peer_def Let_def endpoint_def PeerInfo_uninitialised_def)
qed

theorem dialled_peer_known_witness:
  "\<exists>peer. handshake_peer example_znv (endpoint ''10.0.0.1'' 8080) ''bob'' [7] = Inr peer \<and> port peer = 8080"
  using dialled_peer_known [of "''10.0.0.1''" example_znv 8080 "''bob''" "[7]"] by simp

text \<open>
  The port of an incoming peer is never assigned. A handshake from a sender id without a
  colon is accepted, and the port that goes into the directory (and from there into the peers
  file) is whatever the uninitialised member held.
\<close>
theorem incoming_port_indeterminate:
  assumes "CHR '':'' \<notin> set senderId" and "handshake_fields payload = Some (peerId, key)"
    and "net_wf s" and "connectionHandler s = None"
  shows "\<exists>t peer. receive_handshake e senderId payload s = Returns () t \<and>
    GetPeer peerId (peerManager t) = Some peer \<and> port peer = indeterminate_port e \<and> address peer = []"
  using assms
  by (auto simp: receive_handshake_def handshake_peer_def find_char_def Let_def notify_connection_def
      PeerInfo_uninitialised_def GetPeer_AddPeer net_wf_def)

theorem incoming_port_indeterminate_witness:
  "\<exists>t peer. receive_handshake example_znv ''ab'' [0, 2, 97, 98] example_net = Returns () t \<and>
    GetPeer ''ab'' (peerManager t) = Some peer \<and> port peer = 999 \<and> address peer = []"
proof -
  have "handshake_fields [0, 2, 97, 98] = Some (''ab'', [])"
    by (simp add: handshake_fields_def get_u16_def Let_def bytes_to_string_def char_of_byte_def char_of_def bit_0)
  then show ?thesis
    using incoming_port_indeterminate [of "''ab''" "[0, 2, 97, 98]" "''ab''" "[]" example_net example_znv]
      net_reachable_wf [OF example_net_reachable] by simp
qed

text \<open>
  Starting and stopping. From a manager that is not running, a start that ZeroMQ accepts
  gives a running manager with socket and threads, a second start changes nothing, and stopping
  gives back the first state but for the remembered port; destroying it stops it once.
\<close>
theorem start_stop:
  assumes "\<not> running s" and "\<not> routerSocket s" and "\<not> routerThread s" and "\<not> pollerThread s"
    and "\<not> socketsMutex s" and "dealerSockets s = []" and "open_router e p = None"
  shows "\<exists>t. Start e p s = Returns () t \<and> running t \<and> routerSocket t \<and> routerThread t \<and> pollerThread t \<and>
    Start e' p' t = Returns () t \<and> Stop t = Returns () (s\<lparr>listenPort := p\<rparr>) \<and>
    NetworkManager_destroy t = Returns () (s\<lparr>listenPort := p\<rparr>)"
  using assms by (simp add: Start_def Stop_def NetworkManager_destroy_def Impl_destroy_def Let_def set_mutex_def)

theorem start_stop_witness:
  "\<exists>t. Start example_znv 8080 example_net = Returns () t \<and> Stop t = Returns () (example_net\<lparr>listenPort := 8080\<rparr>)"
  using start_stop [of example_net example_znv 8080] by auto

end
