(* ===== verification/Display.thy ===== *)
theory Display
  imports PeerManager
begin

text \<open>
  The display side of \<open>Source/CliInterface.cpp\<close>: the queue of closures that print, the display
  thread that runs them, and the \<open>Display\<close> functions that fill the queue.

  A queued \<open>std::function<void()>\<close> is a value of type \<open>display\<close> that holds what the closure
  captured; \<open>render\<close> is the text it prints. The escape codes of the \<open>rang\<close> library and the local
  time are parameters (\<open>terminal\<close>).

  The display thread is a state machine whose program counter \<open>display_pc\<close> marks the points
  where other threads can run in between: it holds \<open>displayMutex\<close> exactly in \<open>TestPredicate\<close>,
  \<open>AboutToWait\<close> and \<open>Drain\<close>. \<open>cli_step\<close> interleaves it with the threads that queue, and with
  \<open>Stop\<close>.
\<close>

section \<open>Data\<close>

datatype out_stream = Cout | StringStream

datatype rang_style = FgMagenta | FgCyan | FgYellow | FgGreen | FgBlue | FgRed | StyleDim | StyleReset

record terminal =
  rang :: "out_stream \<Rightarrow> rang_style \<Rightarrow> string"
  local_time :: "time_point \<Rightarrow> string"

datatype display =
    ShowMessage string string bool
  | ShowSystemMessage string
  | ShowError string
  | ShowSuccess string
  | ShowWarning string
  | ShowPeer string PeerInfo
  | ShowHelp
  | ShowInfo PeerInfo

datatype display_pc =
    NotStarted
  | LoopHead
  | Acquire
  | TestPredicate
  | AboutToWait
  | Waiting
  | Drain
  | Perform display
  | Relock
  | Finished

text \<open>The handlers that \<open>RegisterCommands\<close> stores.\<close>
datatype command =
    Connect | Disconnect | ListPeers | Send | Broadcast | Help | Quit | Info

text \<open>\<open>struct CLIInterface::Impl\<close>; \<open>history\<close> is what was added to the line editor, \<open>cout\<close> what was printed.\<close>
record CLI =
  cli_running :: bool
  commands :: "command umap"
  displayThread :: display_pc
  displayQueue :: "display list"
  history :: "string list"
  cout :: string

section \<open>What is printed\<close>

definition newline :: string where
  "newline = [CHR 0x0A]"

fun render :: "'e env_scheme \<Rightarrow> terminal \<Rightarrow> display \<Rightarrow> string" where
  "render e tm (ShowMessage peerId message incoming) =
     rang tm Cout StyleDim @ ''['' @ local_time tm (clock_now e) @ ''] '' @ rang tm Cout StyleReset
     @ (if incoming
        then rang tm Cout FgCyan @ take 8 peerId @ rang tm Cout StyleReset @ '': ''
             @ rang tm Cout FgYellow @ message @ rang tm Cout StyleReset
        else rang tm Cout FgGreen @ ''You'' @ rang tm Cout StyleReset @ '' -> ''
             @ rang tm Cout FgCyan @ take 8 peerId @ rang tm Cout StyleReset @ '': ''
             @ rang tm Cout FgYellow @ message @ rang tm Cout StyleReset)
     @ newline"
| "render e tm (ShowSystemMessage message) =
     rang tm Cout FgBlue @ ''[SYSTEM] '' @ rang tm Cout StyleReset @ rang tm Cout StyleDim
     @ message @ rang tm Cout StyleReset @ newline"
| "render e tm (ShowError err) =
     rang tm Cout FgRed @ ''[ERROR] '' @ rang tm Cout StyleReset @ rang tm Cout FgRed
     @ rang tm Cout StyleDim @ err @ rang tm Cout StyleReset @ newline"
| "render e tm (ShowSuccess message) =
     rang tm Cout FgGreen @ ''[SUCCESS] '' @ rang tm Cout StyleReset @ rang tm Cout FgGreen
     @ rang tm Cout StyleDim @ message @ rang tm Cout StyleReset @ newline"
| "render e tm (ShowWarning message) =
     rang tm Cout FgYellow @ ''[WARNING] '' @ rang tm Cout StyleReset @ rang tm Cout FgYellow
     @ rang tm Cout StyleDim @ message @ rang tm Cout StyleReset @ newline"
| "render e tm (ShowPeer status peer) =
     ''  '' @ status @ rang tm Cout StyleReset @ '' '' @ peer_id peer @ '' - ''
     @ address peer @ '':'' @ dec_string (unat (port peer)) @ newline"
| "render e tm ShowHelp =
     ''  connect <address> <port> - Connect to a peer'' @ newline
     @ ''  disconnect <peer_id>     - Disconnect from a peer'' @ newline
     @ ''  list                     - List all peers'' @ newline
     @ ''  send <peer_id> <message> - Send message to a peer'' @ newline
     @ ''  broadcast <message>      - Send message to all peers'' @ newline
     @ ''  info                     - Show local peer information'' @ newline
     @ ''  help                     - Show this help'' @ newline
     @ ''  quit/exit                - Exit the program'' @ newline
     @ newline @ ''Note: Any text that is not a command is sent as a broadcast message.'' @ newline"
| "render e tm (ShowInfo local) =
     ''  ID: '' @ peer_id local @ newline
     @ ''  Address: '' @ address local @ '':'' @ dec_string (unat (port local)) @ newline
     @ ''  Public Key Size: '' @ dec_string (length (publicKey local)) @ '' bytes'' @ newline"

section \<open>Queueing\<close>

text \<open>\<open>notify_one\<close> and \<open>notify_all\<close>: there is one waiter, which wakes up to take the mutex again.\<close>
definition notify :: "CLI \<Rightarrow> CLI" where
  "notify c = (if displayThread c = Waiting then c\<lparr>displayThread := Acquire\<rparr> else c)"

definition queueDisplay :: "display \<Rightarrow> CLI \<Rightarrow> CLI" where
  "queueDisplay d c = notify (c\<lparr>displayQueue := displayQueue c @ [d]\<rparr>)"

definition DisplayMessage :: "string \<Rightarrow> string \<Rightarrow> bool \<Rightarrow> CLI \<Rightarrow> CLI" where
  "DisplayMessage peerId message incoming = queueDisplay (ShowMessage peerId message incoming)"

definition DisplaySystemMessage :: "string \<Rightarrow> CLI \<Rightarrow> CLI" where
  "DisplaySystemMessage message = queueDisplay (ShowSystemMessage message)"

definition DisplayError :: "string \<Rightarrow> CLI \<Rightarrow> CLI" where
  "DisplayError err = queueDisplay (ShowError err)"

definition DisplaySuccess :: "string \<Rightarrow> CLI \<Rightarrow> CLI" where
  "DisplaySuccess message = queueDisplay (ShowSuccess message)"

definition DisplayWarning :: "string \<Rightarrow> CLI \<Rightarrow> CLI" where
  "DisplayWarning message = queueDisplay (ShowWarning message)"

section \<open>The display thread\<close>

definition startDisplayThread :: "CLI \<Rightarrow> CLI" where
  "startDisplayThread c = c\<lparr>displayThread := LoopHead\<rparr>"

definition holds_displayMutex :: "CLI \<Rightarrow> bool" where
  "holds_displayMutex c = (displayThread c \<in> {TestPredicate, AboutToWait, Drain})"

text \<open>
  One step of the thread; \<open>None\<close> where it cannot move on its own. Other threads hold the mutex
  only inside \<open>queueDisplay\<close>, so the thread can always take it.
\<close>
definition display_step :: "'e env_scheme \<Rightarrow> terminal \<Rightarrow> CLI \<Rightarrow> CLI option" where
  "display_step e tm c =
     (case displayThread c of
        NotStarted \<Rightarrow> None
      | LoopHead \<Rightarrow> Some (c\<lparr>displayThread := if cli_running c then Acquire else Finished\<rparr>)
      | Acquire \<Rightarrow> Some (c\<lparr>displayThread := TestPredicate\<rparr>)
      | TestPredicate \<Rightarrow>
          Some (c\<lparr>displayThread := if displayQueue c \<noteq> [] \<or> \<not> cli_running c then Drain else AboutToWait\<rparr>)
      | AboutToWait \<Rightarrow> Some (c\<lparr>displayThread := Waiting\<rparr>)
      | Waiting \<Rightarrow> None
      | Drain \<Rightarrow>
          (case displayQueue c of
             [] \<Rightarrow> Some (c\<lparr>displayThread := LoopHead\<rparr>)
           | d # ds \<Rightarrow> Some (c\<lparr>displayThread := Perform d, displayQueue := ds\<rparr>))
      | Perform d \<Rightarrow> Some (c\<lparr>displayThread := Relock, cout := cout c @ render e tm d\<rparr>)
      | Relock \<Rightarrow> Some (c\<lparr>displayThread := Drain\<rparr>)
      | Finished \<Rightarrow> None)"

fun display_steps :: "'e env_scheme \<Rightarrow> terminal \<Rightarrow> nat \<Rightarrow> CLI \<Rightarrow> CLI" where
  "display_steps e tm 0 c = c"
| "display_steps e tm (Suc n) c =
     (case display_step e tm c of None \<Rightarrow> c | Some c' \<Rightarrow> display_steps e tm n c')"

text \<open>\<open>Stop\<close> up to the join: the flag, written without the mutex, and the notification.\<close>
definition stop_flag :: "CLI \<Rightarrow> CLI" where
  "stop_flag c = c\<lparr>cli_running := False\<rparr>"

section \<open>Interleavings\<close>

datatype label = Silent | Queued display | Printed display

text \<open>
  The steps of the program as the display sees them: a step of the display thread, a spurious
  wake-up, a closure queued by any thread while the mutex is free, the two halves of \<open>Stop\<close>, and
  \<open>HandleQuit\<close> clearing the flag.
\<close>
inductive cli_step :: "CLI \<Rightarrow> label \<Rightarrow> CLI \<Rightarrow> bool" where
  thread_prints: "displayThread c = Perform d \<Longrightarrow> display_step (e :: env) tm c = Some c' \<Longrightarrow> cli_step c (Printed d) c'"
| thread_moves: "(\<And>d. displayThread c \<noteq> Perform d) \<Longrightarrow> display_step (e :: env) tm c = Some c' \<Longrightarrow> cli_step c Silent c'"
| spurious: "displayThread c = Waiting \<Longrightarrow> cli_step c Silent (c\<lparr>displayThread := Acquire\<rparr>)"
| queues: "\<not> holds_displayMutex c \<Longrightarrow> cli_step c (Queued d) (queueDisplay d c)"
| stops: "cli_step c Silent (stop_flag c)"
| notifies: "cli_step c Silent (notify c)"

inductive cli_run :: "CLI \<Rightarrow> label list \<Rightarrow> CLI \<Rightarrow> bool" where
  run_nil: "cli_run c [] c"
| run_snoc: "cli_run c ls c' \<Longrightarrow> cli_step c' l c'' \<Longrightarrow> cli_run c (ls @ [l]) c''"

fun queued_in :: "label list \<Rightarrow> display list" where
  "queued_in [] = []"
| "queued_in (Queued d # ls) = d # queued_in ls"
| "queued_in (_ # ls) = queued_in ls"

fun printed_in :: "label list \<Rightarrow> display list" where
  "printed_in [] = []"
| "printed_in (Printed d # ls) = d # printed_in ls"
| "printed_in (_ # ls) = printed_in ls"

text \<open>The closure taken off the queue and not yet run.\<close>
fun in_progress :: "display_pc \<Rightarrow> display list" where
  "in_progress (Perform d) = [d]"
| "in_progress _ = []"

section \<open>Lemmas\<close>

inductive_cases cli_stepE: "cli_step c l c'"

lemma notify_simps [simp]:
  "displayQueue (notify c) = displayQueue c" "cli_running (notify c) = cli_running c"
  "cout (notify c) = cout c" "commands (notify c) = commands c" "history (notify c) = history c"
  "in_progress (displayThread (notify c)) = in_progress (displayThread c)"
  by (auto simp: notify_def)

lemma queueDisplay_simps [simp]:
  "displayQueue (queueDisplay d c) = displayQueue c @ [d]" "cli_running (queueDisplay d c) = cli_running c"
  "cout (queueDisplay d c) = cout c" "commands (queueDisplay d c) = commands c"
  "history (queueDisplay d c) = history c"
  by (simp_all add: queueDisplay_def)

lemma in_progress_queueDisplay [simp]:
  "in_progress (displayThread (queueDisplay d c)) = in_progress (displayThread c)"
  by (simp add: queueDisplay_def notify_def)

lemma queued_in_append [simp]: "queued_in (ls @ ms) = queued_in ls @ queued_in ms"
  by (induction ls rule: queued_in.induct) auto

lemma printed_in_append [simp]: "printed_in (ls @ ms) = printed_in ls @ printed_in ms"
  by (induction ls rule: printed_in.induct) auto

text \<open>A step conserves the closures: what is queued is printed, in progress or still queued, in order.\<close>
lemma cli_step_conserves:
  assumes "cli_step c l c'"
  shows "in_progress (displayThread c) @ displayQueue c @ queued_in [l] =
    printed_in [l] @ in_progress (displayThread c') @ displayQueue c'"
  using assms
proof cases
  case (thread_moves e tm)
  then show ?thesis
    by (cases "displayThread c") (auto simp: display_step_def split: list.splits)
qed (auto simp: display_step_def stop_flag_def)

lemma cli_run_conserves:
  assumes "cli_run c ls c'"
  shows "in_progress (displayThread c) @ displayQueue c @ queued_in ls =
    printed_in ls @ in_progress (displayThread c') @ displayQueue c'"
  using assms
proof induction
  case (run_nil c)
  then show ?case by simp
next
  case (run_snoc c ls c' l c'')
  then show ?case
    using cli_step_conserves [OF run_snoc.hyps(2)] by (metis append.assoc queued_in_append printed_in_append)
qed

text \<open>The thread waits, or is about to, only with an empty queue.\<close>
definition waits_empty :: "CLI \<Rightarrow> bool" where
  "waits_empty c \<longleftrightarrow> (displayThread c \<in> {AboutToWait, Waiting} \<longrightarrow> displayQueue c = [])"

lemma cli_step_waits_empty:
  assumes "cli_step c l c'" and "waits_empty c"
  shows "waits_empty c'"
  using assms(1)
proof cases
  case (thread_prints d e tm)
  then show ?thesis by (auto simp: waits_empty_def display_step_def)
next
  case (thread_moves e tm)
  then show ?thesis using assms(2)
    by (cases "displayThread c") (auto simp: waits_empty_def display_step_def split: list.splits if_splits)
qed (use assms(2) in \<open>auto simp: waits_empty_def stop_flag_def notify_def queueDisplay_def holds_displayMutex_def\<close>)

lemma cli_run_waits_empty: "cli_run c ls c' \<Longrightarrow> waits_empty c \<Longrightarrow> waits_empty c'"
  by (induction rule: cli_run.induct) (auto intro: cli_step_waits_empty)

subsection \<open>Draining\<close>

lemma display_steps_add: "display_steps e tm (m + n) c = display_steps e tm n (display_steps e tm m c)"
proof (induction m arbitrary: c)
  case 0
  then show ?case by simp
next
  case (Suc m)
  have "display_step e tm c = None \<Longrightarrow> display_steps e tm n c = c" by (cases n) auto
  with Suc show ?case by (cases "display_step e tm c") auto
qed

lemma drain_queue:
  assumes "displayThread c = Drain"
  shows "display_steps e tm (3 * length (displayQueue c) + 1) c =
    c\<lparr>displayThread := LoopHead, displayQueue := [],
      cout := cout c @ concat (map (render e tm) (displayQueue c))\<rparr>"
  using assms
proof (induction "displayQueue c" arbitrary: c)
  case Nil
  then show ?case by (simp add: display_step_def)
next
  case (Cons d ds)
  let ?c = "c\<lparr>displayQueue := ds, cout := cout c @ render e tm d\<rparr>"
  have "display_steps e tm 3 c = ?c"
    using Cons.prems Cons.hyps(2) [symmetric] by (simp add: numeral_3_eq_3 display_step_def)
  moreover have "3 * length (displayQueue c) + 1 = 3 + (3 * length ds + 1)"
    using Cons.hyps(2) [symmetric] by simp
  ultimately have "display_steps e tm (3 * length (displayQueue c) + 1) c = display_steps e tm (3 * length ds + 1) ?c"
    by (simp only: display_steps_add)
  moreover have "displayThread ?c = Drain" "ds = displayQueue ?c" using Cons.prems by simp_all
  ultimately show ?case
    using Cons.hyps(1) [of ?c] Cons.hyps(2) [symmetric] Cons.prems by simp
qed

text \<open>The state once everything taken off the queue or still in it has been printed.\<close>
definition all_printed :: "'e env_scheme \<Rightarrow> terminal \<Rightarrow> CLI \<Rightarrow> CLI \<Rightarrow> bool" where
  "all_printed e tm c c' \<longleftrightarrow>
     displayQueue c' = [] \<and> in_progress (displayThread c') = [] \<and>
     cout c' = cout c @ concat (map (render e tm) (in_progress (displayThread c) @ displayQueue c))"

lemma drain_from:
  assumes "display_steps e tm m c = c1" and "displayThread c1 = Drain"
    and "cout c1 @ concat (map (render e tm) (displayQueue c1)) =
      cout c @ concat (map (render e tm) (in_progress (displayThread c) @ displayQueue c))"
  shows "all_printed e tm c (display_steps e tm (m + (3 * length (displayQueue c1) + 1)) c)"
proof -
  have "display_steps e tm (m + (3 * length (displayQueue c1) + 1)) c =
      display_steps e tm (3 * length (displayQueue c1) + 1) c1"
    using assms(1) by (simp only: display_steps_add)
  then show ?thesis
    unfolding drain_queue [OF assms(2)] using assms(3) by (simp add: all_printed_def)
qed

lemma drains:
  assumes "waits_empty c" and "cli_running c" and "displayThread c \<notin> {NotStarted, Finished}"
  shows "\<exists>n. all_printed e tm c (display_steps e tm n c)"
proof (cases "displayQueue c = [] \<and> in_progress (displayThread c) = []")
  case True
  then have "all_printed e tm c (display_steps e tm 0 c)" by (simp add: all_printed_def)
  then show ?thesis by blast
next
  case False
  have "\<exists>m c1. display_steps e tm m c = c1 \<and> displayThread c1 = Drain \<and>
      cout c1 @ concat (map (render e tm) (displayQueue c1)) =
      cout c @ concat (map (render e tm) (in_progress (displayThread c) @ displayQueue c))"
  proof (cases "displayThread c")
    case LoopHead
    then show ?thesis using assms False
      by (intro exI [of _ 3] exI [of _ "c\<lparr>displayThread := Drain\<rparr>"]) (simp add: numeral_3_eq_3 display_step_def)
  next
    case Acquire
    then show ?thesis using assms False
      by (intro exI [of _ 2] exI [of _ "c\<lparr>displayThread := Drain\<rparr>"]) (simp add: numeral_2_eq_2 display_step_def)
  next
    case TestPredicate
    then show ?thesis using assms False
      by (intro exI [of _ 1] exI [of _ "c\<lparr>displayThread := Drain\<rparr>"]) (simp add: display_step_def)
  next
    case (Perform d)
    then show ?thesis
      by (intro exI [of _ 2] exI [of _ "c\<lparr>displayThread := Drain, cout := cout c @ render e tm d\<rparr>"])
        (simp add: numeral_2_eq_2 display_step_def)
  next
    case Relock
    then show ?thesis
      by (intro exI [of _ 1] exI [of _ "c\<lparr>displayThread := Drain\<rparr>"]) (simp add: display_step_def)
  next
    case Drain
    then show ?thesis by (intro exI [of _ 0] exI [of _ c]) simp
  qed (use assms False in \<open>auto simp: waits_empty_def\<close>)
  then show ?thesis using drain_from by blast
qed

lemma finishes_from_drain:
  assumes "displayThread c = Drain" and "\<not> cli_running c"
  shows "\<exists>n. displayThread (display_steps e tm n c) = Finished"
proof -
  have "display_steps e tm (3 * length (displayQueue c) + 1 + 1) c = display_steps e tm 1
      (c\<lparr>displayThread := LoopHead, displayQueue := [], cout := cout c @ concat (map (render e tm) (displayQueue c))\<rparr>)"
    by (subst display_steps_add) (simp only: drain_queue [OF assms(1)])
  then have "displayThread (display_steps e tm (3 * length (displayQueue c) + 1 + 1) c) = Finished"
    using assms(2) by (simp add: display_step_def)
  then show ?thesis by blast
qed

text \<open>With the flag cleared, a thread that neither waits nor is about to comes to its end.\<close>
lemma finishes:
  assumes "\<not> cli_running c" and "displayThread c \<notin> {NotStarted, AboutToWait, Waiting}"
  shows "\<exists>n. displayThread (display_steps e tm n c) = Finished"
proof -
  have to_drain: "\<exists>n. displayThread (display_steps e tm n c) = Finished"
    if "display_steps e tm m c = c1" "displayThread c1 = Drain" "\<not> cli_running c1" for m c1
    using finishes_from_drain [OF that(2,3), of e tm] that(1) by (metis display_steps_add)
  show ?thesis
  proof (cases "displayThread c")
    case LoopHead
    then show ?thesis using assms(1) by (intro exI [of _ 1]) (simp add: display_step_def)
  next
    case Acquire
    then show ?thesis using assms(1)
      by (intro to_drain [of 2 "c\<lparr>displayThread := Drain\<rparr>"]) (simp_all add: numeral_2_eq_2 display_step_def)
  next
    case TestPredicate
    then show ?thesis using assms(1)
      by (intro to_drain [of 1 "c\<lparr>displayThread := Drain\<rparr>"]) (simp_all add: display_step_def)
  next
    case Drain
    then show ?thesis using assms(1) by (intro finishes_from_drain)
  next
    case (Perform d)
    then show ?thesis using assms(1)
      by (intro to_drain [of 2 "c\<lparr>displayThread := Drain, cout := cout c @ render e tm d\<rparr>"])
        (simp_all add: numeral_2_eq_2 display_step_def)
  next
    case Relock
    then show ?thesis using assms(1)
      by (intro to_drain [of 1 "c\<lparr>displayThread := Drain\<rparr>"]) (simp_all add: display_step_def)
  next
    case Finished
    then show ?thesis by (intro exI [of _ 0]) simp
  qed (use assms(2) in simp_all)
qed

lemma stays_waiting: "displayThread c \<in> {AboutToWait, Waiting} \<Longrightarrow> displayThread (display_steps e tm n c) \<in> {AboutToWait, Waiting}"
proof (induction n arbitrary: c)
  case 0
  then show ?case by simp
next
  case (Suc n)
  show ?case
  proof (cases "displayThread c")
    case AboutToWait
    then show ?thesis using Suc.IH [of "c\<lparr>displayThread := Waiting\<rparr>"] by (simp add: display_step_def)
  next
    case Waiting
    then show ?thesis by (simp add: display_step_def)
  qed (use Suc.prems in simp_all)
qed

section \<open>Properties\<close>

definition example_terminal :: terminal where
  "example_terminal = \<lparr>rang = (\<lambda>_ _. []), local_time = (\<lambda>_. ''12:00:00'')\<rparr>"

text \<open>A running interface whose display thread is about to take the mutex.\<close>
definition example_cli :: CLI where
  "example_cli = \<lparr>cli_running = True, commands = [], displayThread = Acquire, displayQueue = [],
     history = [], cout = []\<rparr>"

text \<open>
  C16: The display is first in, first out. Along every interleaving of the display thread, the
  threads that queue, spurious wake-ups and \<open>Stop\<close>, the closures queued so far are exactly those
  printed, then the one in progress, then those in the queue, in this order: nothing is lost,
  duplicated or reordered.
\<close>
theorem display_fifo:
  assumes "cli_run c ls c'" and "displayQueue c = []" and "in_progress (displayThread c) = []"
  shows "queued_in ls = printed_in ls @ in_progress (displayThread c') @ displayQueue c'"
  using cli_run_conserves [OF assms(1)] assms(2,3) by simp

lemma example_run: "cli_run example_cli [Queued ShowHelp] (queueDisplay ShowHelp example_cli)"
  using run_snoc [OF run_nil queues, of example_cli ShowHelp]
  by (simp add: example_cli_def holds_displayMutex_def)

theorem display_fifo_witness:
  "queued_in [Queued ShowHelp] = printed_in [Queued ShowHelp]
     @ in_progress (displayThread (queueDisplay ShowHelp example_cli)) @ displayQueue (queueDisplay ShowHelp example_cli)"
  by (rule display_fifo [OF example_run]) (simp_all add: example_cli_def)

text \<open>
  C17: Everything queued is printed. Along every interleaving that starts with a display thread
  that is not waiting, whenever the flag is still set and the thread exists, the thread left to
  itself prints all that is in progress and in the queue: it never waits on a non-empty queue.
\<close>
theorem display_drains:
  assumes "cli_run c ls c'" and "displayThread c \<notin> {AboutToWait, Waiting}"
    and "cli_running c'" and "displayThread c' \<notin> {NotStarted, Finished}"
  shows "\<exists>n. all_printed e tm c' (display_steps e tm n c')"
  using cli_run_waits_empty [OF assms(1)] assms(2-4) by (intro drains) (auto simp: waits_empty_def)

theorem display_drains_witness:
  "\<exists>n. all_printed example_env example_terminal (queueDisplay ShowHelp example_cli)
     (display_steps example_env example_terminal n (queueDisplay ShowHelp example_cli))"
  by (rule display_drains [OF example_run]) (simp_all add: example_cli_def queueDisplay_def notify_def)

text \<open>
  Stopping can miss the waiting thread. \<open>Stop\<close> clears the flag without the mutex: if the
  thread has just found the predicate false, the notification comes before it waits, and it then
  waits with the flag cleared; on its own it never finishes, so that the join does not return.
\<close>
theorem stop_misses_waiter:
  assumes "displayThread c = LoopHead" and "cli_running c" and "displayQueue c = []"
  shows "\<exists>c'. display_step e tm (notify (stop_flag (display_steps e tm 3 c))) = Some c' \<and>
    \<not> cli_running c' \<and> displayThread c' = Waiting \<and> (\<forall>n. display_steps e tm n c' = c')"
proof -
  have "display_steps e tm 3 c = c\<lparr>displayThread := AboutToWait\<rparr>"
    using assms by (simp add: numeral_3_eq_3 display_step_def)
  moreover have "display_steps e tm n d = d" if "displayThread d = Waiting" for n and d :: CLI
    using that by (cases n) (simp_all add: display_step_def)
  ultimately show ?thesis by (simp add: display_step_def stop_flag_def notify_def)
qed

theorem stop_misses_waiter_witness:
  "\<exists>c'. display_step example_env example_terminal (notify (stop_flag (display_steps example_env example_terminal 3
       (example_cli\<lparr>displayThread := LoopHead\<rparr>)))) = Some c' \<and>
    \<not> cli_running c' \<and> displayThread c' = Waiting \<and> (\<forall>n. display_steps example_env example_terminal n c' = c')"
  by (rule stop_misses_waiter) (simp_all add: example_cli_def)

end
