(* ===== verification/CliInterface.thy ===== *)
theory CliInterface
  imports Network Display
begin

text \<open>
  The command line: \<open>Include/CliInterface.hpp\<close> and the command part of \<open>Source/CliInterface.cpp\<close>.
  The interface works on the network layer, whose user-interface state is the record \<open>CLI\<close> of
  theory \<open>Display\<close>; its two handlers are installed there and run on the network's threads.

  What the line editor returns is the list of inputs of \<open>Run\<close>, each with the environment in which
  its command runs; the editor itself (\<open>replxx\<close>) and the prompt are not modelled.
\<close>

section \<open>Operations\<close>

type_synonym app = "CLI NetImpl"
type_synonym app_outcome = "(unit, CLI) net_outcome"

definition on_ui :: "(CLI \<Rightarrow> CLI) \<Rightarrow> app \<Rightarrow> app" where
  "on_ui f s = s\<lparr>userInterface := f (userInterface s)\<rparr>"

text \<open>\<open>RegisterCommands\<close>: nine names, \<open>quit\<close> and \<open>exit\<close> for the same handler.\<close>
definition RegisterCommands :: "CLI \<Rightarrow> CLI" where
  "RegisterCommands c = c\<lparr>commands :=
     umap_assign ''info'' Info (umap_assign ''exit'' Quit (umap_assign ''quit'' Quit
     (umap_assign ''help'' Help (umap_assign ''broadcast'' Broadcast (umap_assign ''send'' Send
     (umap_assign ''list'' ListPeers (umap_assign ''disconnect'' Disconnect
     (umap_assign ''connect'' Connect (commands c)))))))))\<rparr>"

definition CLIInterface_new :: CLI where
  "CLIInterface_new = RegisterCommands
     \<lparr>cli_running = False, commands = [], displayThread = NotStarted, displayQueue = [], history = [], cout = []\<rparr>"

text \<open>\<open>while (iss >> arg)\<close>.\<close>
function ParseCommand :: "string \<Rightarrow> string list" where
  "ParseCommand input =
     (case extract_word input of None \<Rightarrow> [] | Some (arg, iss) \<Rightarrow> arg # ParseCommand iss)"
  by pat_completeness auto
termination
  by (relation "measure length") (auto dest: extract_word_shorter)

declare ParseCommand.simps [simp del]

text \<open>The loop that joins \<open>args[i]\<close>, \<open>args[i + 1]\<close>, \<dots> with single spaces.\<close>
fun join_words :: "string list \<Rightarrow> string" where
  "join_words [] = []"
| "join_words [w] = w"
| "join_words (w # v # ws) = w @ '' '' @ join_words (v # ws)"

subsection \<open>Command handlers\<close>

definition HandleConnect :: "znv \<Rightarrow> string list \<Rightarrow> app \<Rightarrow> app_outcome" where
  "HandleConnect e args s =
     (if length args < 3 then Returns () (on_ui (DisplayError ''Usage: connect <address> <port>'') s)
      else
        catch_outcome is_exception
          (\<lambda>x s. Returns () (on_ui (DisplayError ''Invalid port number'') s))
          (case stoul 10 (args ! 2) of
             Inl f \<Rightarrow> Raises f s
           | Inr v \<Rightarrow>
               bind_outcome (ConnectToPeer e (args ! 1) (ucast v) s)
                 (\<lambda>_ s. Returns () (on_ui (DisplaySystemMessage
                    (''Connecting to '' @ args ! 1 @ '':'' @ args ! 2 @ ''...'')) s))))"

definition HandleDisconnect :: "znv \<Rightarrow> string list \<Rightarrow> app \<Rightarrow> app_outcome" where
  "HandleDisconnect e args s =
     (if length args < 2 then Returns () (on_ui (DisplayError ''Usage: disconnect <peer_id>'') s)
      else
        bind_outcome (DisconnectPeer e (args ! 1) s)
          (\<lambda>_ s. Returns () (on_ui (DisplaySystemMessage (''Disconnected from '' @ args ! 1)) s)))"

definition peer_status :: "terminal \<Rightarrow> PeerInfo \<Rightarrow> string" where
  "peer_status tm peer =
     (if isConnected peer then rang tm StringStream FgGreen @ ''[ONLINE]''
      else rang tm StringStream FgRed @ ''[OFFLINE]'')"

definition HandleList :: "znv \<Rightarrow> terminal \<Rightarrow> app \<Rightarrow> app" where
  "HandleList e tm s =
     (let ps = GetAllPeers e (peerManager s) in
      if ps = [] then on_ui (DisplaySystemMessage ''No peers connected'') s
      else
        fold (\<lambda>peer. on_ui (queueDisplay (ShowPeer (peer_status tm peer) peer))) ps
          (on_ui (DisplaySystemMessage ''Connected peers:'') s))"

definition HandleSend :: "znv \<Rightarrow> string list \<Rightarrow> app \<Rightarrow> app_outcome" where
  "HandleSend e args s =
     (if length args < 3 then Returns () (on_ui (DisplayError ''Usage: send <peer_id> <message>'') s)
      else
        let message = join_words (drop 2 args) in
        bind_outcome (SendMessage e (args ! 1) (CreateTextMessage e message) s)
          (\<lambda>_ s. Returns () (on_ui (DisplayMessage (args ! 1) message False) s)))"

definition HandleBroadcast :: "znv \<Rightarrow> string list \<Rightarrow> app \<Rightarrow> app_outcome" where
  "HandleBroadcast e args s =
     (if length args < 2 then Returns () (on_ui (DisplayError ''Usage: broadcast <message>'') s)
      else
        let message = join_words (drop 1 args) in
        bind_outcome (BroadcastMessage e (CreateTextMessage e message) s)
          (\<lambda>_ s. Returns () (on_ui (DisplayMessage ''all'' message False) s)))"

definition HandleHelp :: "app \<Rightarrow> app" where
  "HandleHelp s = on_ui (queueDisplay ShowHelp) (on_ui (DisplaySystemMessage ''Available commands:'') s)"

definition HandleQuit :: "app \<Rightarrow> app" where
  "HandleQuit s = on_ui (\<lambda>c. c\<lparr>cli_running := False\<rparr>) (on_ui (DisplaySystemMessage ''Shutting down...'') s)"

definition HandleInfo :: "app \<Rightarrow> app" where
  "HandleInfo s =
     (let local = GetLocalPeer (peerManager s) in
      on_ui (queueDisplay (ShowInfo local)) (on_ui (DisplaySystemMessage ''Local peer information:'') s))"

fun run_command :: "znv \<Rightarrow> terminal \<Rightarrow> command \<Rightarrow> string list \<Rightarrow> app \<Rightarrow> app_outcome" where
  "run_command e tm Connect args s = HandleConnect e args s"
| "run_command e tm Disconnect args s = HandleDisconnect e args s"
| "run_command e tm ListPeers args s = Returns () (HandleList e tm s)"
| "run_command e tm Send args s = HandleSend e args s"
| "run_command e tm Broadcast args s = HandleBroadcast e args s"
| "run_command e tm Help args s = Returns () (HandleHelp s)"
| "run_command e tm Quit args s = Returns () (HandleQuit s)"
| "run_command e tm Info args s = Returns () (HandleInfo s)"

definition ProcessCommand :: "znv \<Rightarrow> terminal \<Rightarrow> string \<Rightarrow> app \<Rightarrow> app_outcome" where
  "ProcessCommand e tm input s =
     (case ParseCommand input of
        [] \<Rightarrow> Returns () s
      | arg0 # rest \<Rightarrow>
          (case umap_find arg0 (commands (userInterface s)) of
             Some h \<Rightarrow> run_command e tm h (arg0 # rest) s
           | None \<Rightarrow>
               bind_outcome (BroadcastMessage e (CreateTextMessage e input) s) (\<lambda>_ s.
               bind_outcome (NetworkManager_GetConnectedPeers e s) (\<lambda>connectedPeers s.
                 Returns () (on_ui
                   (if connectedPeers = [] then DisplayWarning ''No peers connected to receive message''
                    else DisplayMessage ''broadcast'' input False) s)))))"

subsection \<open>Handlers of network events\<close>

definition on_message :: "CLI MessageHandler" where
  "on_message e peerId msg w =
     (case w of (pm, c) \<Rightarrow>
        (pm,
         if GetType msg = TEXT then DisplayMessage peerId (bytes_to_string (GetPayload msg)) True c
         else if GetType msg = HANDSHAKE then
           (case handshake_fields (GetPayload msg) of
              None \<Rightarrow> c
            | Some (announced, key) \<Rightarrow> DisplaySystemMessage (''Handshake received from '' @ announced) c)
         else c))"

definition on_connection :: "CLI ConnectionHandler" where
  "on_connection e peerId connected w =
     (case w of (pm, c) \<Rightarrow>
        (UpdatePeerStatus e peerId connected pm,
         if connected then DisplaySuccess (''Connected to peer: '' @ peerId) c
         else DisplayWarning (''Disconnected from peer: '' @ peerId) c))"

subsection \<open>Run and Stop\<close>

definition run_prologue :: "app \<Rightarrow> app" where
  "run_prologue s =
     SetConnectionHandler (Some on_connection) (SetMessageHandler (Some on_message)
       (on_ui (\<lambda>c. DisplaySystemMessage ''Type 'help' for available commands''
          (DisplaySystemMessage ''P2P Chat System Started''
             (startDisplayThread (c\<lparr>cli_running := True\<rparr>)))) s))"

text \<open>The main loop over what the line editor returns, \<open>None\<close> at the end of the input.\<close>
fun cli_loop :: "terminal \<Rightarrow> (znv \<times> string option) list \<Rightarrow> app \<Rightarrow> app_outcome" where
  "cli_loop tm [] s = Returns () s"
| "cli_loop tm ((e, line) # rest) s =
     (if \<not> cli_running (userInterface s) then Returns () s
      else
        case line of
          None \<Rightarrow> Returns () s
        | Some input \<Rightarrow>
            if input = [] then cli_loop tm rest s
            else
              bind_outcome
                (ProcessCommand e tm input (on_ui (\<lambda>c. c\<lparr>history := history c @ [input]\<rparr>) s))
                (\<lambda>_. cli_loop tm rest))"

definition Run :: "terminal \<Rightarrow> (znv \<times> string option) list \<Rightarrow> app \<Rightarrow> app_outcome" where
  "Run tm inputs s = cli_loop tm inputs (run_prologue s)"

text \<open>
  \<open>CLIInterface::Stop\<close>: the join waits for the display thread, which
  takes up to \<open>n\<close> further steps.
\<close>
definition CLI_Stop :: "'e env_scheme \<Rightarrow> terminal \<Rightarrow> nat \<Rightarrow> CLI \<Rightarrow> (unit, CLI) outcome" where
  "CLI_Stop e tm n c =
     (let c = display_steps e tm n (notify (stop_flag c)) in
      if displayThread c = NotStarted then Returns () c
      else if displayThread c = Finished then Returns () (c\<lparr>displayThread := NotStarted\<rparr>)
      else Blocks c)"

definition CLIInterface_destroy :: "'e env_scheme \<Rightarrow> terminal \<Rightarrow> nat \<Rightarrow> CLI \<Rightarrow> (unit, CLI) outcome" where
  "CLIInterface_destroy e tm n c = CLI_Stop e tm n c"

section \<open>Specification\<close>

text \<open>A word of a command line, and the commands the constructor registers.\<close>
definition is_word :: "string \<Rightarrow> bool" where
  "is_word w \<longleftrightarrow> w \<noteq> [] \<and> (\<forall>c \<in> set w. \<not> is_space c)"

definition commands_registered :: "app \<Rightarrow> bool" where
  "commands_registered s \<longleftrightarrow> commands (userInterface s) = commands CLIInterface_new"

text \<open>The handlers are the interface's own, and the commands are those it registered.\<close>
definition ui_installed :: "app \<Rightarrow> bool" where
  "ui_installed s \<longleftrightarrow> commands_registered s \<and>
     userMessageHandler s \<in> {None, Some on_message} \<and> connectionHandler s \<in> {None, Some on_connection}"

text \<open>The calls on the network layer that a command makes.\<close>
fun command_call :: "net_call \<Rightarrow> bool" where
  "command_call (CallConnect a p) = True"
| "command_call (CallDisconnect k) = True"
| "command_call (CallSend k msg) = True"
| "command_call (CallBroadcast msg) = True"
| "command_call CallGetConnected = True"
| "command_call _ = False"

text \<open>
  The states of the whole program between steps: commands of the user, calls on the network layer
  and turns of its threads, lines entering the history, steps of the display thread, and the two
  halves of \<open>Stop\<close>.
\<close>
inductive app_reachable :: "app \<Rightarrow> bool" where
  app_init: "pm_wf pm \<Longrightarrow> app_reachable (NetImpl_new pm CLIInterface_new)"
| app_run: "app_reachable s \<Longrightarrow> app_reachable (run_prologue s)"
| app_command: "app_reachable s \<Longrightarrow> app_reachable (final_state (ProcessCommand e tm input s))"
| app_network: "app_reachable s \<Longrightarrow> \<not> is_undefined (run_call e c s) \<Longrightarrow> app_reachable (final_state (run_call e c s))"
| app_display: "app_reachable s \<Longrightarrow> display_step (e :: env) tm (userInterface s) = Some c \<Longrightarrow> app_reachable (on_ui (\<lambda>_. c) s)"
| app_wakes: "app_reachable s \<Longrightarrow> displayThread (userInterface s) = Waiting
    \<Longrightarrow> app_reachable (on_ui (\<lambda>c. c\<lparr>displayThread := Acquire\<rparr>) s)"
| app_history: "app_reachable s \<Longrightarrow> app_reachable (on_ui (\<lambda>c. c\<lparr>history := history c @ [input]\<rparr>) s)"
| app_stop: "app_reachable s \<Longrightarrow> app_reachable (on_ui (\<lambda>c. notify (stop_flag c)) s)"
| app_join: "app_reachable s \<Longrightarrow> displayThread (userInterface s) = Finished
    \<Longrightarrow> app_reachable (on_ui (\<lambda>c. c\<lparr>displayThread := NotStarted\<rparr>) s)"

section \<open>Lemmas\<close>

subsection \<open>Parsing\<close>

lemma extract_word_space: "extract_word (CHR '' '' # s) = extract_word s"
  by (simp add: extract_word_def is_space_def)

lemma ParseCommand_space: "ParseCommand (CHR '' '' # s) = ParseCommand s"
  by (simp add: ParseCommand.simps [of "CHR '' '' # s"] ParseCommand.simps [of s] extract_word_space)

lemma extract_word_word:
  assumes "is_word w" and "rest = [] \<or> is_space (hd rest)"
  shows "extract_word (w @ rest) = Some (w, rest)"
proof -
  have "dropWhile is_space (w @ rest) = w @ rest"
    using assms(1) by (cases w) (auto simp: is_word_def)
  moreover have "takeWhile (\<lambda>c. \<not> is_space c) (w @ rest) = w" "dropWhile (\<lambda>c. \<not> is_space c) (w @ rest) = rest"
    using assms by (auto simp: is_word_def takeWhile_append takeWhile_eq_Nil_iff dropWhile_append dropWhile_eq_self_iff)
  ultimately show ?thesis
    using assms(1) by (simp add: extract_word_def Let_def is_word_def)
qed

lemma ParseCommand_word:
  "is_word w \<Longrightarrow> rest = [] \<or> is_space (hd rest) \<Longrightarrow> ParseCommand (w @ rest) = w # ParseCommand rest"
  by (simp add: ParseCommand.simps [of "w @ rest"] extract_word_word)

lemma ParseCommand_Nil [simp]: "ParseCommand [] = []"
  by (simp add: ParseCommand.simps extract_word_def)

lemma ParseCommand_join: "\<forall>w \<in> set ws. is_word w \<Longrightarrow> ParseCommand (join_words ws) = ws"
proof (induction ws rule: join_words.induct)
  case (3 w v ws)
  then show ?case
    using ParseCommand_word [of w "'' '' @ join_words (v # ws)"] by (simp add: is_space_def ParseCommand_space)
next
  case (2 w)
  then show ?case using ParseCommand_word [of w "[]"] by simp
qed simp

subsection \<open>The registered commands\<close>

lemma registered_find:
  assumes "commands_registered s"
  shows "umap_find w (commands (userInterface s)) =
    (if w = ''info'' then Some Info else if w = ''exit'' then Some Quit else if w = ''quit'' then Some Quit
     else if w = ''help'' then Some Help else if w = ''broadcast'' then Some Broadcast
     else if w = ''send'' then Some Send else if w = ''list'' then Some ListPeers
     else if w = ''disconnect'' then Some Disconnect else if w = ''connect'' then Some Connect else None)"
  using assms unfolding commands_registered_def
  by (simp add: CLIInterface_new_def RegisterCommands_def umap.find_assign umap.wf_assign umap.wf_empty umap.find_empty)

lemma on_ui_simps [simp]:
  "wire (on_ui f s) = wire s" "userInterface (on_ui f s) = f (userInterface s)"
  "peerManager (on_ui f s) = peerManager s" "socketsMutex (on_ui f s) = socketsMutex s"
  "dealerSockets (on_ui f s) = dealerSockets s" "running (on_ui f s) = running s"
  "routerSocket (on_ui f s) = routerSocket s" "routerThread (on_ui f s) = routerThread s"
  "pollerThread (on_ui f s) = pollerThread s" "userMessageHandler (on_ui f s) = userMessageHandler s"
  "connectionHandler (on_ui f s) = connectionHandler s"
  by (simp_all add: on_ui_def)

lemma message_handler_ok_on_message [simp]: "message_handler_ok on_message"
  by (simp add: message_handler_ok_def on_message_def)

lemma connection_handler_ok_on_connection [simp]: "connection_handler_ok on_connection"
  by (simp add: connection_handler_ok_def on_connection_def pm_wf_UpdatePeerStatus)

subsection \<open>Invariants of the program\<close>

lemma Display_commands [simp]:
  "commands (DisplayMessage p m b c) = commands c" "commands (DisplaySystemMessage m c) = commands c"
  "commands (DisplayError m c) = commands c" "commands (DisplaySuccess m c) = commands c"
  "commands (DisplayWarning m c) = commands c" "commands (startDisplayThread c) = commands c"
  by (simp_all add: DisplayMessage_def DisplaySystemMessage_def DisplayError_def DisplaySuccess_def
      DisplayWarning_def startDisplayThread_def)

lemma on_message_commands: "on_message e k m (pm, c) = (pm', c') \<Longrightarrow> commands c' = commands c"
  by (auto simp: on_message_def split: option.splits prod.splits if_splits)

lemma on_connection_commands: "on_connection e k b (pm, c) = (pm', c') \<Longrightarrow> commands c' = commands c"
  by (auto simp: on_connection_def)

interpretation ui_inv: call_invariant ui_installed
proof unfold_locales
  show "ui_installed s \<Longrightarrow> ui_installed (notify_connection e k c s)" for e k c s
    by (auto simp: ui_installed_def commands_registered_def notify_connection_def Let_def
        split: option.split prod.split) (metis on_connection_commands)+
  show "ui_installed s \<Longrightarrow> ui_installed (notify_message e k m s)" for e k m s
    by (auto simp: ui_installed_def commands_registered_def notify_message_def Let_def
        split: option.split prod.split) (metis on_message_commands)+
  show "ui_installed s \<Longrightarrow> ui_installed (final_state (Stop s))" for s
    by (cases "socketsMutex s") (simp_all add: ui_installed_def commands_registered_def Stop_def)
qed (simp_all add: ui_installed_def commands_registered_def log_error_def send_frame_def Start_def Let_def split: option.split)

text \<open>What the network calls keep and the display does not touch, a command keeps.\<close>
lemma ProcessCommand_keeps:
  assumes "\<And>e c s. command_call c \<Longrightarrow> I s \<Longrightarrow> I (final_state (run_call e c s))"
    and "\<And>f s. (\<And>c. commands (f c) = commands c) \<Longrightarrow> I s \<Longrightarrow> I (on_ui f s)" and "I s"
  shows "I (final_state (ProcessCommand e tm input s))"
proof -
  note [intro!] = final_state_bind [where I = I] final_state_catch [where I = I] assms(2)
  have calls: "I (final_state (ConnectToPeer e a p t))" "I (final_state (DisconnectPeer e k t))"
    "I (final_state (SendMessage e k msg t))" "I (final_state (BroadcastMessage e msg t))"
    "I (final_state (NetworkManager_GetConnectedPeers e t))" if "I t" for a p k msg t
    using assms(1) [OF _ that, of "CallConnect a p" e] assms(1) [OF _ that, of "CallDisconnect k" e]
      assms(1) [OF _ that, of "CallSend k msg" e] assms(1) [OF _ that, of "CallBroadcast msg" e]
      assms(1) [OF _ that, of CallGetConnected e] by (auto, cases "NetworkManager_GetConnectedPeers e t") auto
  have listing: "I (fold (\<lambda>peer. on_ui (queueDisplay (ShowPeer (peer_status tm peer) peer))) ps t)" if "I t" for ps t
    using that by (induction ps arbitrary: t) (simp_all add: assms(2))
  have "I (final_state (run_command e tm h args s))" for h args
    using assms(3) by (cases h) (auto simp: HandleConnect_def HandleDisconnect_def HandleList_def HandleSend_def
        HandleBroadcast_def HandleHelp_def HandleQuit_def HandleInfo_def Let_def calls
        intro!: listing split: sum.split)
  then show ?thesis
    using assms(3) by (auto simp: ProcessCommand_def calls split: list.split option.split)
qed

lemma on_ui_invariants [simp]:
  "net_wf (on_ui f s) = net_wf s" "quiet (on_ui f s) = quiet s"
  by (simp_all add: net_wf_def quiet_def dealer_frames_def on_ui_def)

lemma ui_installed_on_ui: "(\<And>c. commands (f c) = commands c) \<Longrightarrow> ui_installed s \<Longrightarrow> ui_installed (on_ui f s)"
  by (simp add: ui_installed_def commands_registered_def on_ui_def)

lemma display_step_commands: "display_step e tm c = Some c' \<Longrightarrow> commands c' = commands c"
  by (auto simp: display_step_def split: display_pc.splits list.splits)

lemma app_reachable_invariant: "app_reachable s \<Longrightarrow> net_wf s \<and> quiet s \<and> ui_installed s"
proof (induction rule: app_reachable.induct)
  case (app_init pm)
  then show ?case
    by (simp add: net_wf_def quiet_def ui_installed_def commands_registered_def NetImpl_new_def dealer_frames_def umap.wf_empty)
next
  case (app_run s)
  then show ?case
    by (simp add: run_prologue_def SetMessageHandler_def SetConnectionHandler_def net_wf_def quiet_def dealer_frames_def
        ui_installed_def commands_registered_def)
next
  case (app_command s e tm input)
  then show ?case
    using ProcessCommand_keeps [where I = net_wf and s = s] ProcessCommand_keeps [where I = quiet and s = s]
      ProcessCommand_keeps [where I = ui_installed and s = s]
    by (simp add: net_inv.run_call_keeps quiet_run_call ui_inv.run_call_keeps ui_installed_on_ui)
next
  case (app_network s e c)
  then show ?case by (simp add: net_inv.run_call_keeps quiet_run_call ui_inv.run_call_keeps)
next
  case (app_display s e tm c)
  then show ?case
    using display_step_commands [OF app_display.hyps(2)] by (simp add: ui_installed_def commands_registered_def)
qed (simp_all add: ui_installed_on_ui stop_flag_def)

lemma ParseCommand_first:
  assumes "\<forall>w \<in> set (c # ws). is_word w" and "commands_registered s"
  shows "ProcessCommand e tm (join_words (c # ws)) s =
    (case umap_find c (commands (userInterface s)) of
       Some h \<Rightarrow> run_command e tm h (c # ws) s
     | None \<Rightarrow>
         bind_outcome (BroadcastMessage e (CreateTextMessage e (join_words (c # ws))) s) (\<lambda>_ s.
         bind_outcome (NetworkManager_GetConnectedPeers e s) (\<lambda>connectedPeers s.
           Returns () (on_ui
             (if connectedPeers = [] then DisplayWarning ''No peers connected to receive message''
              else DisplayMessage ''broadcast'' (join_words (c # ws)) False) s))))"
  unfolding ProcessCommand_def ParseCommand_join [OF assms(1)] by simp

lemma is_word_commands [simp]:
  "is_word ''send''" "is_word ''connect''" "is_word ''disconnect''" "is_word ''broadcast''" "is_word ''quit''"
  by (simp_all add: is_word_def is_space_def)

text \<open>Stopping leaves no display thread; stopping again, as the destructor does, returns at once.\<close>
lemma CLI_Stop_joined: "CLI_Stop e tm n c = Returns u c' \<Longrightarrow> displayThread c' = NotStarted"
  by (auto simp: CLI_Stop_def Let_def split: if_splits)

lemma CLI_Stop_again: "displayThread c = NotStarted \<Longrightarrow> CLI_Stop e tm n c = Returns () (stop_flag c)"
  by (cases n) (simp_all add: CLI_Stop_def Let_def notify_def stop_flag_def display_step_def)

lemma ProcessCommand_quit:
  assumes "commands_registered s"
  shows "ProcessCommand e tm ''quit'' s = Returns () (HandleQuit s)"
  using ParseCommand_first [of "''quit''" "[]" s] registered_find [OF assms, of "''quit''"] assms by simp

section \<open>Properties\<close>

definition example_app :: app where
  "example_app = NetImpl_new (PeerManager_new example_znv) CLIInterface_new"

lemma example_app_reachable: "app_reachable example_app"
  unfolding example_app_def by (intro app_init pm_wf_new)

lemma example_app_simps [simp]: "\<not> socketsMutex example_app" "dealerSockets example_app = []" "wire example_app = []"
  by (simp_all add: example_app_def NetImpl_new_def)



text \<open>
  Parsing is the inverse of joining. Any words (non-empty, without white space) joined by
  single spaces are parsed back to the same words.
\<close>
theorem ParseCommand_round_trip:
  assumes "\<forall>w \<in> set ws. is_word w"
  shows "ParseCommand (join_words ws) = ws"
  using assms by (rule ParseCommand_join)

theorem ParseCommand_round_trip_witness: "ParseCommand ''send bob hi'' = [''send'', ''bob'', ''hi'']"
  using ParseCommand_round_trip [of "[''send'', ''bob'', ''hi'']"] by (simp add: is_word_def is_space_def)

text \<open>
  \<open>send\<close> reports a delivery that does not happen. In every reachable state with a free
  mutex, the command \<open>send id words\<close> hands nothing to ZeroMQ, whatever the id, and queues the
  message for display as sent.
\<close>
theorem send_command_only_displays:
  assumes "app_reachable s" and "\<not> socketsMutex s" and "\<forall>w \<in> set (k # v # ws). is_word w"
  shows "ProcessCommand e tm (join_words (''send'' # k # v # ws)) s =
    Returns () (on_ui (DisplayMessage k (join_words (v # ws)) False) s)"
proof -
  have inv: "quiet s" "commands_registered s"
    using app_reachable_invariant [OF assms(1)] by (simp_all add: ui_installed_def)
  then have "umap_find j (dealerSockets s) = None" for j
    using assms(2) by (simp add: quiet_def umap.find_empty)
  then show ?thesis
    using assms(2,3) ParseCommand_first [of "''send''" "k # v # ws" s] inv(2)
    by (simp add: registered_find HandleSend_def Let_def SendMessage_def SendToPeer_unlocked del: join_words.simps)
qed

theorem send_command_only_displays_witness:
  "ProcessCommand example_znv example_terminal ''send bob hi'' example_app =
     Returns () (on_ui (DisplayMessage ''bob'' ''hi'' False) example_app)"
  using send_command_only_displays [OF example_app_reachable, of "''bob''" "''hi''" "[]" example_znv example_terminal]
  by (simp add: is_word_def is_space_def)

lemma is_word_dec_string [simp]: "is_word (dec_string n)"
proof -
  have "\<not> is_space c" if "c \<in> set (dec_string n)" for c
    using set_dec_string [OF that] digit_char_plain(3) by force
  then show ?thesis by (simp add: is_word_def)
qed

lemma ucast_u16_of_nat: "ucast (of_nat n :: i64) = (of_nat n :: u16)"
  by (rule bit_word_eqI) (auto simp: bit_simps)

lemma ProcessCommand_connect:
  assumes "commands_registered s" and "\<not> socketsMutex s" and "is_word addr" and "n < 2 ^ 64"
  shows "ProcessCommand e tm (join_words [''connect'', addr, dec_string n]) s =
    (case open_dealer e (peer_id (GetLocalPeer (peerManager s))) (''tcp://'' @ endpoint addr (of_nat n)) of
       None \<Rightarrow> Blocks (dialled addr (of_nat n) s)
     | Some w \<Rightarrow> Returns () (on_ui (DisplayError ''Invalid port number'')
         (log_error (''Failed to connect to peer '' @ endpoint addr (of_nat n) @ '': '' @ w) s)))"
  using assms ParseCommand_first [of "''connect''" "[addr, dec_string n]" s]
  by (simp add: registered_find HandleConnect_def stoul_dec_string ucast_u16_of_nat ConnectToPeer_cases
      del: join_words.simps split: option.split)

text \<open>
  The \<open>connect\<close> command. With a port written as a number below 2^64, the command dials the
  port modulo 65536; if ZeroMQ accepts, it never comes back; if ZeroMQ refuses, the user is told
  that the port number is invalid.
\<close>
theorem connect_command:
  assumes "commands_registered s" and "\<not> socketsMutex s" and "is_word addr" and "n < 2 ^ 64"
  shows "ProcessCommand e tm (join_words [''connect'', addr, dec_string n]) s =
    (case open_dealer e (peer_id (GetLocalPeer (peerManager s))) (''tcp://'' @ endpoint addr (of_nat n)) of
       None \<Rightarrow> Blocks (dialled addr (of_nat n) s)
     | Some w \<Rightarrow> Returns () (on_ui (DisplayError ''Invalid port number'')
         (log_error (''Failed to connect to peer '' @ endpoint addr (of_nat n) @ '': '' @ w) s)))"
  using assms by (rule ProcessCommand_connect)

theorem connect_command_witness:
  "ProcessCommand example_znv example_terminal (join_words [''connect'', ''localhost'', dec_string 73616]) example_app
     = Blocks (dialled ''localhost'' 8080 example_app)"
proof -
  have "of_nat 73616 = (8080 :: u16)" by simp
  then show ?thesis
    using connect_command [of example_app "''localhost''" 73616 example_znv example_terminal]
      app_reachable_invariant [OF example_app_reachable]
    by (simp add: is_word_def is_space_def ui_installed_def del: of_nat_numeral)
qed


lemma ParseCommand_hello: "ParseCommand ''hello there'' = [''hello'', ''there'']"
  using ParseCommand_join [of "[''hello'', ''there'']"] by (simp add: is_word_def is_space_def)


lemma no_throw_HandleConnect: "no_throw (HandleConnect e args s)"
proof -
  have "is_exception x"
    if "bind_outcome (ConnectToPeer e a p u) (\<lambda>_ s. Returns () (f s)) = Raises x t" for a p u f x t
    using that ConnectToPeer_throws [of e a p u] by (cases "ConnectToPeer e a p u") auto
  then show ?thesis
    unfolding HandleConnect_def
    by (auto intro!: no_throw_catch dest: stoul_faults split: sum.splits)
qed

lemma no_throw_ProcessCommand: "no_throw (ProcessCommand e tm input s)"
proof -
  have "no_throw (run_command e tm h args s)" for h args
    by (cases h) (auto simp: no_throw_HandleConnect HandleDisconnect_def HandleSend_def HandleBroadcast_def Let_def
        no_throw_calls)
  then show ?thesis
    by (auto simp: ProcessCommand_def no_throw_calls split: list.split option.split)
qed

text \<open>
  No input makes the command loop throw. Whatever the lines, the state and the results of
  ZeroMQ, no exception leaves \<open>Run\<close>: it returns, or waits for ever in a call on the network.
\<close>
theorem run_never_throws: "no_throw (Run tm inputs s)"
proof -
  have "no_throw (cli_loop tm inputs u)" for u
    by (induction tm inputs u rule: cli_loop.induct)
      (auto simp: no_throw_ProcessCommand split: option.split)
  then show ?thesis by (simp add: Run_def)
qed

text \<open>
  \<open>quit\<close> ends the loop. After any lines that were processed, a \<open>quit\<close> makes the loop return
  without looking at the lines behind it, with the flag cleared and the farewell queued last.
\<close>
theorem quit_ends_loop:
  assumes "cli_loop tm before s = Returns () t" and "\<forall>line \<in> set before. snd line \<noteq> None"
    and "commands_registered t" and "cli_running (userInterface t)"
  shows "\<exists>u. cli_loop tm (before @ (e, Some ''quit'') # behind) s = Returns () u \<and>
    \<not> cli_running (userInterface u) \<and>
    displayQueue (userInterface u) = displayQueue (userInterface t) @ [ShowSystemMessage ''Shutting down...'']"
  using assms
proof (induction before arbitrary: s)
  case Nil
  let ?t = "on_ui (\<lambda>c. c\<lparr>history := history c @ [''quit'']\<rparr>) t"
  have "ProcessCommand e tm ''quit'' ?t = Returns () (HandleQuit ?t)"
    using Nil by (intro ProcessCommand_quit) (simp add: commands_registered_def)
  then show ?case
    using Nil by (cases behind) (auto simp: HandleQuit_def DisplaySystemMessage_def)
next
  case (Cons line before)
  obtain e' l where line: "line = (e', Some l)" using Cons.prems(2) by (cases line) auto
  have run: "cli_running (userInterface s)"
    using Cons.prems(1,4) line by (auto split: if_splits)
  show ?case
  proof (cases "l = []")
    case True
    then show ?thesis using Cons run line by simp
  next
    case False
    then obtain s' where "ProcessCommand e' tm l (on_ui (\<lambda>c. c\<lparr>history := history c @ [l]\<rparr>) s) = Returns () s'"
      "cli_loop tm before s' = Returns () t"
      using Cons.prems(1) run line by (auto simp: bind_outcome_Returns_iff)
    then show ?thesis using Cons False run line by simp
  qed
qed

theorem quit_ends_loop_witness:
  "\<exists>u. cli_loop example_terminal ([] @ (example_znv, Some ''quit'') # [(example_znv, Some ''ignored'')])
       (run_prologue example_app) = Returns () u \<and> \<not> cli_running (userInterface u) \<and>
     displayQueue (userInterface u) =
       displayQueue (userInterface (run_prologue example_app)) @ [ShowSystemMessage ''Shutting down...'']"
  by (rule quit_ends_loop)
    (simp_all add: commands_registered_def run_prologue_def SetMessageHandler_def SetConnectionHandler_def
      example_app_def NetImpl_new_def startDisplayThread_def DisplaySystemMessage_def)


text \<open>
  The farewell of \<open>quit\<close> may stay unprinted. If the display thread is at the head of its
  loop when \<open>HandleQuit\<close> queues its message and clears the flag, the thread ends with that message
  (and anything queued since) still in the queue.
\<close>
theorem farewell_may_be_lost:
  assumes "displayThread (userInterface s) = LoopHead"
  shows "let c = display_steps e tm n (userInterface (HandleQuit s)) in
    n \<noteq> 0 \<longrightarrow> displayThread c = Finished \<and> ShowSystemMessage ''Shutting down...'' \<in> set (displayQueue c) \<and>
      cout c = cout (userInterface s)"
proof (cases n)
  case (Suc m)
  have "display_steps e tm m d = d" if "displayThread d = Finished" for d :: CLI
    using that by (cases m) (simp_all add: display_step_def)
  with assms Suc show ?thesis
    by (simp add: HandleQuit_def DisplaySystemMessage_def queueDisplay_def notify_def display_step_def)
qed simp

theorem farewell_may_be_lost_witness:
  "let c = display_steps example_env example_terminal 5 (userInterface (HandleQuit (run_prologue example_app))) in
    displayThread c = Finished \<and> ShowSystemMessage ''Shutting down...'' \<in> set (displayQueue c)"
  using farewell_may_be_lost [of "run_prologue example_app" example_env example_terminal 5]
  by (simp add: Let_def run_prologue_def SetMessageHandler_def SetConnectionHandler_def startDisplayThread_def
      DisplaySystemMessage_def queueDisplay_def notify_def)

end
