(* ===== verification/Crypto.thy ===== *)
theory Crypto
  imports Cxx_Run Cxx_Text
begin

text \<open>
  The cryptographic layer: \<open>Include/Crypto.hpp\<close> and \<open>Source/Crypto.cpp\<close>. The code is a sequence of
  OpenSSL calls in which every branch frees what was allocated before it. OpenSSL is not part of
  the sources: the record \<open>openssl\<close> gives the result of each call as an arbitrary function of its
  arguments, over an arbitrary type \<open>'k\<close> of keys. What the program itself decides is kept: the
  order of the calls, the checks of their results, the sizes of the buffers, and the handles it
  allocates and frees, which the record \<open>heap\<close> counts. Using or freeing a handle that is not
  live is undefined behaviour.
\<close>

section \<open>The library interface\<close>

datatype resource = PKEY | PKEY_CTX | MD_CTX | BIO

record heap =
  live :: "(resource \<times> nat) list"
  next_handle :: nat

text \<open>
  The results of OpenSSL: whether the \<open>n\<close>-th allocation of a kind succeeds, and per call \<open>True\<close> or
  \<open>Some\<close> where the return value is positive. The calls that fill a buffer are two: one for the size,
  one that gets the size of the buffer and gives the bytes it writes.
\<close>
record 'k openssl =
  alloc_ok :: "resource \<Rightarrow> nat \<Rightarrow> bool"
  keygen_init_ok :: bool
  set_curve_ok :: bool
  keygen :: "'k option"
  write_PUBKEY :: "'k \<Rightarrow> byte list option"
  write_PrivateKey :: "'k \<Rightarrow> byte list option"
  read_PUBKEY :: "byte list \<Rightarrow> 'k option"
  read_PrivateKey :: "byte list \<Rightarrow> 'k option"
  encrypt_init_ok :: "'k \<Rightarrow> bool"
  encrypt_size :: "'k \<Rightarrow> byte list \<Rightarrow> nat option"
  encrypt_out :: "'k \<Rightarrow> nat \<Rightarrow> byte list \<Rightarrow> byte list option"
  decrypt_init_ok :: "'k \<Rightarrow> bool"
  decrypt_size :: "'k \<Rightarrow> byte list \<Rightarrow> nat option"
  decrypt_out :: "'k \<Rightarrow> nat \<Rightarrow> byte list \<Rightarrow> byte list option"
  sign_init_ok :: "'k \<Rightarrow> bool"
  sign_update_ok :: "'k \<Rightarrow> byte list \<Rightarrow> bool"
  sign_size :: "'k \<Rightarrow> byte list \<Rightarrow> nat option"
  sign_out :: "'k \<Rightarrow> nat \<Rightarrow> byte list \<Rightarrow> byte list option"
  verify_init_ok :: "'k \<Rightarrow> bool"
  verify_update_ok :: "'k \<Rightarrow> byte list \<Rightarrow> bool"
  verify_final :: "'k \<Rightarrow> byte list \<Rightarrow> byte list \<Rightarrow> int"
  derive_init_ok :: "'k \<Rightarrow> bool"
  derive_set_peer_ok :: "'k \<Rightarrow> 'k \<Rightarrow> bool"
  derive_out :: "'k \<Rightarrow> 'k \<Rightarrow> byte list"
  SHA256 :: "byte list \<Rightarrow> byte list"

type_synonym 'a crypto = "heap \<Rightarrow> ('a, heap) outcome"

text \<open>The handle of a new object, \<open>None\<close> for a null pointer.\<close>
definition alloc :: "'k openssl \<Rightarrow> resource \<Rightarrow> nat option crypto" where
  "alloc lib r s =
     (let n = next_handle s; s' = s\<lparr>next_handle := n + 1\<rparr> in
      if alloc_ok lib r n then Returns (Some n) (s'\<lparr>live := (r, n) # live s\<rparr>) else Returns None s')"

definition free :: "resource \<Rightarrow> nat \<Rightarrow> unit crypto" where
  "free r n s =
     (if (r, n) \<in> set (live s) then Returns () (s\<lparr>live := removeAll (r, n) (live s)\<rparr>)
      else Raises (UndefinedBehaviour ''handle freed that is not live'') s)"

text \<open>A call on a live handle.\<close>
definition on_handle :: "resource \<Rightarrow> nat \<Rightarrow> 'a \<Rightarrow> 'a crypto" where
  "on_handle r n v s =
     (if (r, n) \<in> set (live s) then Returns v s
      else Raises (UndefinedBehaviour ''handle used that is not live'') s)"

definition bind_crypto :: "'a crypto \<Rightarrow> ('a \<Rightarrow> 'b crypto) \<Rightarrow> 'b crypto" where
  "bind_crypto m f s = bind_outcome (m s) f"

definition ret :: "'a \<Rightarrow> 'a crypto" where
  "ret a s = Returns a s"

definition free2 :: "resource \<Rightarrow> nat \<Rightarrow> resource \<Rightarrow> nat \<Rightarrow> 'a \<Rightarrow> 'a crypto" where
  "free2 r n q m a = bind_crypto (free r n) (\<lambda>_. bind_crypto (free q m) (\<lambda>_. ret a))"

text \<open>\<open>std::vector<uint8_t> buf(size)\<close> filled by a call, then \<open>buf.resize(outLen)\<close>.\<close>
definition overwrite :: "byte list \<Rightarrow> byte list \<Rightarrow> byte list" where
  "overwrite buf out = take (length buf) out @ drop (length out) buf"

definition resize :: "nat \<Rightarrow> byte list \<Rightarrow> byte list" where
  "resize n buf = take n buf @ replicate (n - length buf) 0"

definition filled :: "nat \<Rightarrow> byte list \<Rightarrow> byte list" where
  "filled n out = resize (length out) (overwrite (replicate n 0) out)"

section \<open>Impl\<close>

text \<open>An \<open>EVP_PKEY*\<close> is its handle with the key behind it.\<close>
type_synonym 'k pkey = "(nat \<times> 'k) option"

definition new_pkey :: "'k openssl \<Rightarrow> 'k option \<Rightarrow> 'k pkey crypto" where
  "new_pkey lib k =
     (case k of
        None \<Rightarrow> ret None
      | Some key \<Rightarrow> bind_crypto (alloc lib PKEY) (\<lambda>h. ret (map_option (\<lambda>n. (n, key)) h)))"

definition GenerateECKeyPair :: "'k openssl \<Rightarrow> 'k pkey crypto" where
  "GenerateECKeyPair lib =
     bind_crypto (alloc lib PKEY_CTX) (\<lambda>h. case h of
       None \<Rightarrow> ret None
     | Some ctx \<Rightarrow>
         bind_crypto (on_handle PKEY_CTX ctx (keygen_init_ok lib)) (\<lambda>ok.
         if \<not> ok then bind_crypto (free PKEY_CTX ctx) (\<lambda>_. ret None)
         else
         bind_crypto (on_handle PKEY_CTX ctx (set_curve_ok lib)) (\<lambda>ok.
         if \<not> ok then bind_crypto (free PKEY_CTX ctx) (\<lambda>_. ret None)
         else
         bind_crypto (on_handle PKEY_CTX ctx (keygen lib)) (\<lambda>k.
         bind_crypto (new_pkey lib k) (\<lambda>p.
         case p of
           None \<Rightarrow> bind_crypto (free PKEY_CTX ctx) (\<lambda>_. ret None)
         | Some pkey \<Rightarrow> bind_crypto (free PKEY_CTX ctx) (\<lambda>_. ret (Some pkey)))))))"

text \<open>\<open>SerializePublicKey\<close> and \<open>SerializePrivateKey\<close>, with the PEM writer they call.\<close>
definition Serialize_key :: "'k openssl \<Rightarrow> ('k \<Rightarrow> byte list option) \<Rightarrow> nat \<times> 'k \<Rightarrow> byte list crypto" where
  "Serialize_key lib writer pkey =
     bind_crypto (alloc lib BIO) (\<lambda>h. case h of
       None \<Rightarrow> ret []
     | Some bio \<Rightarrow>
         bind_crypto (on_handle PKEY (fst pkey) (writer (snd pkey))) (\<lambda>r. case r of
           None \<Rightarrow> bind_crypto (free BIO bio) (\<lambda>_. ret [])
         | Some data \<Rightarrow>
             bind_crypto (on_handle BIO bio data) (\<lambda>res. bind_crypto (free BIO bio) (\<lambda>_. ret res))))"

definition SerializePublicKey :: "'k openssl \<Rightarrow> nat \<times> 'k \<Rightarrow> byte list crypto" where
  "SerializePublicKey lib = Serialize_key lib (write_PUBKEY lib)"

definition SerializePrivateKey :: "'k openssl \<Rightarrow> nat \<times> 'k \<Rightarrow> byte list crypto" where
  "SerializePrivateKey lib = Serialize_key lib (write_PrivateKey lib)"

definition Deserialize_key :: "'k openssl \<Rightarrow> (byte list \<Rightarrow> 'k option) \<Rightarrow> byte list \<Rightarrow> 'k pkey crypto" where
  "Deserialize_key lib reader keyData =
     bind_crypto (alloc lib BIO) (\<lambda>h. case h of
       None \<Rightarrow> ret None
     | Some bio \<Rightarrow>
         bind_crypto (on_handle BIO bio (reader keyData)) (\<lambda>k.
         bind_crypto (new_pkey lib k) (\<lambda>pkey.
         bind_crypto (free BIO bio) (\<lambda>_. ret pkey))))"

definition DeserializePublicKey :: "'k openssl \<Rightarrow> byte list \<Rightarrow> 'k pkey crypto" where
  "DeserializePublicKey lib = Deserialize_key lib (read_PUBKEY lib)"

definition DeserializePrivateKey :: "'k openssl \<Rightarrow> byte list \<Rightarrow> 'k pkey crypto" where
  "DeserializePrivateKey lib = Deserialize_key lib (read_PrivateKey lib)"

section \<open>CryptoManager\<close>

record KeyPair =
  kp_publicKey :: "byte list"
  kp_privateKey :: "byte list"

definition GenerateKeyPair :: "'k openssl \<Rightarrow> KeyPair crypto" where
  "GenerateKeyPair lib =
     bind_crypto (GenerateECKeyPair lib) (\<lambda>p. case p of
       None \<Rightarrow> ret \<lparr>kp_publicKey = [], kp_privateKey = []\<rparr>
     | Some pkey \<Rightarrow>
         bind_crypto (SerializePublicKey lib pkey) (\<lambda>pub.
         bind_crypto (SerializePrivateKey lib pkey) (\<lambda>priv.
         bind_crypto (free PKEY (fst pkey)) (\<lambda>_.
           ret \<lparr>kp_publicKey = pub, kp_privateKey = priv\<rparr>))))"

definition Encrypt :: "'k openssl \<Rightarrow> byte list \<Rightarrow> byte list \<Rightarrow> byte list crypto" where
  "Encrypt lib data recipientPublicKey =
     bind_crypto (DeserializePublicKey lib recipientPublicKey) (\<lambda>p. case p of
       None \<Rightarrow> ret []
     | Some (pubKey, k) \<Rightarrow>
         bind_crypto (alloc lib PKEY_CTX) (\<lambda>h. case h of
           None \<Rightarrow> bind_crypto (free PKEY pubKey) (\<lambda>_. ret [])
         | Some ctx \<Rightarrow>
             bind_crypto (on_handle PKEY_CTX ctx (encrypt_init_ok lib k)) (\<lambda>ok.
             if \<not> ok then free2 PKEY_CTX ctx PKEY pubKey []
             else
             bind_crypto (on_handle PKEY_CTX ctx (encrypt_size lib k data)) (\<lambda>size. case size of
               None \<Rightarrow> free2 PKEY_CTX ctx PKEY pubKey []
             | Some outLen \<Rightarrow>
                 bind_crypto (on_handle PKEY_CTX ctx (encrypt_out lib k outLen data)) (\<lambda>out. case out of
                   None \<Rightarrow> free2 PKEY_CTX ctx PKEY pubKey []
                 | Some written \<Rightarrow> free2 PKEY_CTX ctx PKEY pubKey (filled outLen written))))))"

definition Decrypt :: "'k openssl \<Rightarrow> byte list \<Rightarrow> byte list \<Rightarrow> byte list crypto" where
  "Decrypt lib encryptedData privateKey =
     bind_crypto (DeserializePrivateKey lib privateKey) (\<lambda>p. case p of
       None \<Rightarrow> ret []
     | Some (privKey, k) \<Rightarrow>
         bind_crypto (alloc lib PKEY_CTX) (\<lambda>h. case h of
           None \<Rightarrow> bind_crypto (free PKEY privKey) (\<lambda>_. ret [])
         | Some ctx \<Rightarrow>
             bind_crypto (on_handle PKEY_CTX ctx (decrypt_init_ok lib k)) (\<lambda>ok.
             if \<not> ok then free2 PKEY_CTX ctx PKEY privKey []
             else
             bind_crypto (on_handle PKEY_CTX ctx (decrypt_size lib k encryptedData)) (\<lambda>size. case size of
               None \<Rightarrow> free2 PKEY_CTX ctx PKEY privKey []
             | Some outLen \<Rightarrow>
                 bind_crypto (on_handle PKEY_CTX ctx (decrypt_out lib k outLen encryptedData)) (\<lambda>out. case out of
                   None \<Rightarrow> free2 PKEY_CTX ctx PKEY privKey []
                 | Some written \<Rightarrow> free2 PKEY_CTX ctx PKEY privKey (filled outLen written))))))"

definition Sign :: "'k openssl \<Rightarrow> byte list \<Rightarrow> byte list \<Rightarrow> byte list crypto" where
  "Sign lib data privateKey =
     bind_crypto (DeserializePrivateKey lib privateKey) (\<lambda>p. case p of
       None \<Rightarrow> ret []
     | Some (privKey, k) \<Rightarrow>
         bind_crypto (alloc lib MD_CTX) (\<lambda>h. case h of
           None \<Rightarrow> bind_crypto (free PKEY privKey) (\<lambda>_. ret [])
         | Some mdctx \<Rightarrow>
             bind_crypto (on_handle MD_CTX mdctx (sign_init_ok lib k)) (\<lambda>ok.
             if \<not> ok then free2 MD_CTX mdctx PKEY privKey []
             else
             bind_crypto (on_handle MD_CTX mdctx (sign_update_ok lib k data)) (\<lambda>ok.
             if \<not> ok then free2 MD_CTX mdctx PKEY privKey []
             else
             bind_crypto (on_handle MD_CTX mdctx (sign_size lib k data)) (\<lambda>size. case size of
               None \<Rightarrow> free2 MD_CTX mdctx PKEY privKey []
             | Some sigLen \<Rightarrow>
                 bind_crypto (on_handle MD_CTX mdctx (sign_out lib k sigLen data)) (\<lambda>out. case out of
                   None \<Rightarrow> free2 MD_CTX mdctx PKEY privKey []
                 | Some written \<Rightarrow> free2 MD_CTX mdctx PKEY privKey (filled sigLen written)))))))"

definition Verify :: "'k openssl \<Rightarrow> byte list \<Rightarrow> byte list \<Rightarrow> byte list \<Rightarrow> bool crypto" where
  "Verify lib data signature publicKey =
     bind_crypto (DeserializePublicKey lib publicKey) (\<lambda>p. case p of
       None \<Rightarrow> ret False
     | Some (pubKey, k) \<Rightarrow>
         bind_crypto (alloc lib MD_CTX) (\<lambda>h. case h of
           None \<Rightarrow> bind_crypto (free PKEY pubKey) (\<lambda>_. ret False)
         | Some mdctx \<Rightarrow>
             bind_crypto (on_handle MD_CTX mdctx (verify_init_ok lib k)) (\<lambda>ok.
             if \<not> ok then free2 MD_CTX mdctx PKEY pubKey False
             else
             bind_crypto (on_handle MD_CTX mdctx (verify_update_ok lib k data)) (\<lambda>ok.
             if \<not> ok then free2 MD_CTX mdctx PKEY pubKey False
             else
             bind_crypto (on_handle MD_CTX mdctx (verify_final lib k data signature)) (\<lambda>res.
               free2 MD_CTX mdctx PKEY pubKey (res = 1))))))"

definition GeneratePeerId :: "'k openssl \<Rightarrow> byte list \<Rightarrow> string" where
  "GeneratePeerId lib publicKey =
     (let hash = SHA256 lib publicKey in concat (map (\<lambda>i. hex_byte (hash ! i)) [0..<8]))"

text \<open>The return value of \<open>EVP_PKEY_derive\<close> is ignored; \<open>derive_out\<close> is what it wrote, if anything.\<close>
definition DeriveSharedSecret :: "'k openssl \<Rightarrow> byte list \<Rightarrow> byte list \<Rightarrow> byte list crypto" where
  "DeriveSharedSecret lib privateKey publicKey =
     (let sharedSecret = replicate 32 0 in
      bind_crypto (DeserializePrivateKey lib privateKey) (\<lambda>privKey.
      bind_crypto (DeserializePublicKey lib publicKey) (\<lambda>pubKey.
      case (privKey, pubKey) of
        (Some (priv, k), Some (pub, k')) \<Rightarrow>
          bind_crypto (alloc lib PKEY_CTX) (\<lambda>h. case h of
            None \<Rightarrow> free2 PKEY priv PKEY pub sharedSecret
          | Some ctx \<Rightarrow>
              bind_crypto (on_handle PKEY_CTX ctx (derive_init_ok lib k)) (\<lambda>ok.
              if \<not> ok then bind_crypto (free PKEY_CTX ctx) (\<lambda>_. free2 PKEY priv PKEY pub sharedSecret)
              else
              bind_crypto (on_handle PKEY pub (derive_set_peer_ok lib k k')) (\<lambda>ok.
              if \<not> ok then bind_crypto (free PKEY_CTX ctx) (\<lambda>_. free2 PKEY priv PKEY pub sharedSecret)
              else
              bind_crypto (on_handle PKEY_CTX ctx (derive_out lib k k')) (\<lambda>written.
                bind_crypto (free PKEY_CTX ctx) (\<lambda>_.
                  free2 PKEY priv PKEY pub (overwrite sharedSecret written)))))
          )
      | (Some (priv, k), None) \<Rightarrow> bind_crypto (free PKEY priv) (\<lambda>_. ret sharedSecret)
      | (None, Some (pub, k')) \<Rightarrow> bind_crypto (free PKEY pub) (\<lambda>_. ret sharedSecret)
      | (None, None) \<Rightarrow> ret sharedSecret)))"

text \<open>The calls on \<open>CryptoManager\<close>; their results are dropped here.\<close>
datatype crypto_call =
    CallGenerateKeyPair
  | CallEncrypt "byte list" "byte list"
  | CallDecrypt "byte list" "byte list"
  | CallSign "byte list" "byte list"
  | CallVerify "byte list" "byte list" "byte list"
  | CallGeneratePeerId "byte list"
  | CallDeriveSharedSecret "byte list" "byte list"

fun run_crypto_call :: "'k openssl \<Rightarrow> crypto_call \<Rightarrow> unit crypto" where
  "run_crypto_call lib CallGenerateKeyPair = bind_crypto (GenerateKeyPair lib) (\<lambda>_. ret ())"
| "run_crypto_call lib (CallEncrypt data recipient) = bind_crypto (Encrypt lib data recipient) (\<lambda>_. ret ())"
| "run_crypto_call lib (CallDecrypt data priv) = bind_crypto (Decrypt lib data priv) (\<lambda>_. ret ())"
| "run_crypto_call lib (CallSign data priv) = bind_crypto (Sign lib data priv) (\<lambda>_. ret ())"
| "run_crypto_call lib (CallVerify data sig pub) = bind_crypto (Verify lib data sig pub) (\<lambda>_. ret ())"
| "run_crypto_call lib (CallGeneratePeerId pub) = bind_crypto (ret (GeneratePeerId lib pub)) (\<lambda>_. ret ())"
| "run_crypto_call lib (CallDeriveSharedSecret priv pub) = bind_crypto (DeriveSharedSecret lib priv pub) (\<lambda>_. ret ())"

section \<open>Specification\<close>

text \<open>Handles are numbered in the order of allocation; every live one is older than the next.\<close>
definition heap_wf :: "heap \<Rightarrow> bool" where
  "heap_wf s \<longleftrightarrow> (\<forall>(r, n) \<in> set (live s). n < next_handle s)"

definition memory_ok :: "'k openssl \<Rightarrow> bool" where
  "memory_ok lib \<longleftrightarrow> (\<forall>r n. alloc_ok lib r n)"

text \<open>What the operations compute, as functions of the library alone.\<close>
definition transform_spec ::
    "('k \<Rightarrow> bool) \<Rightarrow> ('k \<Rightarrow> byte list \<Rightarrow> nat option) \<Rightarrow> ('k \<Rightarrow> nat \<Rightarrow> byte list \<Rightarrow> byte list option)
      \<Rightarrow> 'k option \<Rightarrow> byte list \<Rightarrow> byte list" where
  "transform_spec ready needed run key data =
     (case key of None \<Rightarrow> [] | Some k \<Rightarrow>
      if \<not> ready k then []
      else case needed k data of None \<Rightarrow> [] | Some n \<Rightarrow>
           case run k n data of None \<Rightarrow> [] | Some written \<Rightarrow> filled n written)"

definition Encrypt_spec :: "'k openssl \<Rightarrow> byte list \<Rightarrow> byte list \<Rightarrow> byte list" where
  "Encrypt_spec lib data pub =
     transform_spec (encrypt_init_ok lib) (encrypt_size lib) (encrypt_out lib) (read_PUBKEY lib pub) data"

definition Decrypt_spec :: "'k openssl \<Rightarrow> byte list \<Rightarrow> byte list \<Rightarrow> byte list" where
  "Decrypt_spec lib data priv =
     transform_spec (decrypt_init_ok lib) (decrypt_size lib) (decrypt_out lib) (read_PrivateKey lib priv) data"

definition Sign_spec :: "'k openssl \<Rightarrow> byte list \<Rightarrow> byte list \<Rightarrow> byte list" where
  "Sign_spec lib data priv =
     transform_spec (\<lambda>k. sign_init_ok lib k \<and> sign_update_ok lib k data) (sign_size lib) (sign_out lib)
       (read_PrivateKey lib priv) data"

definition Verify_spec :: "'k openssl \<Rightarrow> byte list \<Rightarrow> byte list \<Rightarrow> byte list \<Rightarrow> bool" where
  "Verify_spec lib data signature pub =
     (case read_PUBKEY lib pub of None \<Rightarrow> False | Some k \<Rightarrow>
        verify_init_ok lib k \<and> verify_update_ok lib k data \<and> verify_final lib k data signature = 1)"

definition DeriveSharedSecret_spec :: "'k openssl \<Rightarrow> byte list \<Rightarrow> byte list \<Rightarrow> byte list" where
  "DeriveSharedSecret_spec lib priv pub =
     (case (read_PrivateKey lib priv, read_PUBKEY lib pub) of
        (Some k, Some k') \<Rightarrow>
          if derive_init_ok lib k \<and> derive_set_peer_ok lib k k'
          then overwrite (replicate 32 0) (derive_out lib k k') else replicate 32 0
      | _ \<Rightarrow> replicate 32 0)"

definition GenerateKeyPair_spec :: "'k openssl \<Rightarrow> KeyPair" where
  "GenerateKeyPair_spec lib =
     (case (if keygen_init_ok lib \<and> set_curve_ok lib then keygen lib else None) of
        None \<Rightarrow> \<lparr>kp_publicKey = [], kp_privateKey = []\<rparr>
      | Some k \<Rightarrow> \<lparr>kp_publicKey = (case write_PUBKEY lib k of None \<Rightarrow> [] | Some bs \<Rightarrow> bs),
                   kp_privateKey = (case write_PrivateKey lib k of None \<Rightarrow> [] | Some bs \<Rightarrow> bs)\<rparr>)"

section \<open>Lemmas\<close>

text \<open>
  The weakest precondition of a computation: it returns, and the value and the heap satisfy the
  postcondition. Its equations run a computation by simplification.
\<close>
definition wp :: "'a crypto \<Rightarrow> ('a \<Rightarrow> heap \<Rightarrow> bool) \<Rightarrow> heap \<Rightarrow> bool" where
  "wp m Q s = (case m s of Returns a t \<Rightarrow> Q a t | _ \<Rightarrow> False)"

named_theorems wp_simps
named_theorems wp_elims

lemma wp_bind [wp_simps]: "wp (bind_crypto m f) Q = wp m (\<lambda>a. wp (f a) Q)"
proof
  show "wp (bind_crypto m f) Q s = wp m (\<lambda>a. wp (f a) Q) s" for s
    by (cases "m s") (simp_all add: wp_def bind_crypto_def)
qed

lemma wp_ret [wp_simps]: "wp (ret a) Q = Q a"
  by (simp add: wp_def ret_def fun_eq_iff)

lemma wp_alloc:
  "wp (alloc lib r) Q s =
     (if alloc_ok lib r (next_handle s)
      then Q (Some (next_handle s)) (s\<lparr>next_handle := next_handle s + 1, live := (r, next_handle s) # live s\<rparr>)
      else Q None (s\<lparr>next_handle := next_handle s + 1\<rparr>))"
  by (simp add: wp_def alloc_def Let_def)

lemma wp_free:
  "wp (free r n) Q s = ((r, n) \<in> set (live s) \<and> Q () (s\<lparr>live := removeAll (r, n) (live s)\<rparr>))"
  by (simp add: wp_def free_def)

lemma wp_on_handle: "wp (on_handle r n v) Q s = ((r, n) \<in> set (live s) \<and> Q v s)"
  by (simp add: wp_def on_handle_def)

lemma wp_free2 [wp_simps]: "wp (free2 r n q m a) Q = wp (free r n) (\<lambda>_. wp (free q m) (\<lambda>_. Q a))"
  by (simp add: free2_def wp_simps)

lemma wp_case_option [wp_simps]:
  "wp (case x of None \<Rightarrow> f | Some y \<Rightarrow> g y) Q s = (case x of None \<Rightarrow> wp f Q s | Some y \<Rightarrow> wp (g y) Q s)"
  by (cases x) simp_all

lemma wp_if [wp_simps]: "wp (if b then f else g) Q s = (if b then wp f Q s else wp g Q s)"
  by simp

lemma wp_mono: "wp m P s \<Longrightarrow> (\<And>a t. P a t \<Longrightarrow> Q a t) \<Longrightarrow> wp m Q s"
  by (auto simp: wp_def split: outcome.splits)

text \<open>A heap with given live handles, and with a new one on top of them.\<close>
definition heap_is :: "(resource \<times> nat) list \<Rightarrow> heap \<Rightarrow> bool" where
  "heap_is L s \<longleftrightarrow> heap_wf s \<and> live s = L"

definition fresh_in :: "nat \<Rightarrow> (resource \<times> nat) list \<Rightarrow> bool" where
  "fresh_in n L \<longleftrightarrow> (\<forall>q. (q, n) \<notin> set L)"

lemma fresh_in_Cons [simp]: "fresh_in n ((r, m) # L) \<longleftrightarrow> n \<noteq> m \<and> fresh_in n L"
  by (auto simp: fresh_in_def)

lemma fresh_in_removeAll [simp]: "fresh_in n L \<Longrightarrow> removeAll (q, n) L = L"
  by (simp add: fresh_in_def removeAll_id)

lemma heap_wf_iff: "heap_wf s \<longleftrightarrow> (\<forall>r n. (r, n) \<in> set (live s) \<longrightarrow> n < next_handle s)"
  by (auto simp: heap_wf_def)

lemma wp_new_pkey:
  "wp (new_pkey lib k) Q s =
     (case k of None \<Rightarrow> Q None s | Some key \<Rightarrow> wp (alloc lib PKEY) (\<lambda>h. Q (map_option (\<lambda>n. (n, key)) h)) s)"
  by (cases k) (simp_all add: new_pkey_def wp_simps)

lemma wp_alloc_is [wp_elims]:
  assumes "heap_is L s"
    and "\<And>t. heap_is L t \<Longrightarrow> \<not> memory_ok lib \<Longrightarrow> Q None t"
    and "\<And>n t. heap_is ((r, n) # L) t \<Longrightarrow> fresh_in n L \<Longrightarrow> Q (Some n) t"
  shows "wp (alloc lib r) Q s"
proof -
  have "heap_is L (s\<lparr>next_handle := next_handle s + 1\<rparr>)"
    and "heap_is ((r, next_handle s) # L) (s\<lparr>next_handle := next_handle s + 1, live := (r, next_handle s) # live s\<rparr>)"
    using assms(1) by (auto simp: heap_is_def heap_wf_iff less_Suc_eq)
  moreover have "fresh_in (next_handle s) L" using assms(1) by (auto simp: heap_is_def heap_wf_iff fresh_in_def)
  ultimately show ?thesis using assms(2,3) by (auto simp: wp_alloc memory_ok_def)
qed

lemma wp_free_is [wp_elims]:
  assumes "heap_is L s" and "(r, n) \<in> set L" and "\<And>t. heap_is (removeAll (r, n) L) t \<Longrightarrow> Q () t"
  shows "wp (free r n) Q s"
proof -
  have "heap_is (removeAll (r, n) L) (s\<lparr>live := removeAll (r, n) (live s)\<rparr>)"
    using assms(1) by (auto simp: heap_is_def heap_wf_iff)
  then show ?thesis using assms by (auto simp: wp_free heap_is_def)
qed

lemma wp_on_handle_is [wp_elims]:
  assumes "heap_is L s" and "(r, n) \<in> set L" and "heap_is L s \<Longrightarrow> Q v s"
  shows "wp (on_handle r n v) Q s"
  using assms by (auto simp: wp_on_handle heap_is_def)

lemma wp_new_pkey_is [wp_elims]:
  assumes "heap_is L s"
    and "\<And>t. heap_is L t \<Longrightarrow> (memory_ok lib \<Longrightarrow> k = None) \<Longrightarrow> Q None t"
    and "\<And>n key t. heap_is ((PKEY, n) # L) t \<Longrightarrow> fresh_in n L \<Longrightarrow> k = Some key \<Longrightarrow> Q (Some (n, key)) t"
  shows "wp (new_pkey lib k) Q s"
  using assms by (cases k) (auto simp: wp_new_pkey elim!: wp_alloc_is)

lemma wp_Deserialize_key [wp_elims]:
  assumes "heap_is L s"
    and "\<And>t. heap_is L t \<Longrightarrow> (memory_ok lib \<Longrightarrow> reader d = None) \<Longrightarrow> Q None t"
    and "\<And>n k t. heap_is ((PKEY, n) # L) t \<Longrightarrow> fresh_in n L \<Longrightarrow> reader d = Some k \<Longrightarrow> Q (Some (n, k)) t"
  shows "wp (Deserialize_key lib reader d) Q s"
  using assms(1) unfolding Deserialize_key_def
  by (auto simp: wp_simps intro!: assms(2,3) elim!: wp_alloc_is wp_free_is wp_on_handle_is wp_new_pkey_is)

lemma wp_Serialize_key [wp_elims]:
  assumes "heap_is L s" and "(PKEY, n) \<in> set L"
    and "\<And>a t. heap_is L t \<Longrightarrow> (memory_ok lib \<Longrightarrow> a = (case writer k of None \<Rightarrow> [] | Some bs \<Rightarrow> bs)) \<Longrightarrow> Q a t"
  shows "wp (Serialize_key lib writer (n, k)) Q s"
  using assms(1,2) unfolding Serialize_key_def
  by (auto simp: wp_simps intro!: assms(3) elim!: wp_alloc_is wp_free_is wp_on_handle_is split: option.split)

text \<open>The end of every operation: what it allocated is freed and the result is the specified one.\<close>
definition balanced :: "'k openssl \<Rightarrow> (resource \<times> nat) list \<Rightarrow> 'a \<Rightarrow> 'a \<Rightarrow> heap \<Rightarrow> bool" where
  "balanced lib L expected a t \<longleftrightarrow> heap_is L t \<and> (memory_ok lib \<longrightarrow> a = expected)"

lemma wp_Encrypt: "heap_is L s \<Longrightarrow> wp (Encrypt lib data pub) (balanced lib L (Encrypt_spec lib data pub)) s"
  by (auto simp: Encrypt_def DeserializePublicKey_def wp_simps balanced_def Encrypt_spec_def transform_spec_def
      elim!: wp_elims split: option.split)

lemma wp_Decrypt: "heap_is L s \<Longrightarrow> wp (Decrypt lib data priv) (balanced lib L (Decrypt_spec lib data priv)) s"
  by (auto simp: Decrypt_def DeserializePrivateKey_def wp_simps balanced_def Decrypt_spec_def transform_spec_def
      elim!: wp_elims split: option.split)

lemma wp_Sign: "heap_is L s \<Longrightarrow> wp (Sign lib data priv) (balanced lib L (Sign_spec lib data priv)) s"
  by (auto simp: Sign_def DeserializePrivateKey_def wp_simps balanced_def Sign_spec_def transform_spec_def
      elim!: wp_elims split: option.split)

lemma wp_Verify: "heap_is L s \<Longrightarrow> wp (Verify lib data sig pub) (balanced lib L (Verify_spec lib data sig pub)) s"
  by (auto simp: Verify_def DeserializePublicKey_def wp_simps balanced_def Verify_spec_def
      elim!: wp_elims split: option.split)

lemma wp_GenerateKeyPair: "heap_is L s \<Longrightarrow> wp (GenerateKeyPair lib) (balanced lib L (GenerateKeyPair_spec lib)) s"
  by (auto simp: GenerateKeyPair_def GenerateECKeyPair_def SerializePublicKey_def SerializePrivateKey_def wp_simps
      balanced_def GenerateKeyPair_spec_def elim!: wp_elims split: option.split)

lemma wp_DeriveSharedSecret:
  "heap_is L s \<Longrightarrow> wp (DeriveSharedSecret lib priv pub) (balanced lib L (DeriveSharedSecret_spec lib priv pub)) s"
  by (auto simp: DeriveSharedSecret_def DeserializePrivateKey_def DeserializePublicKey_def Let_def wp_simps
      balanced_def DeriveSharedSecret_spec_def elim!: wp_elims split: option.split)

lemma wpD:
  assumes "wp m (balanced lib (live s) v) s"
  shows "\<exists>a t. m s = Returns a t \<and> live t = live s \<and> heap_wf t \<and> (memory_ok lib \<longrightarrow> a = v)"
  using assms by (cases "m s") (auto simp: wp_def balanced_def heap_is_def)

lemma heap_is_live: "heap_wf s \<Longrightarrow> heap_is (live s) s"
  by (simp add: heap_is_def)

lemmas crypto_runs =
  wpD [OF wp_GenerateKeyPair [OF heap_is_live]] wpD [OF wp_Encrypt [OF heap_is_live]]
  wpD [OF wp_Decrypt [OF heap_is_live]] wpD [OF wp_Sign [OF heap_is_live]]
  wpD [OF wp_Verify [OF heap_is_live]] wpD [OF wp_DeriveSharedSecret [OF heap_is_live]]

lemma runs_to:
  "\<exists>a t. r = Returns a t \<and> live t = L \<and> heap_wf t \<and> (memory_ok lib \<longrightarrow> a = v) \<Longrightarrow> memory_ok lib
     \<Longrightarrow> \<exists>t. r = Returns v t"
  by blast

lemma filled_fits: "length out \<le> n \<Longrightarrow> filled n out = out"
  by (simp add: filled_def resize_def overwrite_def)

lemma length_overwrite [simp]: "length (overwrite buf out) = length buf"
  by (simp add: overwrite_def)

section \<open>Documented behaviour of the library\<close>

text \<open>
  What the OpenSSL documentation says of the calls: \<open>pub\<close> gives the public half of a key; a key
  survives its PEM text, nothing is read from an empty text, a call never writes more than the
  size it announced, a signature verifies under the matching public key, key agreement is
  symmetric, and a SHA-256 digest has 32 bytes.
\<close>
definition pem_law :: "'k openssl \<Rightarrow> ('k \<Rightarrow> 'k) \<Rightarrow> bool" where
  "pem_law lib pub \<longleftrightarrow>
     (\<forall>k bs. write_PUBKEY lib k = Some bs \<longrightarrow> bs \<noteq> [] \<and> read_PUBKEY lib bs = Some (pub k)) \<and>
     (\<forall>k bs. write_PrivateKey lib k = Some bs \<longrightarrow> bs \<noteq> [] \<and> read_PrivateKey lib bs = Some k) \<and>
     read_PUBKEY lib [] = None \<and> read_PrivateKey lib [] = None"

definition sign_law :: "'k openssl \<Rightarrow> ('k \<Rightarrow> 'k) \<Rightarrow> bool" where
  "sign_law lib pub \<longleftrightarrow>
     (\<forall>k n data out. sign_out lib k n data = Some out \<longrightarrow>
        length out \<le> n \<and> verify_final lib (pub k) data out = 1) \<and>
     (\<forall>k data. sign_init_ok lib k \<longrightarrow> verify_init_ok lib (pub k) \<and> verify_update_ok lib (pub k) data)"

definition agreement_law :: "'k openssl \<Rightarrow> ('k \<Rightarrow> 'k) \<Rightarrow> bool" where
  "agreement_law lib pub \<longleftrightarrow>
     (\<forall>k k'. derive_out lib k (pub k') = derive_out lib k' (pub k) \<and>
        derive_set_peer_ok lib k (pub k') = derive_set_peer_ok lib k' (pub k)) \<and>
     (\<forall>k k'. derive_init_ok lib k = derive_init_ok lib k')"

lemma result_dropped:
  assumes "\<exists>a t. m s = Returns a t \<and> live t = L \<and> heap_wf t \<and> P a"
  shows "\<exists>t. bind_crypto m (\<lambda>_. ret ()) s = Returns () t \<and> live t = L \<and> heap_wf t"
  using assms by (auto simp: bind_crypto_def ret_def)

lemma run_crypto_call_balanced:
  assumes "heap_wf s"
  shows "\<exists>t. run_crypto_call lib c s = Returns () t \<and> live t = live s \<and> heap_wf t"
proof (cases c)
  case (CallGeneratePeerId pub)
  then show ?thesis using assms by (simp add: bind_crypto_def ret_def)
qed (simp; rule result_dropped, rule crypto_runs [OF assms])+

section \<open>Properties\<close>

text \<open>
  A library in which keys are numbers: negative ones public, PEM text one byte, a signature the
  data behind the key.
\<close>
definition example_lib :: "int openssl" where
  "example_lib = \<lparr>alloc_ok = (\<lambda>_ _. True), keygen_init_ok = True, set_curve_ok = True, keygen = Some 7,
     write_PUBKEY = (\<lambda>k. Some [word_of_int k]), write_PrivateKey = (\<lambda>k. if 0 < k \<and> k < 256 then Some [word_of_int k] else None),
     read_PUBKEY = (\<lambda>bs. case bs of [] \<Rightarrow> None | b # _ \<Rightarrow> Some (- (uint b) - 1)),
     read_PrivateKey = (\<lambda>bs. case bs of [] \<Rightarrow> None | b # _ \<Rightarrow> Some (uint b)),
     encrypt_init_ok = (\<lambda>_. False), encrypt_size = (\<lambda>_ _. None), encrypt_out = (\<lambda>_ _ _. None),
     decrypt_init_ok = (\<lambda>_. False), decrypt_size = (\<lambda>_ _. None), decrypt_out = (\<lambda>_ _ _. None),
     sign_init_ok = (\<lambda>_. True), sign_update_ok = (\<lambda>_ _. True), sign_size = (\<lambda>_ data. Some (length data + 1)),
     sign_out = (\<lambda>k n data. if length data < n then Some (word_of_int k # data) else None),
     verify_init_ok = (\<lambda>_. True), verify_update_ok = (\<lambda>_ _. True),
     verify_final = (\<lambda>k data sig. if sig = word_of_int (- k - 1) # data then 1 else 0),
     derive_init_ok = (\<lambda>_. True), derive_set_peer_ok = (\<lambda>_ _. True),
     derive_out = (\<lambda>k k'. [word_of_int k * word_of_int (- k' - 1)]), SHA256 = (\<lambda>bs. replicate 32 (of_nat (length bs)))\<rparr>"

definition example_pub :: "int \<Rightarrow> int" where
  "example_pub k = - (k mod 256) - 1"

definition empty_heap :: heap where
  "empty_heap = \<lparr>live = [], next_handle = 0\<rparr>"

lemma word_of_int_mod_byte [simp]: "word_of_int (k mod 256) = (word_of_int k :: byte)"
  by transfer (simp add: take_bit_eq_mod)

lemma example_lib_laws:
  "memory_ok example_lib" "pem_law example_lib example_pub" "sign_law example_lib example_pub"
  "agreement_law example_lib example_pub" "heap_wf empty_heap"
  by (auto simp: memory_ok_def pem_law_def sign_law_def agreement_law_def example_lib_def example_pub_def
      heap_wf_def empty_heap_def uint_word_of_int split: if_splits)

text \<open>
  C21: No handle is leaked, freed twice or used after it was freed. Whatever calls are made on
  \<open>CryptoManager\<close>, one after the other, and whatever OpenSSL returns in each, failed allocations
  included: they all return, and the live handles are afterwards exactly those from before.
\<close>
theorem crypto_handles_balanced:
  assumes "heap_wf s"
  shows "\<exists>t. for_each (\<lambda>(lib, c). run_crypto_call lib c) calls s = Returns () t \<and> live t = live s \<and> heap_wf t"
  using assms
proof (induction calls arbitrary: s)
  case Nil
  then show ?case by simp
next
  case (Cons call calls)
  obtain lib c where call: "call = (lib, c)" by fastforce
  obtain t where t: "run_crypto_call lib c s = Returns () t" "live t = live s" "heap_wf t"
    using run_crypto_call_balanced [OF Cons.prems] by blast
  from Cons.IH [OF t(3)] t call show ?case by auto
qed

theorem crypto_handles_balanced_witness:
  "\<exists>t. for_each (\<lambda>(lib, c). run_crypto_call lib c)
      [(example_lib, CallGenerateKeyPair), (example_lib, CallEncrypt [1, 2] [7])] empty_heap = Returns () t \<and>
    live t = live empty_heap"
  using crypto_handles_balanced [OF example_lib_laws(5)] by blast





text \<open>
  The program's own keys cannot encrypt. If the library refuses encryption for the kind of
  key that \<open>GenerateKeyPair\<close> makes (as OpenSSL does for EC keys), \<open>Encrypt\<close> for a generated public
  key gives an empty result for every text, not an error.
\<close>
theorem generated_keys_encrypt_nothing:
  assumes "heap_wf s" and "memory_ok lib" and "pem_law lib pub"
    and "\<And>k. keygen lib = Some k \<Longrightarrow> \<not> encrypt_init_ok lib (pub k)"
    and "GenerateKeyPair lib s = Returns kp s1"
  shows "\<exists>s2. Encrypt lib data (kp_publicKey kp) s1 = Returns [] s2"
proof -
  have s1: "heap_wf s1" and kp: "kp = GenerateKeyPair_spec lib"
    using crypto_runs(1) [OF assms(1), of lib] assms(2,5) by auto
  have "Encrypt_spec lib data (kp_publicKey kp) = []"
    using assms(3,4) unfolding kp GenerateKeyPair_spec_def Encrypt_spec_def transform_spec_def pem_law_def
    by (auto split: option.splits if_splits)
  then show ?thesis
    using crypto_runs(2) [OF s1, of lib data "kp_publicKey kp"] assms(2) by auto
qed

theorem generated_keys_encrypt_nothing_witness:
  "\<exists>kp s1 s2. GenerateKeyPair example_lib empty_heap = Returns kp s1 \<and>
    Encrypt example_lib [104, 105] (kp_publicKey kp) s1 = Returns [] s2"
proof -
  obtain s1 where s1: "GenerateKeyPair example_lib empty_heap = Returns (GenerateKeyPair_spec example_lib) s1"
    using crypto_runs(1) [OF example_lib_laws(5), of example_lib] example_lib_laws(1) by auto
  have "\<not> encrypt_init_ok example_lib k" for k by (simp add: example_lib_def)
  then show ?thesis
    using generated_keys_encrypt_nothing [OF example_lib_laws(5,1,2) _ s1, of "[104, 105]"] s1 by blast
qed

text \<open>
  C40: The peer id is sixteen hexadecimal digits: the first eight bytes of the digest of the
  public key. It contains no separator of the peers file and no colon.
\<close>
theorem peer_id_format:
  assumes "length (SHA256 lib key) = 32"
  shows "GeneratePeerId lib key = hex_string (take 8 (SHA256 lib key)) \<and> length (GeneratePeerId lib key) = 16 \<and>
    set (GeneratePeerId lib key) \<subseteq> digit_char ` {..<16}"
proof -
  have "take 8 (SHA256 lib key) = map (\<lambda>i. SHA256 lib key ! i) [0..<8]"
    using assms by (intro nth_equalityI) auto
  then have eq: "GeneratePeerId lib key = hex_string (take 8 (SHA256 lib key))"
    by (simp add: GeneratePeerId_def hex_string_def Let_def comp_def)
  moreover have "length (hex_string bs) = 2 * length bs" for bs
    by (induction bs) (simp_all add: hex_string_def hex_byte_def)
  moreover have "set (hex_string bs) \<subseteq> digit_char ` {..<16}" for bs
  proof -
    have "set (hex_byte b) \<subseteq> digit_char ` {..<16}" for b
      using unat_byte_less [of b] by (auto simp: hex_byte_def)
    then show ?thesis by (auto simp: hex_string_def)
  qed
  ultimately show ?thesis using assms by simp
qed

theorem peer_id_format_witness: "length (GeneratePeerId example_lib [1, 2, 3]) = 16"
proof -
  have "length (SHA256 example_lib [1, 2, 3]) = 32" by (simp add: example_lib_def)
  then show ?thesis using peer_id_format by blast
qed

text \<open>
  Key agreement. From two generated pairs both sides derive the same 32 bytes, through the
  PEM texts.
\<close>
theorem shared_secret_agrees:
  assumes "heap_wf s" and "heap_wf s'" and "memory_ok lib" and "pem_law lib pub" and "agreement_law lib pub"
    and "write_PUBKEY lib k = Some pk" and "write_PrivateKey lib k = Some sk"
    and "write_PUBKEY lib k' = Some pk'" and "write_PrivateKey lib k' = Some sk'"
  shows "\<exists>v t t'. DeriveSharedSecret lib sk pk' s = Returns v t \<and>
    DeriveSharedSecret lib sk' pk s' = Returns v t' \<and> length v = 32"
proof -
  have "DeriveSharedSecret_spec lib sk pk' = DeriveSharedSecret_spec lib sk' pk"
    using assms(4-9) unfolding DeriveSharedSecret_spec_def pem_law_def agreement_law_def by auto
  moreover have "length (DeriveSharedSecret_spec lib sk pk') = 32"
    by (simp add: DeriveSharedSecret_spec_def split: option.split)
  ultimately show ?thesis
    using crypto_runs(6) [OF assms(1), of lib sk pk'] crypto_runs(6) [OF assms(2), of lib sk' pk] assms(3) by metis
qed

theorem shared_secret_agrees_witness:
  "\<exists>v t t'. DeriveSharedSecret example_lib [3] [5] empty_heap = Returns v t \<and>
    DeriveSharedSecret example_lib [5] [3] empty_heap = Returns v t' \<and> length v = 32"
  by (rule shared_secret_agrees [OF example_lib_laws(5,5,1,2,4), of 3 _ _ 5]) (simp_all add: example_lib_def)

end
