(* ===== verification/Program.thy ===== *)
theory Program
  imports CliInterface Crypto
begin

text \<open>
  The program: \<open>Source/Main.cpp\<close>. \<open>main_start\<close> is the code up to the start of the command line,
  \<open>main_cleanup\<close> what follows the wait for shutdown, and \<open>main\<close> a whole run in which the command
  loop ends by itself (\<open>quit\<close> or end of input); the threads that take part are interleaved in theory
  \<open>Lifecycle\<close>. What \<open>boost::program_options\<close> read from the command
  line is the record \<open>options\<close>; the lines that are only printed are left out.
\<close>

section \<open>Data\<close>

record options =
  opt_help :: bool
  opt_port :: u16
  opt_connect :: "string option"
  opt_peers_file :: string

text \<open>The defaults of the option description.\<close>
definition default_options :: options where
  "default_options = \<lparr>opt_help = False, opt_port = 8080, opt_connect = None, opt_peers_file = ''peers.txt''\<rparr>"

text \<open>How \<open>main\<close> ends: the exit status with the file system, a fault no clause catches, or not at all.\<close>
datatype exit = Exits nat files | Crashes fault | Hangs

section \<open>Operations\<close>

definition local_peer :: "znv \<Rightarrow> string \<Rightarrow> u16 \<Rightarrow> byte list \<Rightarrow> PeerInfo" where
  "local_peer e peerId portNo key =
     (PeerInfo_uninitialised e)\<lparr>peer_id := peerId, address := ''0.0.0.0'', port := portNo, publicKey := key,
        isConnected := True\<rparr>"

definition connect_initial :: "znv \<Rightarrow> string option \<Rightarrow> app \<Rightarrow> app_outcome" where
  "connect_initial e opt s =
     (case opt of
        None \<Rightarrow> Returns () s
      | Some connectStr \<Rightarrow>
          (case find_char (CHR '':'') connectStr of
             None \<Rightarrow> Returns () s
           | Some colonPos \<Rightarrow>
               (case stoul 10 (drop (colonPos + 1) connectStr) of
                  Inl f \<Rightarrow> Raises f s
                | Inr v \<Rightarrow> ConnectToPeer e (take colonPos connectStr) (ucast v) s)))"

text \<open>The components of \<open>main\<close> with the local identity set, before the peers file is read.\<close>
definition main_state :: "znv \<Rightarrow> 'k openssl \<Rightarrow> options \<Rightarrow> KeyPair \<Rightarrow> app" where
  "main_state e lib opts keyPair =
     NetworkManager_new
       (SetLocalPeer (local_peer e (GeneratePeerId lib (kp_publicKey keyPair)) (opt_port opts) (kp_publicKey keyPair))
          (PeerManager_new e))
       CLIInterface_new"

definition main_start :: "znv \<Rightarrow> 'k openssl \<Rightarrow> options \<Rightarrow> KeyPair \<Rightarrow> files \<Rightarrow> app_outcome" where
  "main_start e lib opts keyPair fs =
     (let s = main_state e lib opts keyPair in
      case LoadPeersFromFile e (opt_peers_file opts) fs (peerManager s) of
        (Inl f, pm) \<Rightarrow> Raises f (s\<lparr>peerManager := pm\<rparr>)
      | (Inr u, pm) \<Rightarrow>
          bind_outcome (Start e (opt_port opts) (s\<lparr>peerManager := pm\<rparr>)) (\<lambda>_. connect_initial e (opt_connect opts)))"

text \<open>The end of the block: the interface and then the network are destroyed.\<close>
definition main_destroy :: "znv \<Rightarrow> terminal \<Rightarrow> nat \<Rightarrow> app \<Rightarrow> files \<Rightarrow> exit" where
  "main_destroy e tm n s fs =
     (case CLIInterface_destroy e tm n (userInterface s) of
        Returns u c \<Rightarrow>
          (case NetworkManager_destroy (s\<lparr>userInterface := c\<rparr>) of
             Returns u s \<Rightarrow> Exits 0 fs
           | Raises f s \<Rightarrow> Crashes f
           | Blocks s \<Rightarrow> Hangs)
      | Raises f c \<Rightarrow> Crashes f
      | Blocks c \<Rightarrow> Hangs)"

text \<open>
  \<open>cli.Stop()\<close>, \<open>network.Stop()\<close>, \<open>SavePeersToFile\<close>; the thread of the command line has ended, so that
  its join returns. Then the destructors.
\<close>
definition main_cleanup :: "znv \<Rightarrow> terminal \<Rightarrow> nat \<Rightarrow> options \<Rightarrow> app \<Rightarrow> files \<Rightarrow> exit" where
  "main_cleanup e tm n opts s fs =
     (case CLI_Stop e tm n (userInterface s) of
        Returns u c \<Rightarrow>
          (case Stop (s\<lparr>userInterface := c\<rparr>) of
             Returns u s \<Rightarrow> main_destroy e tm n s (SavePeersToFile e (opt_peers_file opts) (peerManager s) fs)
           | Raises f s \<Rightarrow> Crashes f
           | Blocks s \<Rightarrow> Hangs)
      | Raises f c \<Rightarrow> Crashes f
      | Blocks c \<Rightarrow> Hangs)"

text \<open>
  The \<open>catch\<close> clause of \<open>main\<close>: an exception gives status 1 once the destructor of the network has
  stopped it.
\<close>
definition main_failed :: "fault \<Rightarrow> app \<Rightarrow> files \<Rightarrow> exit" where
  "main_failed f s fs =
     (if \<not> is_exception f then Crashes f
      else case NetworkManager_destroy s of
             Returns u s \<Rightarrow> Exits 1 fs
           | Raises g s \<Rightarrow> Crashes g
           | Blocks s \<Rightarrow> Hangs)"

definition main ::
    "znv \<Rightarrow> 'k openssl \<Rightarrow> terminal \<Rightarrow> nat \<Rightarrow> options \<Rightarrow> (znv \<times> string option) list \<Rightarrow> files \<Rightarrow> exit" where
  "main e lib tm n opts inputs fs =
     (if opt_help opts then Exits 0 fs
      else
        case GenerateKeyPair lib empty_heap of
          Raises f h \<Rightarrow> Crashes f
        | Blocks h \<Rightarrow> Hangs
        | Returns keyPair h \<Rightarrow>
            (case main_start e lib opts keyPair fs of
               Raises f s \<Rightarrow> main_failed f s fs
             | Blocks s \<Rightarrow> Hangs
             | Returns u s \<Rightarrow>
                 (case Run tm inputs s of
                    Raises f s \<Rightarrow> Crashes f
                  | Blocks s \<Rightarrow> Hangs
                  | Returns u s \<Rightarrow> main_cleanup e tm n opts s fs)))"

section \<open>Lemmas\<close>

lemma GenerateKeyPair_starts: "\<exists>keyPair h. GenerateKeyPair lib empty_heap = Returns keyPair h"
  using crypto_runs(1) [of empty_heap lib] by (auto simp: heap_wf_def empty_heap_def)

lemma main_state_simps [simp]:
  "\<not> running (main_state e lib opts kp)" "\<not> socketsMutex (main_state e lib opts kp)"
  "\<not> routerThread (main_state e lib opts kp)" "\<not> pollerThread (main_state e lib opts kp)"
  by (simp_all add: main_state_def NetworkManager_new_def NetImpl_new_def)

lemma pm_wf_main_state: "pm_wf (peerManager (main_state e lib opts kp))"
  by (simp add: main_state_def NetworkManager_new_def NetImpl_new_def pm_wf_new pm_wf_SetLocalPeer)

text \<open>After a clean-up the destructors find nothing left to stop.\<close>
lemma main_destroy_stopped:
  "\<not> running s \<Longrightarrow> displayThread (userInterface s) = NotStarted \<Longrightarrow> main_destroy e tm n s fs = Exits 0 fs"
  by (simp add: main_destroy_def CLIInterface_destroy_def CLI_Stop_again NetworkManager_destroy_def Impl_destroy_def Stop_def)

lemma Stop_keeps_interface: "Stop n = Returns u m \<Longrightarrow> userInterface m = userInterface n \<and> \<not> running m"
  by (cases "socketsMutex n") (auto simp: Stop_def split: if_splits)

lemma main_cleanup_cases:
  "main_cleanup e tm n opts s fs =
     (case CLI_Stop e tm n (userInterface s) of
        Returns u c \<Rightarrow>
          (case Stop (s\<lparr>userInterface := c\<rparr>) of
             Returns u s \<Rightarrow> Exits 0 (SavePeersToFile e (opt_peers_file opts) (peerManager s) fs)
           | Raises f s \<Rightarrow> Crashes f
           | Blocks s \<Rightarrow> Hangs)
      | Raises f c \<Rightarrow> Crashes f
      | Blocks c \<Rightarrow> Hangs)"
  by (auto simp: main_cleanup_def main_destroy_stopped CLI_Stop_joined dest!: Stop_keeps_interface split: outcome.split)

text \<open>A load that throws ends the program with status 1 before anything is started.\<close>
lemma main_load_fails:
  assumes "\<not> opt_help opts"
    and "\<And>pm. \<exists>f. fst (LoadPeersFromFile e (opt_peers_file opts) fs pm) = Inl f"
  shows "main e lib tm n opts inputs fs = Exits 1 fs"
proof -
  obtain keyPair h where kp: "GenerateKeyPair lib empty_heap = Returns keyPair h"
    using GenerateKeyPair_starts by blast
  let ?s = "main_state e lib opts keyPair"
  obtain f pm where load: "LoadPeersFromFile e (opt_peers_file opts) fs (peerManager ?s) = (Inl f, pm)"
    using assms(2) by (metis prod.collapse)
  then have "is_exception f" by (rule LoadPeersFromFile_faults)
  then show ?thesis
    using assms(1) kp load
    by (simp add: main_def main_start_def Let_def main_failed_def NetworkManager_destroy_def Impl_destroy_def Stop_def)
qed

text \<open>A run whose only line is \<open>quit\<close>: the display thread needs one step to see the flag.\<close>
lemma Run_quit:
  assumes "commands_registered s" and "\<not> socketsMutex s"
  shows "\<exists>t. Run tm [(e, Some ''quit'')] s = Returns () t \<and> \<not> cli_running (userInterface t) \<and>
    displayThread (userInterface t) = LoopHead \<and> \<not> socketsMutex t \<and> peerManager t = peerManager s"
proof -
  let ?s = "on_ui (\<lambda>c. c\<lparr>history := history c @ [''quit'']\<rparr>) (run_prologue s)"
  have "commands_registered ?s"
    using assms(1) by (simp add: commands_registered_def run_prologue_def SetMessageHandler_def SetConnectionHandler_def)
  then have "ProcessCommand e tm ''quit'' ?s = Returns () (HandleQuit ?s)" by (rule ProcessCommand_quit)
  then show ?thesis
    using assms(2) by (simp add: Run_def HandleQuit_def run_prologue_def SetMessageHandler_def SetConnectionHandler_def
        DisplaySystemMessage_def queueDisplay_def notify_def startDisplayThread_def)
qed

lemma main_quit:
  assumes "\<not> opt_help opts" and "opt_connect opts = None" and "open_router e (opt_port opts) = None"
    and "\<And>pm. pm_wf pm \<Longrightarrow> fst (LoadPeersFromFile e (opt_peers_file opts) fs pm) = Inr ()"
  shows "\<exists>keyPair h. GenerateKeyPair lib empty_heap = Returns keyPair h \<and>
    main e lib tm 1 opts [(e', Some ''quit'')] fs = Exits 0 (SavePeersToFile e (opt_peers_file opts)
      (snd (LoadPeersFromFile e (opt_peers_file opts) fs (peerManager (main_state e lib opts keyPair)))) fs)"
proof -
  obtain keyPair h where kp: "GenerateKeyPair lib empty_heap = Returns keyPair h"
    using GenerateKeyPair_starts by blast
  let ?s = "main_state e lib opts keyPair"
  obtain pm where load: "LoadPeersFromFile e (opt_peers_file opts) fs (peerManager ?s) = (Inr (), pm)"
    using assms(4) [OF pm_wf_main_state] by (metis prod.collapse)
  let ?a = "?s\<lparr>peerManager := pm, listenPort := opt_port opts, running := True, routerSocket := True,
    routerThread := True, pollerThread := True\<rparr>"
  have start: "main_start e lib opts keyPair fs = Returns () ?a"
    using load assms(2,3) by (simp add: main_start_def Let_def Start_def connect_initial_def)
  have "commands_registered ?a" by (simp add: commands_registered_def main_state_def NetworkManager_new_def NetImpl_new_def)
  then obtain t where t: "Run tm [(e', Some ''quit'')] ?a = Returns () t" "\<not> cli_running (userInterface t)"
      "displayThread (userInterface t) = LoopHead" "\<not> socketsMutex t" "peerManager t = pm"
    using Run_quit [of ?a tm e'] by auto
  then have "\<exists>c. CLI_Stop e tm 1 (userInterface t) = Returns () c"
    by (simp add: CLI_Stop_def Let_def notify_def stop_flag_def display_step_def)
  with t have "main_cleanup e tm 1 opts t fs = Exits 0 (SavePeersToFile e (opt_peers_file opts) pm fs)"
    by (auto simp: main_cleanup_cases Stop_def)
  then show ?thesis using assms(1) kp start load t(1) by (simp add: main_def)
qed

section \<open>Properties\<close>



text \<open>
  Connecting at startup hangs the program. With the option \<open>--connect address:port\<close>, a readable
  peers file and a network that accepts, \<open>main\<close> never comes to the command line.
\<close>
theorem startup_connect_hangs:
  assumes "\<not> opt_help opts" and "opt_connect opts = Some (addr @ CHR '':'' # dec_string p)"
    and "CHR '':'' \<notin> set addr" and "p < 2 ^ 64" and "fs (opt_peers_file opts) = None"
    and "open_router e (opt_port opts) = None"
    and "\<And>i a. open_dealer e i a = None"
  shows "main e lib tm n opts inputs fs = Hangs"
proof -
  obtain keyPair h where kp: "GenerateKeyPair lib empty_heap = Returns keyPair h"
    using GenerateKeyPair_starts by blast
  have "find_char (CHR '':'') (addr @ CHR '':'' # dec_string p) = Some (length addr)"
    using assms(3) by (rule find_char_append)
  then have "connect_initial e (opt_connect opts) s = Blocks (dialled addr (of_nat p) s)" if "\<not> socketsMutex s" for s
    using that assms(2,4,7) by (simp add: connect_initial_def stoul_dec_string ucast_u16_of_nat ConnectToPeer_cases)
  then have "\<exists>u. main_start e lib opts keyPair fs = Blocks u"
    using assms(5,6) by (simp add: main_start_def Let_def LoadPeersFromFile_def Start_def)
  then show ?thesis
    using assms(1) kp by (auto simp: main_def)
qed

theorem startup_connect_hangs_witness:
  "main example_znv example_lib example_terminal 0
     (default_options\<lparr>opt_connect := Some (''localhost'' @ CHR '':'' # dec_string 8081)\<rparr>)
     [(example_znv, Some ''quit'')] Map.empty = Hangs"
  by (rule startup_connect_hangs [where p = 8081 and addr = "''localhost''"]) (simp_all add: default_options_def)

end
