(* ===== verification/Threads.thy ===== *)
theory Threads
  imports Prelude
begin

text \<open>
  Interleaved threads as step relations. A component gives the relation of one step of any of its
  threads; the interfaces here say what follows for whole runs (\<open>step\<^sup>*\<^sup>*\<close>) from what holds of one step:
  \<open>step_invariant\<close> for an invariant, \<open>stepwise_simulation\<close> for a second, coarser relation that the
  steps implement, \<open>ranked_steps\<close> for runs that cannot go on for ever.
\<close>

definition stuck :: "('s \<Rightarrow> 's \<Rightarrow> bool) \<Rightarrow> 's \<Rightarrow> bool" where
  "stuck step s \<longleftrightarrow> (\<forall>t. \<not> step s t)"

locale step_invariant =
  fixes step :: "'s \<Rightarrow> 's \<Rightarrow> bool"
    and inv :: "'s \<Rightarrow> bool"
  assumes step_keeps: "inv s \<Longrightarrow> step s t \<Longrightarrow> inv t"
begin

lemma run_keeps: "step\<^sup>*\<^sup>* s t \<Longrightarrow> inv s \<Longrightarrow> inv t"
  by (induction rule: rtranclp_induct) (auto intro: step_keeps)

end

text \<open>Every step is a step of the coarser relation on the abstract states, or not visible there.\<close>
locale stepwise_simulation = step_invariant step inv
  for step :: "'s \<Rightarrow> 's \<Rightarrow> bool" and inv :: "'s \<Rightarrow> bool" +
  fixes abstraction :: "'s \<Rightarrow> 'a"
    and coarse :: "'a \<Rightarrow> 'a \<Rightarrow> bool"
  assumes simulated: "inv s \<Longrightarrow> step s t \<Longrightarrow> abstraction t = abstraction s \<or> coarse (abstraction s) (abstraction t)"
begin

lemma run_simulated:
  assumes "step\<^sup>*\<^sup>* s t" and "inv s"
  shows "coarse\<^sup>*\<^sup>* (abstraction s) (abstraction t)"
  using assms
proof (induction rule: rtranclp_induct)
  case base
  then show ?case by simp
next
  case (step t u)
  moreover have "inv t" using step.hyps(1) step.prems by (rule run_keeps)
  ultimately have "abstraction u = abstraction t \<or> coarse (abstraction t) (abstraction u)"
    using simulated by blast
  with step show ?case by (auto intro: rtranclp.rtrancl_into_rtrancl)
qed

end

text \<open>Every step lowers a rank: runs are bounded, and each can be continued to a state without a step.\<close>
locale ranked_steps = step_invariant step inv
  for step :: "'s \<Rightarrow> 's \<Rightarrow> bool" and inv :: "'s \<Rightarrow> bool" +
  fixes rank :: "'s \<Rightarrow> nat"
  assumes rank_falls: "inv s \<Longrightarrow> step s t \<Longrightarrow> rank t < rank s"
begin

lemma run_bounded: "(step ^^ n) s t \<Longrightarrow> inv s \<Longrightarrow> inv t \<and> n + rank t \<le> rank s"
proof (induction n arbitrary: t)
  case 0
  then show ?case by simp
next
  case (Suc n)
  then obtain u where "(step ^^ n) s u" and "step u t" by auto
  with Suc step_keeps rank_falls show ?case by fastforce
qed

lemma run_ends:
  assumes "inv s"
  shows "\<exists>t. step\<^sup>*\<^sup>* s t \<and> stuck step t"
  using assms
proof (induction "rank s" arbitrary: s rule: less_induct)
  case less
  show ?case
  proof (cases "stuck step s")
    case True
    then show ?thesis by blast
  next
    case False
    then obtain u where "step s u" by (auto simp: stuck_def)
    with less step_keeps rank_falls show ?thesis by (meson converse_rtranclp_into_rtranclp)
  qed
qed

end

end
