(* ===== verification/Shutdown.thy ===== *)
theory Shutdown
  imports Network Threads
begin

text \<open>
  \<open>Impl::Stop\<close> of \<open>Source/Network.cpp\<close> against the two threads it stops, at the grain of the single
  accesses to the shared members. In \<open>Network\<close> a call or a turn of a loop is one step; here \<open>Stop\<close>,
  \<open>RouteMessages\<close> and \<open>PollMessages\<close> each have a program counter, and the steps of the three threads
  interleave in any order. What is shared is the record \<open>NetImpl\<close>; \<open>socketOpen\<close> says whether the
  ZeroMQ socket behind \<open>routerSocket_\<close> is still open (\<open>close()\<close> comes before \<open>reset()\<close>).

  Each step is a function of what ZeroMQ answers in it. The processing of a received frame, which
  takes no lock and uses the router socket only behind a test of the pointer, is one step. A
  dereference of the null pointer, and a call of \<open>zmq::poll\<close> with the handle of a socket that
  another thread has closed (ZeroMQ sockets may not be used by two threads), is undefined: the
  thread is at a fault and makes no further step.
\<close>

section \<open>Data\<close>

text \<open>The points of \<open>Stop\<close>: the next access it makes.\<close>
datatype stop_pc =
    StopEntry | StopSetFlag | StopLock | StopClear | StopTestRouter | StopClose | StopReset
  | StopJoinRouter | StopJoinPoller | StopReturned

text \<open>
  The points of \<open>RouteMessages\<close>. \<open>RouterPoll\<close> carries whether the handle in the poll item is that of
  a socket; the handle of a closed \<open>socket_t\<close> is null. The frames received so far are carried along.
\<close>
datatype router_pc =
    RouterHead | RouterHandle | RouterPoll bool | RouterRecvIdentity | RouterRecvFrame "byte list"
  | RouterProcess "byte list" "byte list" | RouterCatch string | RouterEnded | RouterFault fault

text \<open>
  The points of \<open>PollMessages\<close>; the lists are the keys of the poll items, in \<open>PollerItems\<close> those still
  to be handled.
\<close>
datatype poller_pc =
    PollerHead | PollerLock | PollerCollect | PollerPoll "string list" | PollerItems "string list"
  | PollerReceive string "string list" | PollerCatch string | PollerEnded | PollerFault fault

datatype 'r poll_result = PollFails string | PollReports 'r

record 'ui shutdown =
  net :: "'ui NetImpl"
  socketOpen :: bool
  stopPc :: stop_pc
  routerPc :: router_pc
  pollerPc :: poller_pc

section \<open>Operations\<close>

text \<open>\<open>Stop\<close> is called; both threads are between two turns, as after \<open>Start\<close>.\<close>
definition stop_called :: "'ui NetImpl \<Rightarrow> 'ui shutdown" where
  "stop_called n = \<lparr>net = n, socketOpen = routerSocket n, stopPc = StopEntry,
     routerPc = (if routerThread n then RouterHead else RouterEnded),
     pollerPc = (if pollerThread n then PollerHead else PollerEnded)\<rparr>"

subsection \<open>Stop\<close>

definition stop_step :: "'ui shutdown \<Rightarrow> 'ui shutdown option" where
  "stop_step s =
     (let n = net s in
      case stopPc s of
        StopEntry \<Rightarrow> Some (s\<lparr>stopPc := if running n then StopSetFlag else StopReturned\<rparr>)
      | StopSetFlag \<Rightarrow> Some (s\<lparr>net := n\<lparr>running := False\<rparr>, stopPc := StopLock\<rparr>)
      | StopLock \<Rightarrow>
          if socketsMutex n then None else Some (s\<lparr>net := set_mutex True n, stopPc := StopClear\<rparr>)
      | StopClear \<Rightarrow>
          Some (s\<lparr>net := set_mutex False (n\<lparr>dealerSockets := []\<rparr>), stopPc := StopTestRouter\<rparr>)
      | StopTestRouter \<Rightarrow> Some (s\<lparr>stopPc := if routerSocket n then StopClose else StopJoinRouter\<rparr>)
      | StopClose \<Rightarrow> Some (s\<lparr>socketOpen := False, stopPc := StopReset\<rparr>)
      | StopReset \<Rightarrow> Some (s\<lparr>net := n\<lparr>routerSocket := False\<rparr>, stopPc := StopJoinRouter\<rparr>)
      | StopJoinRouter \<Rightarrow>
          if routerThread n \<and> routerPc s \<noteq> RouterEnded then None
          else Some (s\<lparr>net := n\<lparr>routerThread := False\<rparr>, stopPc := StopJoinPoller\<rparr>)
      | StopJoinPoller \<Rightarrow>
          if pollerThread n \<and> pollerPc s \<noteq> PollerEnded then None
          else Some (s\<lparr>net := n\<lparr>pollerThread := False\<rparr>, stopPc := StopReturned\<rparr>)
      | StopReturned \<Rightarrow> None)"

subsection \<open>RouteMessages\<close>

definition not_a_socket :: string where
  "not_a_socket = ''Socket operation on non-socket''"

text \<open>Sends through a router socket that is closed fail; all else is as the environment has it.\<close>
definition router_env :: "bool \<Rightarrow> znv \<Rightarrow> znv" where
  "router_env isOpen e =
     (if isOpen then e
      else e\<lparr>zmq_send := (\<lambda>ref more data. if ref = RouterSocket then SendFails not_a_socket
                                         else zmq_send e ref more data)\<rparr>)"

text \<open>\<open>routerSocket_->recv\<close>: undefined through a null pointer, an error on a closed socket.\<close>
definition router_recv :: "recv_result \<Rightarrow> (byte list \<Rightarrow> router_pc) \<Rightarrow> 'ui shutdown \<Rightarrow> router_pc" where
  "router_recv r next s =
     (if \<not> routerSocket (net s) then RouterFault (UndefinedBehaviour ''null router socket'')
      else if \<not> socketOpen s then RouterCatch not_a_socket
      else case r of
             Received data \<Rightarrow> next data
           | NothingReceived \<Rightarrow> RouterHead
           | RecvFails w \<Rightarrow> RouterCatch w)"

definition router_step ::
    "znv \<Rightarrow> bool poll_result \<Rightarrow> recv_result \<Rightarrow> 'ui shutdown \<Rightarrow> 'ui shutdown option" where
  "router_step e p r s =
     (let n = net s in
      case routerPc s of
        RouterHead \<Rightarrow> Some (s\<lparr>routerPc := if running n then RouterHandle else RouterEnded\<rparr>)
      | RouterHandle \<Rightarrow>
          Some (s\<lparr>routerPc := if routerSocket n then RouterPoll (socketOpen s)
                              else RouterFault (UndefinedBehaviour ''null router socket'')\<rparr>)
      | RouterPoll isSocket \<Rightarrow>
          Some (s\<lparr>routerPc :=
            if isSocket \<and> \<not> socketOpen s then RouterFault (UndefinedBehaviour ''poll on a closed socket'')
            else case p of
                   PollFails w \<Rightarrow> RouterCatch w
                 | PollReports readable \<Rightarrow> if readable then RouterRecvIdentity else RouterHead\<rparr>)
      | RouterRecvIdentity \<Rightarrow> Some (s\<lparr>routerPc := router_recv r RouterRecvFrame s\<rparr>)
      | RouterRecvFrame identity \<Rightarrow> Some (s\<lparr>routerPc := router_recv r (RouterProcess identity) s\<rparr>)
      | RouterProcess identity data \<Rightarrow>
          (case process_frame (router_env (socketOpen s) e) (bytes_to_string identity) data n of
             Returns u m \<Rightarrow> Some (s\<lparr>net := m, routerPc := RouterHead\<rparr>)
           | Raises f m \<Rightarrow> Some (s\<lparr>net := m, routerPc := RouterFault f\<rparr>)
           | Blocks m \<Rightarrow> None)
      | RouterCatch w \<Rightarrow>
          Some (s\<lparr>net := if running n then log_error (''Router error: '' @ w) n else n, routerPc := RouterHead\<rparr>)
      | RouterEnded \<Rightarrow> None
      | RouterFault f \<Rightarrow> None)"

subsection \<open>PollMessages\<close>

text \<open>The \<open>lock_guard\<close> of the inner loop: the socket is looked up again, read, and the frame handled.\<close>
definition poller_receive :: "znv \<Rightarrow> recv_result \<Rightarrow> string \<Rightarrow> string list \<Rightarrow> 'ui shutdown \<Rightarrow> 'ui shutdown option" where
  "poller_receive e r k ks s =
     (let n = net s; release = \<lambda>m pc. Some (s\<lparr>net := set_mutex False m, pollerPc := pc\<rparr>) in
      case umap_find k (dealerSockets n) of
        None \<Rightarrow> release n (PollerItems ks)
      | Some sock \<Rightarrow>
          (case r of
             RecvFails w \<Rightarrow> release n (PollerCatch w)
           | NothingReceived \<Rightarrow> release n (PollerItems ks)
           | Received data \<Rightarrow>
               (case process_frame (router_env (socketOpen s) e) k data n of
                  Returns u m \<Rightarrow> release m (PollerItems ks)
                | Raises f m \<Rightarrow> Some (s\<lparr>net := m, pollerPc := PollerFault f\<rparr>)
                | Blocks m \<Rightarrow> None)))"

definition poller_step ::
    "znv \<Rightarrow> (string \<Rightarrow> bool) poll_result \<Rightarrow> recv_result \<Rightarrow> 'ui shutdown \<Rightarrow> 'ui shutdown option" where
  "poller_step e p r s =
     (let n = net s in
      case pollerPc s of
        PollerHead \<Rightarrow> Some (s\<lparr>pollerPc := if running n then PollerLock else PollerEnded\<rparr>)
      | PollerLock \<Rightarrow>
          if socketsMutex n then None else Some (s\<lparr>net := set_mutex True n, pollerPc := PollerCollect\<rparr>)
      | PollerCollect \<Rightarrow>
          Some (s\<lparr>net := set_mutex False n, pollerPc := PollerPoll (map fst (umap_items e (dealerSockets n)))\<rparr>)
      | PollerPoll ks \<Rightarrow>
          Some (s\<lparr>pollerPc :=
            if ks = [] then PollerHead
            else if list_ex (\<lambda>k. umap_find k (dealerSockets n) = None) ks
            then PollerFault (UndefinedBehaviour ''poll on a closed socket'')
            else case p of
                   PollFails w \<Rightarrow> PollerCatch w
                 | PollReports readable \<Rightarrow> PollerItems (filter readable ks)\<rparr>)
      | PollerItems [] \<Rightarrow> Some (s\<lparr>pollerPc := PollerHead\<rparr>)
      | PollerItems (k # ks) \<Rightarrow>
          if socketsMutex n then None else Some (s\<lparr>net := set_mutex True n, pollerPc := PollerReceive k ks\<rparr>)
      | PollerReceive k ks \<Rightarrow> poller_receive e r k ks s
      | PollerCatch w \<Rightarrow>
          Some (s\<lparr>net := if running n then log_error (''Poll error: '' @ w) n else n, pollerPc := PollerHead\<rparr>)
      | PollerEnded \<Rightarrow> None
      | PollerFault f \<Rightarrow> None)"

subsection \<open>The three threads together\<close>

inductive shutdown_step :: "'ui shutdown \<Rightarrow> 'ui shutdown \<Rightarrow> bool" where
  stop_moves: "stop_step s = Some t \<Longrightarrow> shutdown_step s t"
| router_moves: "router_step e p r s = Some t \<Longrightarrow> shutdown_step s t"
| poller_moves: "permutes_keys e \<Longrightarrow> poller_step e q r s = Some t \<Longrightarrow> shutdown_step s t"

inductive_cases shutdown_stepE: "shutdown_step s t"

text \<open>A schedule: which thread moves, and what ZeroMQ answers it.\<close>
datatype move =
    MoveStop
  | MoveRouter znv "bool poll_result" recv_result
  | MovePoller znv "(string \<Rightarrow> bool) poll_result" recv_result

fun make_move :: "move \<Rightarrow> 'ui shutdown \<Rightarrow> 'ui shutdown option" where
  "make_move MoveStop s = stop_step s"
| "make_move (MoveRouter e p r) s = router_step e p r s"
| "make_move (MovePoller e q r) s = poller_step e q r s"

fun run_schedule :: "move list \<Rightarrow> 'ui shutdown \<Rightarrow> 'ui shutdown option" where
  "run_schedule [] s = Some s"
| "run_schedule (a # as) s = (case make_move a s of None \<Rightarrow> None | Some t \<Rightarrow> run_schedule as t)"

fun fair_move :: "move \<Rightarrow> bool" where
  "fair_move (MovePoller e q r) = permutes_keys e"
| "fair_move _ = True"

section \<open>Specification\<close>

text \<open>A manager that has been started and that no thread is in the middle of changing.\<close>
definition net_started :: "'ui NetImpl \<Rightarrow> bool" where
  "net_started n \<longleftrightarrow> running n \<and> routerSocket n \<and> routerThread n \<and> pollerThread n \<and> \<not> socketsMutex n \<and>
     umap_wf (dealerSockets n)"

primrec stop_line :: "stop_pc \<Rightarrow> nat" where
  "stop_line StopEntry = 0"
| "stop_line StopSetFlag = 1"
| "stop_line StopLock = 2"
| "stop_line StopClear = 3"
| "stop_line StopTestRouter = 4"
| "stop_line StopClose = 5"
| "stop_line StopReset = 6"
| "stop_line StopJoinRouter = 7"
| "stop_line StopJoinPoller = 8"
| "stop_line StopReturned = 9"

primrec router_faulted :: "router_pc \<Rightarrow> bool" where
  "router_faulted RouterHead = False"
| "router_faulted RouterHandle = False"
| "router_faulted (RouterPoll b) = False"
| "router_faulted RouterRecvIdentity = False"
| "router_faulted (RouterRecvFrame i) = False"
| "router_faulted (RouterProcess i d) = False"
| "router_faulted (RouterCatch w) = False"
| "router_faulted RouterEnded = False"
| "router_faulted (RouterFault f) = True"

primrec poller_faulted :: "poller_pc \<Rightarrow> bool" where
  "poller_faulted PollerHead = False"
| "poller_faulted PollerLock = False"
| "poller_faulted PollerCollect = False"
| "poller_faulted (PollerPoll ks) = False"
| "poller_faulted (PollerItems ks) = False"
| "poller_faulted (PollerReceive k ks) = False"
| "poller_faulted (PollerCatch w) = False"
| "poller_faulted PollerEnded = False"
| "poller_faulted (PollerFault f) = True"

fun poller_holds :: "poller_pc \<Rightarrow> bool" where
  "poller_holds PollerCollect = True"
| "poller_holds (PollerReceive k ks) = True"
| "poller_holds _ = False"

fun poller_keys :: "poller_pc \<Rightarrow> string list" where
  "poller_keys (PollerPoll ks) = ks"
| "poller_keys (PollerItems ks) = ks"
| "poller_keys (PollerReceive k ks) = k # ks"
| "poller_keys _ = []"

text \<open>
  What holds along every run from \<open>stop_called n\<^sub>0\<close>: the members of \<open>Impl\<close> are what the point of \<open>Stop\<close>
  says, the mutex is held by whoever is in a guarded block and by one thread only, the poll items are
  dealers that existed at the call, and a joined thread has ended.
\<close>
definition shut_inv :: "'ui NetImpl \<Rightarrow> 'ui shutdown \<Rightarrow> bool" where
  "shut_inv n\<^sub>0 s \<longleftrightarrow>
     (let l = stop_line (stopPc s); n = net s in
      running n = (l < 2) \<and>
      dealerSockets n = (if l \<le> 3 then dealerSockets n\<^sub>0 else []) \<and>
      socketOpen s = (l \<le> 5) \<and> routerSocket n = (l \<le> 6) \<and>
      routerThread n = (l \<le> 7) \<and> pollerThread n = (l \<le> 8) \<and>
      (routerPc s = RouterEnded \<longrightarrow> 2 \<le> l) \<and> (7 < l \<longrightarrow> routerPc s = RouterEnded) \<and>
      (pollerPc s = PollerEnded \<longrightarrow> 2 \<le> l) \<and> (8 < l \<longrightarrow> pollerPc s = PollerEnded) \<and>
      (poller_faulted (pollerPc s) \<or> socketsMutex n = (stopPc s = StopClear \<or> poller_holds (pollerPc s))) \<and>
      \<not> (stopPc s = StopClear \<and> poller_holds (pollerPc s)) \<and>
      set (poller_keys (pollerPc s)) \<subseteq> fst ` set (dealerSockets n\<^sub>0) \<and>
      ((\<exists>w. pollerPc s = PollerCatch w) \<longrightarrow> dealerSockets n\<^sub>0 \<noteq> []))"

section \<open>Lemmas\<close>

subsection \<open>Frames and the members that Stop changes\<close>

text \<open>\<open>n\<close> with the members that \<open>Stop\<close> and the guards change set back to what they are in \<open>n\<^sub>0\<close>.\<close>
definition unstopped :: "'ui NetImpl \<Rightarrow> 'ui NetImpl \<Rightarrow> 'ui NetImpl" where
  "unstopped n\<^sub>0 n = n\<lparr>routerSocket := routerSocket n\<^sub>0, dealerSockets := dealerSockets n\<^sub>0,
     socketsMutex := socketsMutex n\<^sub>0, routerThread := routerThread n\<^sub>0, pollerThread := pollerThread n\<^sub>0,
     running := running n\<^sub>0\<rparr>"

lemma unstopped_simps [simp]:
  "peerManager (unstopped n\<^sub>0 n) = peerManager n" "userInterface (unstopped n\<^sub>0 n) = userInterface n"
  "userMessageHandler (unstopped n\<^sub>0 n) = userMessageHandler n" "connectionHandler (unstopped n\<^sub>0 n) = connectionHandler n"
  "routerSocket (unstopped n\<^sub>0 n) = routerSocket n\<^sub>0" "dealerSockets (unstopped n\<^sub>0 n) = dealerSockets n\<^sub>0"
  "socketsMutex (unstopped n\<^sub>0 n) = socketsMutex n\<^sub>0" "running (unstopped n\<^sub>0 n) = running n\<^sub>0"
  "routerThread (unstopped n\<^sub>0 n) = routerThread n\<^sub>0" "pollerThread (unstopped n\<^sub>0 n) = pollerThread n\<^sub>0"
  by (simp_all add: unstopped_def)

lemma unstopped_updates [simp]:
  "unstopped n\<^sub>0 (set_mutex b n) = unstopped n\<^sub>0 n" "unstopped n\<^sub>0 (n\<lparr>running := b\<rparr>) = unstopped n\<^sub>0 n"
  "unstopped n\<^sub>0 (n\<lparr>dealerSockets := d\<rparr>) = unstopped n\<^sub>0 n" "unstopped n\<^sub>0 (n\<lparr>routerSocket := b\<rparr>) = unstopped n\<^sub>0 n"
  "unstopped n\<^sub>0 (n\<lparr>routerThread := b\<rparr>) = unstopped n\<^sub>0 n" "unstopped n\<^sub>0 (n\<lparr>pollerThread := b\<rparr>) = unstopped n\<^sub>0 n"
  "unstopped n\<^sub>0 (log_error l n) = log_error l (unstopped n\<^sub>0 n)" "unstopped n n = n"
  by (simp_all add: unstopped_def set_mutex_def log_error_def)

lemma set_mutex_unstopped: "set_mutex b (unstopped n\<^sub>0 n) = unstopped (set_mutex b n\<^sub>0) n"
  by (simp add: unstopped_def set_mutex_def)

text \<open>The router socket is as it was, or sends through it fail.\<close>
definition sends_agree :: "znv \<Rightarrow> 'ui NetImpl \<Rightarrow> 'ui NetImpl \<Rightarrow> bool" where
  "sends_agree e n\<^sub>0 n \<longleftrightarrow> routerSocket n = routerSocket n\<^sub>0 \<or> (\<forall>more d. \<exists>w. zmq_send e RouterSocket more d = SendFails w)"

lemma SendViaRouter_unstopped:
  assumes "sends_agree e n\<^sub>0 n"
  shows "SendViaRouter e k msg (unstopped n\<^sub>0 n) = unstopped n\<^sub>0 (SendViaRouter e k msg n)"
proof (cases "routerSocket n = routerSocket n\<^sub>0")
  case True
  then show ?thesis
    by (auto simp: SendViaRouter_def Let_def send_frame_def unstopped_def split: send_result.split)
next
  case False
  then obtain w where "zmq_send e RouterSocket True (string_to_bytes k) = SendFails w"
    using assms unfolding sends_agree_def by blast
  then show ?thesis by (simp add: SendViaRouter_def Let_def)
qed

lemma process_frame_unstopped:
  assumes "sends_agree e n\<^sub>0 n"
  shows "process_frame e k data (unstopped n\<^sub>0 n) = map_state (unstopped n\<^sub>0) (process_frame e k data n)"
proof -
  have connection: "notify_connection e k c (unstopped n\<^sub>0 m) = unstopped n\<^sub>0 (notify_connection e k c m)"
    and message: "notify_message e k msg (unstopped n\<^sub>0 m) = unstopped n\<^sub>0 (notify_message e k msg m)"
    and added: "unstopped n\<^sub>0 m\<lparr>peerManager := pm\<rparr> = unstopped n\<^sub>0 (m\<lparr>peerManager := pm\<rparr>)" for k c msg m pm
    by (auto simp: notify_connection_def notify_message_def Let_def unstopped_def split: option.split prod.split)
  have agree: "sends_agree e n\<^sub>0 (notify_connection e j c (n\<lparr>peerManager := pm\<rparr>))" for j c pm
    using assms by (simp add: sends_agree_def)
  show ?thesis
    by (auto simp: process_frame_def HandleMessage_def receive_handshake_def Let_def connection message added
        SendViaRouter_unstopped [OF agree] split: sum.split option.split prod.split)
qed

text \<open>So the processing of a frame changes none of the members that \<open>Stop\<close> changes.\<close>
lemma process_frame_members:
  assumes "process_frame e k data n = Returns u m"
  shows "running m = running n \<and> routerSocket m = routerSocket n \<and> dealerSockets m = dealerSockets n \<and>
    socketsMutex m = socketsMutex n \<and> routerThread m = routerThread n \<and> pollerThread m = pollerThread n"
proof -
  have "sends_agree e n n" by (simp add: sends_agree_def)
  from process_frame_unstopped [OF this, of k data] assms have "m = unstopped n m" by simp
  then show ?thesis by (metis unstopped_simps)
qed

lemma process_frame_undefined: "process_frame e k data n = Raises f m \<Longrightarrow> m = n"
  using process_frame_ends [of e k data n] by auto

lemma process_frame_not_Blocks: "process_frame e k data n \<noteq> Blocks m"
  using process_frame_keeps [of e k data n] by auto

subsection \<open>The invariant\<close>

lemma shut_inv_start: "net_started n \<Longrightarrow> shut_inv n (stop_called n)"
  by (simp add: net_started_def shut_inv_def stop_called_def Let_def)

lemma faulted_holds_not [simp]: "poller_faulted pc \<Longrightarrow> \<not> poller_holds pc"
  by (cases pc) simp_all

lemma stop_step_keeps:
  assumes "shut_inv n\<^sub>0 s" and "stop_step s = Some t"
  shows "shut_inv n\<^sub>0 t"
  using assms
  by (cases "stopPc s"; clarsimp simp: stop_step_def shut_inv_def Let_def split: if_splits)

lemma router_step_keeps:
  assumes "shut_inv n\<^sub>0 s" and "router_step e p r s = Some t"
  shows "shut_inv n\<^sub>0 t"
proof (cases "routerPc s")
  case (RouterProcess identity data)
  then consider (returns) m where
      "process_frame (router_env (socketOpen s) e) (bytes_to_string identity) data (net s) = Returns () m"
      "t = s\<lparr>net := m, routerPc := RouterHead\<rparr>"
    | (raises) f where "t = s\<lparr>routerPc := RouterFault f\<rparr>"
    using assms(2) by (auto simp: router_step_def Let_def dest: process_frame_undefined split: outcome.splits)
  then show ?thesis
  proof cases
    case returns
    then show ?thesis
      using process_frame_members [OF returns(1)] assms(1) RouterProcess by (auto simp: shut_inv_def Let_def)
  next
    case raises
    then show ?thesis using assms(1) RouterProcess by (auto simp: shut_inv_def Let_def)
  qed
qed (use assms in \<open>clarsimp simp: router_step_def router_recv_def shut_inv_def Let_def log_error_def
        split: if_splits poll_result.splits recv_result.splits\<close>)+

lemma poller_receive_cases:
  assumes "poller_receive e r k ks s = Some t"
  obtains (released) pc where "t = s\<lparr>net := set_mutex False (net s), pollerPc := pc\<rparr>"
      "pc = PollerItems ks \<or> (\<exists>w. pc = PollerCatch w)" "(\<exists>w. pc = PollerCatch w) \<longrightarrow> umap_find k (dealerSockets (net s)) \<noteq> None"
    | (handled) data m where "process_frame (router_env (socketOpen s) e) k data (net s) = Returns () m"
      "umap_find k (dealerSockets (net s)) \<noteq> None"
      "t = s\<lparr>net := set_mutex False m, pollerPc := PollerItems ks\<rparr>"
    | (undefined) f where "t = s\<lparr>pollerPc := PollerFault f\<rparr>"
  using assms
  by (auto simp: poller_receive_def Let_def dest: process_frame_undefined
      split: option.splits recv_result.splits outcome.splits)

lemma poller_step_keeps:
  assumes "shut_inv n\<^sub>0 s" and "permutes_keys e" and "poller_step e q r s = Some t"
  shows "shut_inv n\<^sub>0 t"
proof (cases "pollerPc s")
  case (PollerReceive k ks)
  then have "poller_receive e r k ks s = Some t"
    using assms(3) by (simp add: poller_step_def Let_def)
  then show ?thesis
  proof (cases rule: poller_receive_cases)
    case (released pc)
    then show ?thesis
      using assms(1) PollerReceive by (auto simp: shut_inv_def Let_def umap_find_None_iff split: if_splits)
  next
    case (handled data m)
    then show ?thesis
      using process_frame_members [OF handled(1)] assms(1) PollerReceive by (auto simp: shut_inv_def Let_def)
  next
    case (undefined f)
    then show ?thesis using assms(1) PollerReceive by (auto simp: shut_inv_def Let_def)
  qed
next
  case PollerCollect
  then show ?thesis
    using assms umap_items_keys(1) [OF assms(2), of "dealerSockets (net s)"]
    by (clarsimp simp: poller_step_def shut_inv_def Let_def split: if_splits)
next
  case (PollerPoll ks)
  then show ?thesis
    using assms by (clarsimp simp: poller_step_def shut_inv_def Let_def split: if_splits poll_result.splits) auto
next
  case (PollerItems ks)
  then show ?thesis
    using assms by (cases ks) (clarsimp simp: poller_step_def shut_inv_def Let_def image_iff split: if_splits; force)+
qed (use assms in \<open>clarsimp simp: poller_step_def shut_inv_def Let_def log_error_def split: if_splits\<close>)+

interpretation shut: step_invariant shutdown_step "shut_inv n\<^sub>0" for n\<^sub>0 :: "'ui NetImpl"
  by unfold_locales (auto elim!: shutdown_stepE intro: stop_step_keeps router_step_keeps poller_step_keeps)

lemma shut_inv_run: "net_started n \<Longrightarrow> shutdown_step\<^sup>*\<^sup>* (stop_called n) s \<Longrightarrow> shut_inv n s"
  using shut_inv_start shut.run_keeps by blast

subsection \<open>The coarse turns\<close>

text \<open>A turn of one of the two loops as \<open>Network\<close> has it, in one step.\<close>
definition loop_turn :: "'ui NetImpl \<Rightarrow> 'ui NetImpl \<Rightarrow> bool" where
  "loop_turn n m \<longleftrightarrow>
     (\<exists>e ev. run_call e (TurnRouter ev) n = Returns () m) \<or> (\<exists>e ev. run_call e (TurnPoller ev) n = Returns () m)"

fun is_turn :: "net_call \<Rightarrow> bool" where
  "is_turn (TurnRouter ev) = True"
| "is_turn (TurnPoller ev) = True"
| "is_turn _ = False"

lemma loop_turns_run_calls:
  assumes "loop_turn\<^sup>*\<^sup>* n m"
  shows "\<exists>cs. list_all (is_turn \<circ> snd) cs \<and> m = run_calls cs n"
  using assms
proof (induction rule: rtranclp_induct)
  case base
  have "list_all (is_turn \<circ> snd) [] \<and> n = run_calls [] n" by (simp add: run_calls_def)
  then show ?case by blast
next
  case (step m k)
  then obtain cs where cs: "list_all (is_turn \<circ> snd) cs" "m = run_calls cs n" by blast
  from step.hyps(2) obtain e c where "is_turn c" "run_call e c m = Returns () k"
    unfolding loop_turn_def by (metis is_turn.simps(1,2))
  with cs have "list_all (is_turn \<circ> snd) (cs @ [(e, c)]) \<and> k = run_calls (cs @ [(e, c)]) n"
    by (simp add: run_calls_def)
  then show ?case by blast
qed

lemma router_env_simps [simp]:
  "permutes_keys (router_env b e) = permutes_keys e" "router_env True e = e"
  "zmq_send (router_env False e) RouterSocket m d = SendFails not_a_socket"
  by (simp_all add: router_env_def permutes_keys_def)

lemma sends_agree_inv:
  assumes "net_started n\<^sub>0" and "shut_inv n\<^sub>0 s"
  shows "sends_agree (router_env (socketOpen s) e) n\<^sub>0 (net s)"
proof (cases "socketOpen s")
  case True
  then show ?thesis using assms by (simp add: sends_agree_def net_started_def shut_inv_def Let_def)
qed (simp add: sends_agree_def)

lemma stop_step_hidden: "stop_step s = Some t \<Longrightarrow> unstopped n\<^sub>0 (net t) = unstopped n\<^sub>0 (net s)"
  by (auto simp: stop_step_def Let_def split: stop_pc.splits if_splits)

lemma router_log_turn:
  assumes "net_started n"
  shows "loop_turn (unstopped n m) (log_error (''Router error: '' @ w) (unstopped n m))"
proof -
  have "run_call e (TurnRouter (RouterPollFails w)) (unstopped n m)
      = Returns () (log_error (''Router error: '' @ w) (unstopped n m))" for e
    using assms by (simp add: net_started_def route_turn_def)
  then show ?thesis unfolding loop_turn_def by blast
qed

lemma poller_log_turn:
  assumes "net_started n" and "dealerSockets n \<noteq> []" and "permutes_keys (e :: znv)"
  shows "loop_turn (unstopped n m) (log_error (''Poll error: '' @ w) (unstopped n m))"
proof -
  have "run_call e (TurnPoller (PollerPollFails w)) (unstopped n m)
      = Returns () (log_error (''Poll error: '' @ w) (unstopped n m))"
    using assms by (simp add: net_started_def poll_turn_free umap_items_Nil_iff)
  then show ?thesis unfolding loop_turn_def by blast
qed

text \<open>A turn in which one dealer alone is readable handles its frame and nothing else.\<close>
lemma for_each_single:
  assumes "distinct xs" and "x \<in> set xs" and "\<And>y s. y \<noteq> x \<Longrightarrow> f y s = Returns () s"
  shows "for_each f xs s = f x s"
  using assms(1,2)
proof (induction xs arbitrary: s)
  case (Cons y xs)
  have others: "for_each f ys s = Returns () s" if "x \<notin> set ys" for ys s
    using that assms(3) by (induction ys) auto
  show ?case
  proof (cases "x = y")
    case True
    then have "x \<notin> set xs" using Cons.prems by simp
    with True others show ?thesis by (cases "f y s") simp_all
  next
    case False
    then show ?thesis using Cons assms(3) by simp
  qed
qed simp

lemma single_dealer_turn:
  assumes "net_started n" and "permutes_keys e" and "k \<in> fst ` set (dealerSockets n)"
    and "process_frame e k data (unstopped (set_mutex True n) m) = Returns () m'"
  shows "loop_turn (unstopped n m) (set_mutex False m')"
proof -
  let ?ready = "\<lambda>j. if j = k then Some (Received data) else None"
  let ?keys = "map fst (umap_items e (dealerSockets n))"
  have "distinct ?keys" and "k \<in> set ?keys" and "?keys \<noteq> []"
    using assms umap_items_keys(1) [OF assms(2), of "dealerSockets n"]
    by (auto simp: net_started_def umap.distinct_items)
  then have "for_each (poll_dealer e ?ready) ?keys (unstopped n m) = poll_dealer e ?ready k (unstopped n m)"
    by (intro for_each_single) (simp_all add: poll_dealer_def)
  moreover have "poll_dealer e ?ready k (unstopped n m) = Returns () (set_mutex False m')"
    using assms by (auto simp: poll_dealer_def net_started_def set_mutex_unstopped umap_find_None_iff split: option.split)
  ultimately have "run_call e (TurnPoller (DealersReadable ?ready)) (unstopped n m) = Returns () (set_mutex False m')"
    using assms(1) \<open>?keys \<noteq> []\<close> by (simp add: net_started_def poll_turn_free)
  then show ?thesis unfolding loop_turn_def by blast
qed

lemma router_step_simulated:
  assumes "net_started n\<^sub>0" and "shut_inv n\<^sub>0 s" and "router_step e p r s = Some t"
  shows "unstopped n\<^sub>0 (net t) = unstopped n\<^sub>0 (net s) \<or> loop_turn (unstopped n\<^sub>0 (net s)) (unstopped n\<^sub>0 (net t))"
proof (cases "routerPc s")
  case (RouterProcess identity data)
  let ?e = "router_env (socketOpen s) e" and ?k = "bytes_to_string identity"
  consider m where "process_frame ?e ?k data (net s) = Returns () m" "net t = m" | "net t = net s"
    using assms(3) RouterProcess
    by (auto simp: router_step_def Let_def dest: process_frame_undefined split: outcome.splits)
  then show ?thesis
  proof cases
    case (1 m)
    then have "process_frame ?e ?k data (unstopped n\<^sub>0 (net s)) = Returns () (unstopped n\<^sub>0 m)"
      using process_frame_unstopped [OF sends_agree_inv [OF assms(1,2)]] by simp
    then have "run_call ?e (TurnRouter (RouterReadable (Received identity) (Received data))) (unstopped n\<^sub>0 (net s))
        = Returns () (unstopped n\<^sub>0 m)"
      using assms(1) by (simp add: net_started_def route_turn_def)
    then show ?thesis using 1(2) unfolding loop_turn_def by blast
  qed simp
next
  case (RouterCatch w)
  then have "net t = (if running (net s) then log_error (''Router error: '' @ w) (net s) else net s)"
    using assms(3) by (auto simp: router_step_def Let_def)
  then show ?thesis using router_log_turn [OF assms(1), of "net s" w] by (simp del: append.simps)
qed (use assms(3) in \<open>auto simp: router_step_def Let_def\<close>)

lemma poller_step_simulated:
  assumes "net_started n\<^sub>0" and "shut_inv n\<^sub>0 s" and "permutes_keys e" and "poller_step e q r s = Some t"
  shows "unstopped n\<^sub>0 (net t) = unstopped n\<^sub>0 (net s) \<or> loop_turn (unstopped n\<^sub>0 (net s)) (unstopped n\<^sub>0 (net t))"
proof (cases "pollerPc s")
  case (PollerReceive k ks)
  then have "poller_receive e r k ks s = Some t"
    using assms(4) by (simp add: poller_step_def Let_def)
  then show ?thesis
  proof (cases rule: poller_receive_cases)
    case (handled data m)
    let ?e = "router_env (socketOpen s) e" and ?n = "set_mutex True n\<^sub>0"
    have "sends_agree ?e ?n (net s)"
      using sends_agree_inv [OF assms(1,2), of e] by (simp add: sends_agree_def)
    then have "process_frame ?e k data (unstopped ?n (net s)) = Returns () (unstopped ?n m)"
      using process_frame_unstopped handled(1) by fastforce
    moreover have "k \<in> fst ` set (dealerSockets n\<^sub>0)"
      using assms(2) PollerReceive by (simp add: shut_inv_def Let_def)
    ultimately have "loop_turn (unstopped n\<^sub>0 (net s)) (set_mutex False (unstopped ?n m))"
      using assms(1,3) by (intro single_dealer_turn [where e = ?e]) simp_all
    moreover have "set_mutex False (unstopped ?n m) = unstopped n\<^sub>0 m"
      using assms(1) by (simp add: net_started_def unstopped_def set_mutex_def)
    ultimately show ?thesis using handled(3) by simp
  qed simp_all
next
  case (PollerCatch w)
  then have "net t = (if running (net s) then log_error (''Poll error: '' @ w) (net s) else net s)"
    using assms(4) by (auto simp: poller_step_def Let_def)
  moreover have "dealerSockets n\<^sub>0 \<noteq> []"
    using assms(2) PollerCatch by (simp add: shut_inv_def Let_def)
  ultimately show ?thesis using poller_log_turn [OF assms(1) _ assms(3), of "net s" w] by (simp del: append.simps)
next
  case (PollerItems ks)
  then show ?thesis using assms(4) by (cases ks) (auto simp: poller_step_def Let_def split: if_splits)
qed (use assms(4) in \<open>auto simp: poller_step_def Let_def split: if_splits\<close>)

text \<open>The three threads implement whole turns, one after the other.\<close>
interpretation turns: stepwise_simulation shutdown_step "\<lambda>s. net_started n\<^sub>0 \<and> shut_inv n\<^sub>0 s"
    "\<lambda>s. unstopped n\<^sub>0 (net s)" loop_turn for n\<^sub>0 :: "'ui NetImpl"
proof unfold_locales
  fix s t :: "'ui shutdown"
  assume inv: "net_started n\<^sub>0 \<and> shut_inv n\<^sub>0 s" and step: "shutdown_step s t"
  show "net_started n\<^sub>0 \<and> shut_inv n\<^sub>0 t"
    using inv step shut.step_keeps by blast
  show "unstopped n\<^sub>0 (net t) = unstopped n\<^sub>0 (net s) \<or> loop_turn (unstopped n\<^sub>0 (net s)) (unstopped n\<^sub>0 (net t))"
    using step inv by (elim shutdown_stepE) (metis stop_step_hidden router_step_simulated poller_step_simulated)+
qed

subsection \<open>The end of a shutdown\<close>

fun router_rank :: "router_pc \<Rightarrow> nat" where
  "router_rank RouterEnded = 0"
| "router_rank (RouterFault f) = 0"
| "router_rank RouterHead = 1"
| "router_rank (RouterCatch w) = 2"
| "router_rank (RouterProcess i d) = 2"
| "router_rank (RouterRecvFrame i) = 3"
| "router_rank RouterRecvIdentity = 4"
| "router_rank (RouterPoll b) = 5"
| "router_rank RouterHandle = 6"

text \<open>The poller has at most two steps per dealer, for those listed or still to be listed.\<close>
fun poller_rank :: "nat \<Rightarrow> poller_pc \<Rightarrow> nat" where
  "poller_rank d PollerEnded = 0"
| "poller_rank d (PollerFault f) = 0"
| "poller_rank d PollerHead = 1"
| "poller_rank d (PollerCatch w) = 2"
| "poller_rank d (PollerItems ks) = 2 + 2 * length ks"
| "poller_rank d (PollerReceive k ks) = 3 + 2 * length ks"
| "poller_rank d (PollerPoll ks) = 3 + 2 * length ks"
| "poller_rank d PollerCollect = 4 + 2 * d"
| "poller_rank d PollerLock = 5 + 2 * d"

definition shutdown_rank :: "'ui shutdown \<Rightarrow> nat" where
  "shutdown_rank s = (9 - stop_line (stopPc s)) + router_rank (routerPc s)
     + poller_rank (length (dealerSockets (net s))) (pollerPc s)"

lemma stop_step_rank: "stop_step s = Some t \<Longrightarrow> shutdown_rank t < shutdown_rank s"
  by (cases "stopPc s"; cases "pollerPc s")
    (auto simp: stop_step_def shutdown_rank_def Let_def split: if_splits)

lemma router_step_rank:
  assumes "router_step e p r s = Some t" and "\<not> running (net s)"
  shows "shutdown_rank t < shutdown_rank s \<and> \<not> running (net t)"
proof (cases "routerPc s")
  case (RouterProcess identity data)
  then show ?thesis
    using assms
    by (auto simp: router_step_def shutdown_rank_def Let_def
        dest: process_frame_undefined process_frame_members split: outcome.splits)
qed (use assms in \<open>auto simp: router_step_def router_recv_def shutdown_rank_def Let_def
        split: if_splits poll_result.splits recv_result.splits\<close>)

lemma poller_step_rank:
  assumes "permutes_keys e" and "poller_step e q r s = Some t" and "\<not> running (net s)"
  shows "shutdown_rank t < shutdown_rank s \<and> \<not> running (net t)"
proof (cases "pollerPc s")
  case (PollerReceive k ks)
  then have "poller_receive e r k ks s = Some t"
    using assms(2) by (simp add: poller_step_def Let_def)
  then show ?thesis
    by (cases rule: poller_receive_cases)
      (use assms(3) PollerReceive in \<open>auto simp: shutdown_rank_def dest: process_frame_members\<close>)
next
  case (PollerPoll ks)
  have "length (filter f ks) \<le> length ks" for f by (rule length_filter_le)
  then show ?thesis
    using assms PollerPoll
    by (auto simp: poller_step_def shutdown_rank_def Let_def less_Suc_eq_le split: if_splits poll_result.splits)
next
  case (PollerItems ks)
  then show ?thesis
    using assms by (cases ks) (auto simp: poller_step_def shutdown_rank_def Let_def split: if_splits)
qed (use assms in \<open>auto simp: poller_step_def shutdown_rank_def Let_def umap_items_keys split: if_splits\<close>)

text \<open>Once the flag is cleared no thread can go round its loop again.\<close>
interpretation closing: ranked_steps shutdown_step "\<lambda>s. shut_inv n\<^sub>0 s \<and> \<not> running (net s)" shutdown_rank
  for n\<^sub>0 :: "'ui NetImpl"
proof unfold_locales
  fix s t :: "'ui shutdown"
  assume inv: "shut_inv n\<^sub>0 s \<and> \<not> running (net s)" and step: "shutdown_step s t"
  have "shut_inv n\<^sub>0 t" using inv step shut.step_keeps by blast
  moreover have "\<not> running (net t) \<and> shutdown_rank t < shutdown_rank s"
    using step
  proof (cases rule: shutdown_step.cases)
    case stop_moves
    then have "running (net t) \<longrightarrow> running (net s)"
      by (auto simp: stop_step_def Let_def split: stop_pc.splits if_splits)
    with inv stop_step_rank [OF stop_moves] show ?thesis by blast
  qed (use inv router_step_rank poller_step_rank in blast)+
  ultimately show "shut_inv n\<^sub>0 t \<and> \<not> running (net t)" and "shutdown_rank t < shutdown_rank s" by blast+
qed

text \<open>A thread that is at no fault and has not ended has a step, unless it waits for the mutex or a join.\<close>
lemma router_enabled:
  "routerPc s \<noteq> RouterEnded \<Longrightarrow> \<not> router_faulted (routerPc s) \<Longrightarrow> \<exists>t. router_step e p r s = Some t"
  by (cases "routerPc s") (auto simp: router_step_def Let_def process_frame_not_Blocks split: outcome.split)

lemma poller_enabled:
  assumes "pollerPc s \<noteq> PollerEnded" and "\<not> poller_faulted (pollerPc s)"
    and "poller_holds (pollerPc s) \<or> \<not> socketsMutex (net s)"
  shows "\<exists>t. poller_step e q r s = Some t"
proof (cases "pollerPc s")
  case (PollerItems ks)
  then show ?thesis using assms by (cases ks) (auto simp: poller_step_def Let_def)
qed (use assms in \<open>auto simp: poller_step_def poller_receive_def Let_def process_frame_not_Blocks
        split: outcome.split option.split recv_result.split\<close>)

text \<open>The states without a step: \<open>Stop\<close> has returned, or a thread is at a fault.\<close>
lemma shutdown_stuck:
  assumes "shut_inv n\<^sub>0 s" and "stuck shutdown_step s"
  shows "router_faulted (routerPc s) \<or> poller_faulted (pollerPc s) \<or> stopPc s = StopReturned"
proof (rule ccontr)
  assume "\<not> ?thesis"
  then have live: "\<not> router_faulted (routerPc s)" "\<not> poller_faulted (pollerPc s)" "stopPc s \<noteq> StopReturned"
    by simp_all
  have no_stop: "stop_step s = None" and no_router: "router_step e p r s = None" for e p r
    using assms(2) unfolding stuck_def by (metis not_None_eq stop_moves router_moves)+
  have no_poller: "poller_step example_znv q r s = None" for q r
    using assms(2) unfolding stuck_def by (metis not_None_eq poller_moves example_znv_simps(1))
  have router: "routerPc s = RouterEnded"
    using router_enabled live(1) no_router by (metis option.distinct(1))
  show False
  proof (cases "poller_holds (pollerPc s) \<or> \<not> socketsMutex (net s)")
    case True
    then have poller: "pollerPc s = PollerEnded"
      using poller_enabled live(2) no_poller by (metis option.distinct(1))
    then have "stop_step s \<noteq> None"
      using assms(1) live(3) router by (cases "stopPc s") (simp_all add: stop_step_def shut_inv_def Let_def)
    with no_stop show False by simp
  next
    case False
    then have "stopPc s = StopClear" using assms(1) live(2) by (simp add: shut_inv_def Let_def)
    with no_stop show False by (simp add: stop_step_def Let_def)
  qed
qed

subsection \<open>Faults\<close>

text \<open>A thread without a socket to lose: the router between two turns, the poller without a dealer.\<close>
definition settled :: "'ui NetImpl \<Rightarrow> 'ui shutdown \<Rightarrow> bool" where
  "settled n\<^sub>0 s \<longleftrightarrow> shut_inv n\<^sub>0 s \<and> \<not> running (net s) \<and> routerPc s \<in> {RouterHead, RouterEnded} \<and>
     pollerPc s \<in> {PollerHead, PollerEnded}"

interpretation settling: step_invariant shutdown_step "settled n\<^sub>0" for n\<^sub>0 :: "'ui NetImpl"
proof unfold_locales
  fix s t :: "'ui shutdown"
  assume s: "settled n\<^sub>0 s" and step: "shutdown_step s t"
  have "shut_inv n\<^sub>0 t \<and> \<not> running (net t)"
    using closing.step_keeps s step unfolding settled_def by blast
  moreover have "routerPc t \<in> {RouterHead, RouterEnded} \<and> pollerPc t \<in> {PollerHead, PollerEnded}"
    using step
  proof (cases rule: shutdown_step.cases)
    case stop_moves
    then have "routerPc t = routerPc s \<and> pollerPc t = pollerPc s"
      by (auto simp: stop_step_def Let_def split: stop_pc.splits if_splits)
    with s show ?thesis by (simp add: settled_def)
  qed (use s in \<open>auto simp: settled_def router_step_def poller_step_def Let_def\<close>)
  ultimately show "settled n\<^sub>0 t" by (simp add: settled_def)
qed

lemma poller_step_fault:
  assumes "shut_inv n\<^sub>0 s" and "dealerSockets n\<^sub>0 = []" and "poller_step e q r s = Some t"
    and "\<not> poller_faulted (pollerPc s)"
  shows "\<not> poller_faulted (pollerPc t)"
proof -
  have "poller_keys (pollerPc s) = []" using assms(1,2) by (simp add: shut_inv_def Let_def)
  then show ?thesis
    using assms(3,4) by (cases "pollerPc s") (auto simp: poller_step_def Let_def split: if_splits)
qed

interpretation idle_poller: step_invariant shutdown_step
    "\<lambda>s. shut_inv n\<^sub>0 s \<and> dealerSockets n\<^sub>0 = [] \<and> \<not> poller_faulted (pollerPc s)" for n\<^sub>0 :: "'ui NetImpl"
proof unfold_locales
  fix s t :: "'ui shutdown"
  assume s: "shut_inv n\<^sub>0 s \<and> dealerSockets n\<^sub>0 = [] \<and> \<not> poller_faulted (pollerPc s)" and step: "shutdown_step s t"
  have "shut_inv n\<^sub>0 t" using s step shut.step_keeps by blast
  moreover have "\<not> poller_faulted (pollerPc t)"
    using step
  proof (cases rule: shutdown_step.cases)
    case poller_moves
    then show ?thesis using s poller_step_fault by blast
  next
    case stop_moves
    then have "pollerPc t = pollerPc s"
      by (auto simp: stop_step_def Let_def split: stop_pc.splits if_splits)
    with s show ?thesis by simp
  next
    case (router_moves e p r)
    then have "pollerPc t = pollerPc s"
      by (auto simp: router_step_def Let_def split: router_pc.splits outcome.splits)
    with s show ?thesis by simp
  qed
  ultimately show "shut_inv n\<^sub>0 t \<and> dealerSockets n\<^sub>0 = [] \<and> \<not> poller_faulted (pollerPc t)"
    using s by blast
qed

text \<open>What a schedule computes is a run.\<close>
lemma run_schedule_steps:
  assumes "run_schedule as s = Some t" and "list_all fair_move as"
  shows "shutdown_step\<^sup>*\<^sup>* s t"
  using assms
proof (induction as arbitrary: s)
  case Nil
  then show ?case by simp
next
  case (Cons a as)
  then obtain u where "make_move a s = Some u" and "run_schedule as u = Some t"
    by (auto split: option.splits)
  moreover from this Cons.prems have "shutdown_step s u"
    by (cases a) (auto intro: shutdown_step.intros)
  ultimately show ?case using Cons by (auto intro: converse_rtranclp_into_rtranclp)
qed

section \<open>Properties\<close>

definition example_running :: "unit NetImpl" where
  "example_running = final_state (Start example_znv 8080 example_net)"

lemma example_running_simps [simp]:
  "running example_running" "routerSocket example_running" "routerThread example_running"
  "pollerThread example_running" "\<not> socketsMutex example_running" "dealerSockets example_running = []"
  by (simp_all add: example_running_def Start_def Let_def)

lemma example_started: "net_started example_running"
  by (simp add: net_started_def umap.wf_empty)

text \<open>The flag is cleared with both threads between turns; they end; \<open>Stop\<close> does the rest.\<close>
definition example_flag_cleared :: "unit shutdown" where
  "example_flag_cleared = \<lparr>net = example_running\<lparr>running := False\<rparr>, socketOpen = True, stopPc = StopLock,
     routerPc = RouterHead, pollerPc = PollerHead\<rparr>"

definition example_rest :: "move list" where
  "example_rest = [MoveRouter example_znv (PollReports False) NothingReceived,
     MovePoller example_znv (PollReports (\<lambda>_. False)) NothingReceived] @ replicate 7 MoveStop"

lemma example_flag_run: "shutdown_step\<^sup>*\<^sup>* (stop_called example_running) example_flag_cleared"
  by (rule run_schedule_steps [where as = "[MoveStop, MoveStop]"])
    (simp_all add: example_flag_cleared_def stop_called_def stop_step_def Let_def)

lemma example_rest_run:
  "\<exists>s. shutdown_step\<^sup>*\<^sup>* example_flag_cleared s \<and> stopPc s = StopReturned"
proof -
  have "\<exists>s. run_schedule example_rest example_flag_cleared = Some s \<and> stopPc s = StopReturned"
    by (simp add: example_rest_def numeral_eq_Suc example_flag_cleared_def stop_step_def router_step_def
        poller_step_def Let_def)
  moreover have "list_all fair_move example_rest"
    by (simp add: example_rest_def numeral_eq_Suc)
  ultimately show ?thesis using run_schedule_steps by blast
qed

text \<open>
  C5: Stopping at the grain of single accesses does what \<open>Stop\<close> does in one piece. However the
  steps of \<open>Stop\<close> interleave with those of the two threads, when it has returned the manager is in
  a state that whole turns of the loops, one after the other and followed by \<open>Stop\<close>, lead to; both
  threads have ended, and no lock is held.
\<close>
theorem stop_linearizable:
  assumes "net_started n" and "shutdown_step\<^sup>*\<^sup>* (stop_called n) s" and "stopPc s = StopReturned"
  shows "\<exists>cs. list_all (is_turn \<circ> snd) cs \<and> Stop (run_calls cs n) = Returns () (net s) \<and>
    routerPc s = RouterEnded \<and> pollerPc s = PollerEnded \<and> \<not> socketsMutex (net s)"
proof -
  have start: "net_started n \<and> shut_inv n (stop_called n)" using assms(1) shut_inv_start by blast
  have "loop_turn\<^sup>*\<^sup>* n (unstopped n (net s))"
    using turns.run_simulated [OF assms(2) start] by (simp add: stop_called_def)
  then obtain cs where cs: "list_all (is_turn \<circ> snd) cs" "unstopped n (net s) = run_calls cs n"
    using loop_turns_run_calls by blast
  have "shut_inv n s" using assms(1,2) by (rule shut_inv_run)
  then have ended: "routerPc s = RouterEnded" "pollerPc s = PollerEnded" "\<not> socketsMutex (net s)"
    and members: "\<not> running (net s)" "\<not> routerSocket (net s)" "dealerSockets (net s) = []"
      "\<not> routerThread (net s)" "\<not> pollerThread (net s)"
    using assms(3) by (auto simp: shut_inv_def Let_def)
  have "Stop (unstopped n (net s)) = Returns () (net s)"
    using assms(1) ended members by (simp add: Stop_def net_started_def unstopped_def set_mutex_def)
  with cs ended show ?thesis by metis
qed

theorem stop_linearizable_witness:
  "\<exists>s cs. shutdown_step\<^sup>*\<^sup>* (stop_called example_running) s \<and> stopPc s = StopReturned \<and>
    list_all (is_turn \<circ> snd) cs \<and> Stop (run_calls cs example_running) = Returns () (net s)"
proof -
  obtain s where rest: "shutdown_step\<^sup>*\<^sup>* example_flag_cleared s" and stopped: "stopPc s = StopReturned"
    using example_rest_run by blast
  have "shutdown_step\<^sup>*\<^sup>* (stop_called example_running) s"
    using example_flag_run rest by (rule rtranclp_trans)
  with stop_linearizable [OF example_started this stopped] stopped show ?thesis by blast
qed

text \<open>
  C10: \<open>Stop\<close> comes to an end. Once it has cleared \<open>running_\<close>, no run of the three threads goes on
  for ever (a bound on its steps is known at that point), and when none of them can move, \<open>Stop\<close>
  has returned or a thread has met undefined behaviour; there is no deadlock.
\<close>
theorem stop_ends:
  assumes "net_started n" and "shutdown_step\<^sup>*\<^sup>* (stop_called n) s" and "\<not> running (net s)"
  shows "(\<forall>k t. (shutdown_step ^^ k) s t \<longrightarrow> k \<le> shutdown_rank s) \<and>
    (\<forall>t. shutdown_step\<^sup>*\<^sup>* s t \<and> stuck shutdown_step t \<longrightarrow>
       stopPc t = StopReturned \<or> router_faulted (routerPc t) \<or> poller_faulted (pollerPc t))"
proof -
  have inv: "shut_inv n s" using assms(1,2) by (rule shut_inv_run)
  then have "(shutdown_step ^^ k) s t \<Longrightarrow> k \<le> shutdown_rank s" for k t
    using closing.run_bounded [of k s t n] assms(3) by auto
  moreover have "shutdown_step\<^sup>*\<^sup>* s t \<Longrightarrow> shut_inv n t" for t
    using shut.run_keeps inv by blast
  ultimately show ?thesis using shutdown_stuck by blast
qed

theorem stop_ends_witness:
  "shutdown_rank example_flag_cleared = 9 \<and> (\<nexists>t. (shutdown_step ^^ 10) example_flag_cleared t)"
proof -
  have nine: "shutdown_rank example_flag_cleared = 9" and "\<not> running (net example_flag_cleared)"
    by (simp_all add: shutdown_rank_def example_flag_cleared_def)
  with stop_ends [OF example_started example_flag_run] show ?thesis by fastforce
qed

text \<open>
  C11: The race in \<open>Stop\<close>. It closes and resets \<open>routerSocket_\<close> before it joins the thread that
  uses it: for every started manager there is a run in which the router thread, having tested
  \<open>running_\<close> before the flag was cleared, dereferences the null pointer; the join then never returns.
\<close>
theorem stop_race:
  assumes "net_started n"
  shows "\<exists>s. shutdown_step\<^sup>*\<^sup>* (stop_called n) s \<and> stopPc s = StopJoinRouter \<and>
    routerPc s = RouterFault (UndefinedBehaviour ''null router socket'') \<and>
    stop_step s = None"
proof -
  let ?r = "MoveRouter example_znv (PollReports False) NothingReceived"
  have "\<exists>s. run_schedule (?r # replicate 7 MoveStop @ [?r]) (stop_called n) = Some s \<and> stopPc s = StopJoinRouter \<and>
      routerPc s = RouterFault (UndefinedBehaviour ''null router socket'') \<and> stop_step s = None"
    using assms by (simp add: numeral_eq_Suc net_started_def stop_called_def stop_step_def router_step_def Let_def)
  moreover have "list_all fair_move (?r # replicate 7 MoveStop @ [?r])"
    by (simp add: numeral_eq_Suc)
  ultimately show ?thesis using run_schedule_steps by blast
qed

theorem stop_race_witness:
  "\<exists>s. shutdown_step\<^sup>*\<^sup>* (stop_called example_running) s \<and> stopPc s = StopJoinRouter \<and> routerPc s = RouterFault (UndefinedBehaviour ''null router socket'') \<and>
    stop_step s = None"
  by (rule stop_race [OF example_started])

text \<open>
  When stopping is safe. If both threads are between two turns when \<open>running_\<close> is cleared, no
  run from there meets undefined behaviour, and every run that cannot go on has stopped the manager.
\<close>
theorem stop_safe_between_turns:
  assumes "net_started n" and "shutdown_step\<^sup>*\<^sup>* (stop_called n) s" and "\<not> running (net s)"
    and "routerPc s = RouterHead" and "pollerPc s = PollerHead" and "shutdown_step\<^sup>*\<^sup>* s t"
  shows "\<not> router_faulted (routerPc t) \<and> \<not> poller_faulted (pollerPc t) \<and>
    (stuck shutdown_step t \<longrightarrow> stopPc t = StopReturned)"
proof -
  have "shut_inv n s" using assms(1,2) by (rule shut_inv_run)
  then have "settled n s" using assms(3-5) by (simp add: settled_def)
  then have t: "settled n t" using settling.run_keeps [OF assms(6)] by blast
  then have "\<not> router_faulted (routerPc t) \<and> \<not> poller_faulted (pollerPc t)"
    by (auto simp: settled_def)
  with t show ?thesis using shutdown_stuck unfolding settled_def by blast
qed

theorem stop_safe_between_turns_witness:
  "\<exists>t. shutdown_step\<^sup>*\<^sup>* example_flag_cleared t \<and> stopPc t = StopReturned \<and>
    \<not> router_faulted (routerPc t) \<and> \<not> poller_faulted (pollerPc t)"
proof -
  obtain t where run: "shutdown_step\<^sup>*\<^sup>* example_flag_cleared t" and "stopPc t = StopReturned"
    using example_rest_run by blast
  moreover have "\<not> router_faulted (routerPc t) \<and> \<not> poller_faulted (pollerPc t)"
    using stop_safe_between_turns [OF example_started example_flag_run _ _ _ run]
    by (simp add: example_flag_cleared_def)
  ultimately show ?thesis by blast
qed

text \<open>
  The poller thread is never in danger: in the states the network layer comes to between calls a
  free mutex means that there is no dealer socket, so no poll item can be closed under its poll.
\<close>
theorem poller_never_faults:
  assumes "net_reachable n" and "net_started n" and "shutdown_step\<^sup>*\<^sup>* (stop_called n) s"
  shows "\<not> poller_faulted (pollerPc s)"
proof -
  have "dealerSockets n = []"
    using net_reachable_quiet [OF assms(1)] assms(2) by (simp add: quiet_def net_started_def)
  moreover have "\<not> poller_faulted (pollerPc (stop_called n))" by (simp add: stop_called_def)
  ultimately show ?thesis
    using idle_poller.run_keeps [OF assms(3), of n] shut_inv_start [OF assms(2)] by blast
qed

end
