(* ===== verification/Lifecycle.thy ===== *)
theory Lifecycle
  imports Program Shutdown
begin

text \<open>
  The threads of \<open>Source/Main.cpp\<close> after start-up: the main thread, which waits for \<open>g_running\<close> to be
  cleared and then shuts the program down, the thread of the command line, which runs \<open>cli.Run()\<close>, the
  display thread, the two threads of the network layer, and the handler of \<open>SIGINT\<close> and \<open>SIGTERM\<close>.
  The parameter \<open>env\<close> of the step relation is the environment in which the main thread writes the peers
  file; the other threads find any environment in each of their steps.

  The main thread and the thread of the command line have a program counter each. A turn of a
  network thread, a command and \<open>network.Stop()\<close> are one step each (\<open>Shutdown\<close> justifies this for
  \<open>Stop\<close>). The one step that needs the user is \<open>cli_input\<close>, the return of the line editor; all others
  are in \<open>silent_step\<close>.
\<close>

section \<open>Data\<close>

datatype main_pc =
    MainWait | MainCliFlag | MainCliJoin | MainNetStop | MainNetBlocked | MainSave | MainJoin
  | MainDestroyCli | MainDestroyJoin | MainDestroyNet | MainReturned | MainCrashed fault

datatype cli_pc =
    CliStart | CliHead | CliInput | CliProcess string | CliFlag | CliEnded | CliBlocked | CliCrashed fault

record lifecycle =
  app :: app
  g_running :: bool
  mainPc :: main_pc
  cliPc :: cli_pc
  disk :: files

section \<open>Operations\<close>

text \<open>The program when the thread of the command line has been created.\<close>
definition launched :: "app \<Rightarrow> files \<Rightarrow> lifecycle" where
  "launched a fs = \<lparr>app = a, g_running = True, mainPc = MainWait, cliPc = CliStart, disk = fs\<rparr>"

definition signalHandler :: "lifecycle \<Rightarrow> lifecycle" where
  "signalHandler s = s\<lparr>g_running := False\<rparr>"

text \<open>The join in \<open>CLIInterface::Stop\<close>: \<open>None\<close> while the display thread has not ended.\<close>
definition join_display :: "main_pc \<Rightarrow> lifecycle \<Rightarrow> lifecycle option" where
  "join_display next s =
     (case displayThread (userInterface (app s)) of
        NotStarted \<Rightarrow> Some (s\<lparr>mainPc := next\<rparr>)
      | Finished \<Rightarrow> Some (s\<lparr>app := on_ui (\<lambda>c. c\<lparr>displayThread := NotStarted\<rparr>) (app s), mainPc := next\<rparr>)
      | _ \<Rightarrow> None)"

text \<open>A call of the main thread on the network layer.\<close>
definition main_call :: "(app \<Rightarrow> app_outcome) \<Rightarrow> main_pc \<Rightarrow> lifecycle \<Rightarrow> lifecycle" where
  "main_call f next s =
     (case f (app s) of
        Returns u a \<Rightarrow> s\<lparr>app := a, mainPc := next\<rparr>
      | Raises x a \<Rightarrow> s\<lparr>app := a, mainPc := MainCrashed x\<rparr>
      | Blocks a \<Rightarrow> s\<lparr>app := a, mainPc := MainNetBlocked\<rparr>)"

text \<open>
  The main thread from the wait on. The sleep between two looks at \<open>g_running\<close> is no step. The
  objects of \<open>main\<close> are destroyed in the reverse order: the interface is stopped again, then the
  network.
\<close>
definition main_step :: "znv \<Rightarrow> string \<Rightarrow> lifecycle \<Rightarrow> lifecycle option" where
  "main_step e peersFile s =
     (case mainPc s of
        MainWait \<Rightarrow> if g_running s then None else Some (s\<lparr>mainPc := MainCliFlag\<rparr>)
      | MainCliFlag \<Rightarrow> Some (s\<lparr>app := on_ui (\<lambda>c. notify (stop_flag c)) (app s), mainPc := MainCliJoin\<rparr>)
      | MainCliJoin \<Rightarrow> join_display MainNetStop s
      | MainNetStop \<Rightarrow> Some (main_call Stop MainSave s)
      | MainNetBlocked \<Rightarrow> None
      | MainSave \<Rightarrow>
          Some (s\<lparr>disk := SavePeersToFile e peersFile (peerManager (app s)) (disk s), mainPc := MainJoin\<rparr>)
      | MainJoin \<Rightarrow> if cliPc s = CliEnded then Some (s\<lparr>mainPc := MainDestroyCli\<rparr>) else None
      | MainDestroyCli \<Rightarrow> Some (s\<lparr>app := on_ui (\<lambda>c. notify (stop_flag c)) (app s), mainPc := MainDestroyJoin\<rparr>)
      | MainDestroyJoin \<Rightarrow> join_display MainDestroyNet s
      | MainDestroyNet \<Rightarrow> Some (main_call NetworkManager_destroy MainReturned s)
      | MainReturned \<Rightarrow> None
      | MainCrashed x \<Rightarrow> None)"

text \<open>The thread of the command line, between two lines of input.\<close>
definition cli_thread_step :: "znv \<Rightarrow> terminal \<Rightarrow> lifecycle \<Rightarrow> lifecycle option" where
  "cli_thread_step e tm s =
     (case cliPc s of
        CliStart \<Rightarrow> Some (s\<lparr>app := run_prologue (app s), cliPc := CliHead\<rparr>)
      | CliHead \<Rightarrow> Some (s\<lparr>cliPc := if cli_running (userInterface (app s)) then CliInput else CliFlag\<rparr>)
      | CliInput \<Rightarrow> None
      | CliProcess input \<Rightarrow>
          (case ProcessCommand e tm input (app s) of
             Returns u a \<Rightarrow> Some (s\<lparr>app := a, cliPc := CliHead\<rparr>)
           | Raises x a \<Rightarrow> Some (s\<lparr>app := a, cliPc := CliCrashed x\<rparr>)
           | Blocks a \<Rightarrow> Some (s\<lparr>app := a, cliPc := CliBlocked\<rparr>))
      | CliFlag \<Rightarrow> Some (s\<lparr>g_running := False, cliPc := CliEnded\<rparr>)
      | CliEnded \<Rightarrow> None
      | CliBlocked \<Rightarrow> None
      | CliCrashed x \<Rightarrow> None)"

text \<open>The line editor returns: a line, or \<open>None\<close> at the end of the input.\<close>
definition cli_input :: "string option \<Rightarrow> lifecycle \<Rightarrow> lifecycle option" where
  "cli_input line s =
     (if cliPc s \<noteq> CliInput then None
      else Some
        (case line of
           None \<Rightarrow> s\<lparr>cliPc := CliFlag\<rparr>
         | Some input \<Rightarrow>
             if input = [] then s\<lparr>cliPc := CliHead\<rparr>
             else s\<lparr>app := on_ui (\<lambda>c. c\<lparr>history := history c @ [input]\<rparr>) (app s), cliPc := CliProcess input\<rparr>))"

inductive silent_step :: "znv \<Rightarrow> string \<Rightarrow> lifecycle \<Rightarrow> lifecycle \<Rightarrow> bool" for env peersFile where
  signal: "silent_step env peersFile s (signalHandler s)"
| main_moves: "main_step env peersFile s = Some t \<Longrightarrow> silent_step env peersFile s t"
| cli_moves: "cli_thread_step e tm s = Some t \<Longrightarrow> silent_step env peersFile s t"
| display_moves: "display_step (e :: env) tm (userInterface (app s)) = Some c
    \<Longrightarrow> silent_step env peersFile s (s\<lparr>app := on_ui (\<lambda>_. c) (app s)\<rparr>)"
| display_wakes: "displayThread (userInterface (app s)) = Waiting
    \<Longrightarrow> silent_step env peersFile s (s\<lparr>app := on_ui (\<lambda>c. c\<lparr>displayThread := Acquire\<rparr>) (app s)\<rparr>)"
| router_turns: "routerThread (app s) \<Longrightarrow> \<not> is_undefined (run_call e (TurnRouter ev) (app s))
    \<Longrightarrow> silent_step env peersFile s (s\<lparr>app := final_state (run_call e (TurnRouter ev) (app s))\<rparr>)"
| poller_turns: "pollerThread (app s) \<Longrightarrow> \<not> is_undefined (run_call e (TurnPoller ev) (app s))
    \<Longrightarrow> silent_step env peersFile s (s\<lparr>app := final_state (run_call e (TurnPoller ev) (app s))\<rparr>)"

text \<open>A step of the program: one of its own, or a line from the user.\<close>
definition lifecycle_step :: "znv \<Rightarrow> string \<Rightarrow> lifecycle \<Rightarrow> lifecycle \<Rightarrow> bool" where
  "lifecycle_step env peersFile s t \<longleftrightarrow> silent_step env peersFile s t \<or> (\<exists>line. cli_input line s = Some t)"

inductive_cases silent_stepE: "silent_step env peersFile s t"

section \<open>Specification\<close>

text \<open>The main thread has not yet called, or has returned from, \<open>network.Stop()\<close>; has saved; has joined.\<close>
definition before_stop :: "main_pc \<Rightarrow> bool" where
  "before_stop pc \<longleftrightarrow> pc \<in> {MainWait, MainCliFlag, MainCliJoin, MainNetStop}"

definition joined :: "main_pc \<Rightarrow> bool" where
  "joined pc \<longleftrightarrow> pc \<in> {MainDestroyCli, MainDestroyJoin, MainDestroyNet, MainReturned}"

definition saved :: "main_pc \<Rightarrow> bool" where
  "saved pc \<longleftrightarrow> pc = MainJoin \<or> joined pc"

definition stopped :: "main_pc \<Rightarrow> bool" where
  "stopped pc \<longleftrightarrow> pc = MainSave \<or> saved pc"

text \<open>
  What holds along every run from a start-up that succeeded: the network runs until it is stopped
  and not after, what was saved is the directory as it still is, and the main thread is past its
  join only if the command line has ended.
\<close>
definition life_inv :: "znv \<Rightarrow> string \<Rightarrow> files \<Rightarrow> lifecycle \<Rightarrow> bool" where
  "life_inv env peersFile fs s \<longleftrightarrow>
     app_reachable (app s) \<and>
     (before_stop (mainPc s) \<longrightarrow> running (app s) \<and> routerThread (app s) \<and> pollerThread (app s)) \<and>
     (stopped (mainPc s) \<longrightarrow> \<not> running (app s) \<and> \<not> routerThread (app s) \<and> \<not> pollerThread (app s)) \<and>
     disk s = (if saved (mainPc s) then SavePeersToFile env peersFile (peerManager (app s)) fs else fs) \<and>
     (joined (mainPc s) \<longrightarrow> cliPc s = CliEnded)"

section \<open>Lemmas\<close>

subsection \<open>What turns and commands leave alone\<close>

definition threads_of :: "'ui NetImpl \<Rightarrow> bool \<times> bool \<times> bool" where
  "threads_of n = (running n, routerThread n, pollerThread n)"

lemma threads_of_simps [simp]:
  "threads_of (set_mutex b n) = threads_of n" "threads_of (log_error l n) = threads_of n"
  "threads_of (on_ui f a) = threads_of a"
  by (simp_all add: threads_of_def log_error_def)

lemma threads_of_process_frame: "threads_of (final_state (process_frame e k data n)) = threads_of n"
  using process_frame_ends [of e k data n] process_frame_members [of e k data n]
  by (auto simp: threads_of_def)

lemma threads_of_route_turn: "threads_of (final_state (route_turn e ev n)) = threads_of n"
  unfolding route_turn_def
  by (auto simp: threads_of_process_frame split: router_event.split recv_result.split
      intro!: final_state_catch [where I = "\<lambda>m. threads_of m = threads_of n"])

lemma threads_of_lock_sockets:
  assumes "\<And>t. threads_of t = x \<Longrightarrow> threads_of (final_state (body t)) = x" and "threads_of n = x"
  shows "threads_of (final_state (lock_sockets body n)) = x"
  unfolding lock_sockets_def by (rule sockets.guard_keeps [where I = "\<lambda>m. threads_of m = x"]) (use assms in simp_all)

lemma threads_of_poll_turn: "threads_of (final_state (poll_turn e ev n)) = threads_of n"
proof -
  let ?I = "\<lambda>m. threads_of m = threads_of n"
  have "?I (final_state (poll_dealer e readable k m))" if "?I m" for readable k m
    using that unfolding poll_dealer_def
    by (auto intro!: threads_of_lock_sockets simp: threads_of_process_frame split: option.split recv_result.split)
  then show ?thesis
    unfolding poll_turn_def
    by (intro final_state_bind [where I = ?I] threads_of_lock_sockets)
      (auto intro!: final_state_catch [where I = ?I] for_each_final_state [where I = ?I] split: poller_event.split)
qed

lemma threads_of_turn:
  assumes "is_turn c"
  shows "threads_of (final_state (run_call e c n)) = threads_of n"
  using assms
proof (cases c)
  case (TurnRouter ev)
  then show ?thesis using threads_of_route_turn [of e ev n] by (cases "route_turn e ev n") auto
next
  case (TurnPoller ev)
  then show ?thesis using threads_of_poll_turn [of e ev n] by (cases "poll_turn e ev n") auto
qed simp_all

lemma threads_of_SendViaRouter [simp]: "threads_of (SendViaRouter e k msg n) = threads_of n"
  by (auto simp: SendViaRouter_def Let_def send_frame_def threads_of_def split: send_result.split)

lemma threads_of_router_fold [simp]:
  "threads_of (fold (\<lambda>p s. if isConnected p then SendViaRouter e (peer_id p) msg s else s) ps n) = threads_of n"
  by (induction ps arbitrary: n) simp_all

text \<open>
  A command keeps the flag and the threads; if there is no dealer socket it keeps the directory too.
\<close>
lemma command_call_keeps:
  assumes "command_call c" and "quiet n"
  shows "threads_of (final_state (run_call e c n)) = threads_of n \<and>
    peerManager (final_state (run_call e c n)) = peerManager n"
proof (cases "socketsMutex n")
  case held: True
  then show ?thesis
    using assms(1) by (cases c) (simp_all add: ConnectToPeer_def DisconnectPeer_def SendMessage_def SendToPeer_def
        BroadcastMessage_def NetworkManager_GetConnectedPeers_def)
next
  case free: False
  then have none: "dealerSockets n = []" using assms(2) by (simp add: quiet_def)
  show ?thesis
  proof (cases c)
    case (CallConnect addr p)
    then show ?thesis using free
      by (simp add: ConnectToPeer_cases dialled_def threads_of_def log_error_def split: option.split)
  next
    case (CallBroadcast msg)
    then show ?thesis using free none by (simp add: BroadcastMessage_router_only)
  next
    case (CallDisconnect k)
    then show ?thesis using free none by (simp add: DisconnectPeer_def umap.find_empty)
  next
    case (CallSend k msg)
    then show ?thesis using free none by (simp add: SendMessage_def SendToPeer_unlocked umap.find_empty)
  next
    case CallGetConnected
    then show ?thesis using free by (simp add: NetworkManager_GetConnectedPeers_def)
  qed (use assms(1) in simp_all)
qed

lemma ProcessCommand_members:
  assumes "quiet a"
  shows "threads_of (final_state (ProcessCommand e tm input a)) = threads_of a \<and>
    peerManager (final_state (ProcessCommand e tm input a)) = peerManager a"
proof -
  let ?I = "\<lambda>b. quiet b \<and> threads_of b = threads_of a \<and> peerManager b = peerManager a"
  have "?I (final_state (ProcessCommand e tm input a))"
    by (rule ProcessCommand_keeps [where I = ?I])
      (simp_all add: assms command_call_keeps quiet_run_call)
  then show ?thesis by simp
qed

subsection \<open>The invariant\<close>

text \<open>Steps of the other threads: the main thread stays where it is, its view of the program holds.\<close>
lemma life_inv_other:
  assumes "life_inv env f fs s" and "mainPc t = mainPc s" and "disk t = disk s" and "app_reachable (app t)"
    and "threads_of (app t) = threads_of (app s)"
    and "saved (mainPc s) \<Longrightarrow> peerManager (app t) = peerManager (app s)"
    and "joined (mainPc s) \<Longrightarrow> cliPc t = cliPc s"
  shows "life_inv env f fs t"
  using assms by (simp add: life_inv_def threads_of_def)

lemma saved_stopped [simp]: "saved pc \<Longrightarrow> stopped pc" "joined pc \<Longrightarrow> stopped pc"
  by (simp_all add: saved_def stopped_def)

lemma before_stop_not_stopped [simp]: "before_stop pc \<Longrightarrow> \<not> stopped pc"
  by (auto simp: before_stop_def stopped_def saved_def joined_def)

lemma app_quiet: "app_reachable a \<Longrightarrow> quiet a"
  using app_reachable_invariant by blast

lemma run_prologue_members [simp]:
  "threads_of (run_prologue a) = threads_of a" "peerManager (run_prologue a) = peerManager a"
  "socketsMutex (run_prologue a) = socketsMutex a"
  by (simp_all add: run_prologue_def SetMessageHandler_def SetConnectionHandler_def threads_of_def)

lemma cli_thread_step_keeps:
  assumes "life_inv env f fs s" and "cli_thread_step e tm s = Some t"
  shows "life_inv env f fs t"
proof (cases "joined (mainPc s)")
  case True
  then show ?thesis using assms by (simp add: life_inv_def cli_thread_step_def)
next
  case False
  have reach: "app_reachable (app s)" using assms(1) by (simp add: life_inv_def)
  have command: "life_inv env f fs (s\<lparr>app := final_state (ProcessCommand e tm input (app s)), cliPc := pc\<rparr>)" for input pc
    using assms(1) ProcessCommand_members [OF app_quiet [OF reach], of e tm input] False
    by (intro life_inv_other [OF assms(1)]) (simp_all add: app_command [OF reach])
  have prologue: "life_inv env f fs (s\<lparr>app := run_prologue (app s), cliPc := pc\<rparr>)" for pc
    using False by (intro life_inv_other [OF assms(1)]) (simp_all add: app_run [OF reach])
  show ?thesis
  proof (cases "cliPc s")
    case (CliProcess input)
    then have "t = s\<lparr>app := final_state (ProcessCommand e tm input (app s)), cliPc := cliPc t\<rparr>"
      using assms(2) by (cases "ProcessCommand e tm input (app s)") (auto simp: cli_thread_step_def)
    then show ?thesis using command by metis
  next
    case CliStart
    then show ?thesis using assms(2) prologue by (auto simp: cli_thread_step_def)
  qed (use assms False in \<open>auto simp: cli_thread_step_def life_inv_def\<close>)
qed

lemma cli_input_keeps:
  assumes "life_inv env f fs s" and "cli_input line s = Some t"
  shows "life_inv env f fs t"
proof -
  have "cliPc s = CliInput" using assms(2) by (auto simp: cli_input_def split: if_splits)
  then have "\<not> joined (mainPc s)" using assms(1) by (simp add: life_inv_def)
  moreover have "mainPc t = mainPc s \<and> disk t = disk s \<and> app_reachable (app t) \<and>
      threads_of (app t) = threads_of (app s) \<and> peerManager (app t) = peerManager (app s)"
    using assms by (auto simp: cli_input_def life_inv_def app_history split: if_splits option.splits)
  ultimately show ?thesis using life_inv_other [OF assms(1), of t] by simp
qed

lemma join_display_keeps:
  assumes "life_inv env f fs s" and "join_display pc s = Some t"
  shows "app_reachable (app t) \<and> threads_of (app t) = threads_of (app s) \<and>
    peerManager (app t) = peerManager (app s) \<and> mainPc t = pc \<and> disk t = disk s \<and> cliPc t = cliPc s"
  using assms by (auto simp: join_display_def life_inv_def app_join split: display_pc.splits)

lemma Stop_members:
  assumes "Stop n = Returns u m" and "running n \<or> \<not> routerThread n \<and> \<not> pollerThread n"
  shows "\<not> running m \<and> \<not> routerThread m \<and> \<not> pollerThread m"
  using assms by (cases "socketsMutex n") (auto simp: Stop_def split: if_splits)

lemma app_reachable_Stop: "app_reachable a \<Longrightarrow> app_reachable (final_state (Stop a))"
  using app_network [of a _ CallStop] by (cases "socketsMutex a"; simp add: Stop_def)

lemma Stop_free: "\<not> socketsMutex n \<Longrightarrow> \<exists>m. Stop n = Returns () m \<and> peerManager m = peerManager n"
  by (simp add: Stop_def)

lemma Stop_not_Raises: "Stop n \<noteq> Raises x m"
  by (cases "socketsMutex n") (simp_all add: Stop_def)

lemma main_step_keeps:
  assumes inv: "life_inv env f fs s" and step: "main_step env f s = Some t"
  shows "life_inv env f fs t"
proof (cases "mainPc s")
  case MainCliJoin
  then show ?thesis
    using inv step join_display_keeps [OF inv, of MainNetStop t]
    by (auto simp: main_step_def life_inv_def before_stop_def stopped_def saved_def joined_def threads_of_def)
next
  case MainDestroyJoin
  then have "join_display MainDestroyNet s = Some t" using step by (simp add: main_step_def)
  from join_display_keeps [OF inv this] MainDestroyJoin inv show ?thesis
    by (simp add: life_inv_def before_stop_def stopped_def saved_def joined_def threads_of_def)
next
  case MainNetStop
  then have t: "t = main_call Stop MainSave s" using step by (simp add: main_step_def)
  show ?thesis
  proof (cases "Stop (app s)")
    case (Returns u a)
    with MainNetStop inv have "\<not> running a \<and> \<not> routerThread a \<and> \<not> pollerThread a"
      by (intro Stop_members [of "app s" u a]) (simp_all add: life_inv_def before_stop_def)
    moreover have "app_reachable a" and "disk s = fs"
      using app_reachable_Stop [of "app s"] inv Returns MainNetStop
      by (simp_all add: life_inv_def saved_def joined_def)
    ultimately show ?thesis
      using t Returns by (simp add: main_call_def life_inv_def before_stop_def stopped_def saved_def joined_def)
  next
    case (Blocks a)
    then show ?thesis
      using t app_reachable_Stop [of "app s"] inv MainNetStop
      by (simp add: main_call_def life_inv_def before_stop_def stopped_def saved_def joined_def)
  qed (simp add: Stop_not_Raises)
next
  case MainDestroyNet
  then have "NetworkManager_destroy (app s) = Returns () (app s)"
    using inv by (simp add: life_inv_def stopped_def saved_def joined_def NetworkManager_destroy_def Impl_destroy_def Stop_def)
  then show ?thesis
    using MainDestroyNet inv step
    by (auto simp: main_step_def main_call_def life_inv_def before_stop_def stopped_def saved_def joined_def)
next
  case MainSave
  then show ?thesis
    using inv step
    by (auto simp: main_step_def life_inv_def before_stop_def stopped_def saved_def joined_def)
qed (use inv step in \<open>auto simp: main_step_def life_inv_def before_stop_def stopped_def saved_def joined_def app_stop
        split: if_splits\<close>)

lemma turn_keeps:
  assumes "life_inv env f fs s" and "is_turn c" and "routerThread (app s) \<or> pollerThread (app s)"
    and "\<not> is_undefined (run_call e c (app s))"
  shows "life_inv env f fs (s\<lparr>app := final_state (run_call e c (app s))\<rparr>)"
proof -
  have "\<not> stopped (mainPc s)" and "app_reachable (app s)"
    using assms(1,3) by (auto simp: life_inv_def)
  then show ?thesis
    using assms(2,4) by (intro life_inv_other [OF assms(1)]) (auto simp: threads_of_turn app_network)
qed

lemma silent_step_keeps:
  assumes inv: "life_inv env f fs s" and "silent_step env f s t"
  shows "life_inv env f fs t"
  using assms(2)
proof (cases rule: silent_step.cases)
  case signal
  then show ?thesis using inv by (simp add: signalHandler_def life_inv_def)
next
  case main_moves
  then show ?thesis using inv main_step_keeps by blast
next
  case (cli_moves e tm)
  then show ?thesis using inv cli_thread_step_keeps by blast
next
  case (display_moves e tm c)
  then show ?thesis
    using inv app_display [OF _ display_moves(2)] by (auto simp: life_inv_def threads_of_def)
next
  case display_wakes
  then show ?thesis using inv app_wakes by (auto simp: life_inv_def)
next
  case (router_turns e ev)
  then show ?thesis using turn_keeps [OF inv, of "TurnRouter ev"] by simp
next
  case (poller_turns e ev)
  then show ?thesis using turn_keeps [OF inv, of "TurnPoller ev"] by simp
qed

interpretation life: step_invariant "lifecycle_step env f" "life_inv env f fs" for env f fs
  by unfold_locales (auto simp: lifecycle_step_def intro: silent_step_keeps cli_input_keeps)

text \<open>A start-up that succeeded gives a state to launch from.\<close>
lemma launched_inv:
  "app_reachable a \<Longrightarrow> running a \<Longrightarrow> routerThread a \<Longrightarrow> pollerThread a \<Longrightarrow> life_inv env f fs (launched a fs)"
  by (simp add: life_inv_def launched_def stopped_def saved_def joined_def)

lemma connect_initial_returns: "connect_initial e opt a = Returns u b \<Longrightarrow> b = a"
  by (auto simp: connect_initial_def ConnectToPeer_cases split: option.splits sum.splits if_splits)

lemma main_start_launches:
  assumes "main_start e lib opts keyPair fs = Returns u a"
  shows "app_reachable a \<and> running a \<and> routerThread a \<and> pollerThread a \<and> \<not> socketsMutex a \<and>
    displayThread (userInterface a) = NotStarted"
proof -
  let ?s = "main_state e lib opts keyPair"
  obtain u pm where load: "LoadPeersFromFile e (opt_peers_file opts) fs (peerManager ?s) = (Inr u, pm)"
    and start: "Start e (opt_port opts) (?s\<lparr>peerManager := pm\<rparr>) = Returns () a"
    using assms connect_initial_returns
    by (auto simp: main_start_def Let_def bind_outcome_Returns_iff split: prod.splits sum.splits)
  have "pm_wf pm"
    using load pm_wf_load_lines [OF pm_wf_main_state [of e lib opts keyPair], of e]
    by (auto simp: LoadPeersFromFile_def pm_wf_main_state split: option.splits) (metis snd_conv)
  then have "app_reachable (?s\<lparr>peerManager := pm\<rparr>)"
    using app_init [of pm] by (simp add: main_state_def NetworkManager_new_def NetImpl_new_def)
  from app_network [OF this, of e "CallStart (opt_port opts)"] start have "app_reachable a" by simp
  moreover have "running a \<and> routerThread a \<and> pollerThread a \<and> \<not> socketsMutex a \<and>
      displayThread (userInterface a) = NotStarted"
    using start by (auto simp: Start_def Let_def main_state_def NetworkManager_new_def NetImpl_new_def CLIInterface_new_def RegisterCommands_def
        split: option.splits)
  ultimately show ?thesis by blast
qed

text \<open>A start-up that succeeds leaves the directory as the peers file gave it.\<close>
lemma main_start_directory:
  assumes "main_start e lib opts keyPair fs = Returns u a"
  shows "peerManager a = snd (LoadPeersFromFile e (opt_peers_file opts) fs (peerManager (main_state e lib opts keyPair)))"
proof -
  have "peerManager b = pm" if "Start e p (n\<lparr>peerManager := pm\<rparr>) = Returns () b" for p pm b and n :: app
    using that by (auto simp: Start_def Let_def split: option.splits if_splits)
  then show ?thesis
    using assms connect_initial_returns
    by (fastforce simp: main_start_def Let_def bind_outcome_Returns_iff split: prod.splits sum.splits)
qed

lemma GetPeer_main_state: "GetPeer k (peerManager (main_state e lib opts keyPair)) = None"
  by (simp add: main_state_def NetworkManager_new_def NetImpl_new_def GetPeer_simps)

lemma life_inv_reached:
  assumes "main_start e lib opts keyPair fs = Returns u a" and "(lifecycle_step env f)\<^sup>*\<^sup>* (launched a fs) s"
  shows "life_inv env f fs s"
  using life.run_keeps [OF assms(2)] launched_inv main_start_launches [OF assms(1)] by blast

subsection \<open>Waiting for a line\<close>

text \<open>No step of the program itself takes the command line out of the line editor.\<close>
lemma silent_step_waits:
  assumes "silent_step env f s t" and "cliPc s = CliInput" and "\<not> joined (mainPc s)"
  shows "cliPc t = CliInput \<and> \<not> joined (mainPc t)"
  using assms
  by (cases rule: silent_step.cases)
    (auto simp: signalHandler_def cli_thread_step_def main_step_def main_call_def join_display_def joined_def
      split: main_pc.splits display_pc.splits outcome.splits if_splits)

interpretation waiting: step_invariant "silent_step env f" "\<lambda>s. cliPc s = CliInput \<and> \<not> joined (mainPc s)" for env f
  using silent_step_waits by unfold_locales blast

subsection \<open>A deadlocked command\<close>

definition wedged :: "files \<Rightarrow> lifecycle \<Rightarrow> bool" where
  "wedged fs s \<longleftrightarrow> socketsMutex (app s) \<and> disk s = fs \<and>
     (before_stop (mainPc s) \<and> running (app s) \<or> mainPc s = MainNetBlocked)"

lemma held_ProcessCommand:
  assumes "socketsMutex a"
  shows "socketsMutex (final_state (ProcessCommand e tm input a))"
  by (rule ProcessCommand_keeps [where I = socketsMutex]) (use assms held_for_ever in auto)

lemma wedged_silent:
  assumes "wedged fs s" and inv: "life_inv env f fs s" and "silent_step env f s t"
  shows "wedged fs t"
  using assms(3)
proof (cases rule: silent_step.cases)
  case main_moves
  then show ?thesis
    using assms(1)
    by (auto simp: wedged_def main_step_def main_call_def join_display_def before_stop_def Stop_def
        split: main_pc.splits display_pc.splits if_splits)
next
  case (cli_moves e tm)
  have command: "socketsMutex (final_state (ProcessCommand e tm input (app s)))"
      "threads_of (final_state (ProcessCommand e tm input (app s))) = threads_of (app s)" for input
    using assms(1) inv held_ProcessCommand ProcessCommand_members app_quiet by (simp_all add: wedged_def life_inv_def)
  have "mainPc t = mainPc s \<and> disk t = disk s \<and> socketsMutex (app t) \<and> threads_of (app t) = threads_of (app s)"
  proof (cases "cliPc s")
    case (CliProcess input)
    then show ?thesis
      using cli_moves assms(1) command [of input]
      by (cases "ProcessCommand e tm input (app s)") (auto simp: cli_thread_step_def)
  qed (use cli_moves assms(1) in \<open>auto simp: cli_thread_step_def wedged_def\<close>)
  then show ?thesis using assms(1) by (auto simp: wedged_def threads_of_def)
next
  case (router_turns e ev)
  then show ?thesis
    using assms(1) threads_of_turn [of "TurnRouter ev" e "app s"] held_for_ever [of "app s" e "TurnRouter ev"]
    by (auto simp: wedged_def threads_of_def)
next
  case (poller_turns e ev)
  then show ?thesis
    using assms(1) threads_of_turn [of "TurnPoller ev" e "app s"] held_for_ever [of "app s" e "TurnPoller ev"]
    by (auto simp: wedged_def threads_of_def)
qed (use assms(1) in \<open>auto simp: wedged_def signalHandler_def\<close>)

lemma wedged_input: "wedged fs s \<Longrightarrow> cli_input line s = Some t \<Longrightarrow> wedged fs t"
  by (auto simp: wedged_def cli_input_def split: if_splits option.splits)

interpretation wedging: step_invariant "lifecycle_step env f" "\<lambda>s. life_inv env f fs s \<and> wedged fs s" for env f fs
proof unfold_locales
  fix s t
  assume s: "life_inv env f fs s \<and> wedged fs s" and step: "lifecycle_step env f s t"
  have "wedged fs t"
    using step s wedged_silent wedged_input unfolding lifecycle_step_def by blast
  with s step life.step_keeps show "life_inv env f fs t \<and> wedged fs t" by blast
qed

subsection \<open>Runs\<close>

abbreviation silent_run :: "znv \<Rightarrow> string \<Rightarrow> lifecycle \<Rightarrow> lifecycle \<Rightarrow> bool" where
  "silent_run env f \<equiv> (silent_step env f)\<^sup>*\<^sup>*"

abbreviation life_run :: "znv \<Rightarrow> string \<Rightarrow> lifecycle \<Rightarrow> lifecycle \<Rightarrow> bool" where
  "life_run env f \<equiv> (lifecycle_step env f)\<^sup>*\<^sup>*"

lemma silent_life_run: "silent_run env f s t \<Longrightarrow> life_run env f s t"
  by (erule rtranclp_mono [THEN predicate2D, rotated]) (auto simp: lifecycle_step_def)

lemma main_run: "main_step env f s = Some t \<Longrightarrow> silent_run env f t u \<Longrightarrow> silent_run env f s u"
  by (rule converse_rtranclp_into_rtranclp [of "silent_step env f"]) (auto intro: main_moves)

lemma cli_run_step: "cli_thread_step e tm s = Some t \<Longrightarrow> life_run env f t u \<Longrightarrow> life_run env f s u"
  by (rule converse_rtranclp_into_rtranclp [of "lifecycle_step env f"]) (auto simp: lifecycle_step_def intro: cli_moves)

lemma cli_process_step: "cliPc s = CliProcess input \<Longrightarrow> \<exists>t. cli_thread_step e tm s = Some t"
  by (simp add: cli_thread_step_def split: outcome.split)

lemma signal_run: "life_run env f s (signalHandler s)"
  by (rule r_into_rtranclp) (simp add: lifecycle_step_def signal)

lemma input_run: "cli_input line s = Some t \<Longrightarrow> life_run env f t u \<Longrightarrow> life_run env f s u"
  by (rule converse_rtranclp_into_rtranclp [of "lifecycle_step env f"]) (auto simp: lifecycle_step_def)

text \<open>The display thread left to itself.\<close>
lemma display_run:
  "silent_run env f s (s\<lparr>app := on_ui (\<lambda>_. display_steps (e :: env) tm n (userInterface (app s))) (app s)\<rparr>)"
proof (induction n arbitrary: s)
  case 0
  then show ?case by (simp add: on_ui_def)
next
  case (Suc n)
  show ?case
  proof (cases "display_step e tm (userInterface (app s))")
    case None
    then show ?thesis by (simp add: on_ui_def)
  next
    case (Some c)
    then have "silent_step env f s (s\<lparr>app := on_ui (\<lambda>_. c) (app s)\<rparr>)" by (rule display_moves)
    with Suc [of "s\<lparr>app := on_ui (\<lambda>_. c) (app s)\<rparr>"] Some show ?thesis
      by (auto simp: on_ui_def intro: converse_rtranclp_into_rtranclp)
  qed
qed

text \<open>
  The clean-up of the main thread up to its join, given that the display thread ends after \<open>n\<close> steps
  and that nobody holds the mutex.
\<close>
lemma cleanup_run:
  fixes e :: env and env :: znv and s :: lifecycle and tm :: terminal and n :: nat
  defines "c \<equiv> display_steps e tm n (notify (stop_flag (userInterface (app s))))"
  assumes "mainPc s = MainWait" and "\<not> g_running s" and "\<not> socketsMutex (app s)"
    and "displayThread c \<in> {NotStarted, Finished}"
  shows "\<exists>t a. silent_run env f s t \<and> mainPc t = MainJoin \<and> cliPc t = cliPc s \<and> g_running t = g_running s \<and>
    app t = a \<and> peerManager a = peerManager (app s) \<and> Stop ((app s)\<lparr>userInterface := c\<lparr>displayThread := NotStarted\<rparr>\<rparr>) = Returns () a \<and>
    disk t = SavePeersToFile env f (peerManager (app s)) (disk s)"
proof -
  let ?flag = "s\<lparr>mainPc := MainCliFlag\<rparr>"
  let ?join = "s\<lparr>app := on_ui (\<lambda>c. notify (stop_flag c)) (app s), mainPc := MainCliJoin\<rparr>"
  let ?done = "s\<lparr>mainPc := MainCliJoin, app := on_ui (\<lambda>_. c) (app s)\<rparr>"
  let ?a = "(app s)\<lparr>userInterface := c\<lparr>displayThread := NotStarted\<rparr>\<rparr>"
  let ?net = "s\<lparr>app := ?a, mainPc := MainNetStop\<rparr>"
  obtain b where b: "Stop ?a = Returns () b" "peerManager b = peerManager (app s)"
    using Stop_free [of ?a] assms(4) by auto
  let ?save = "s\<lparr>app := b, mainPc := MainSave\<rparr>"
  let ?t = "s\<lparr>app := b, mainPc := MainJoin, disk := SavePeersToFile env f (peerManager b) (disk s)\<rparr>"
  have "silent_run env f ?join ?done"
    using display_run [of env f ?join e tm n] by (simp add: c_def on_ui_def)
  moreover have "silent_run env f ?done ?t"
  proof (rule main_run [where t = ?net])
    show "main_step env f ?done = Some ?net"
      using assms(5) by (auto simp: main_step_def join_display_def on_ui_def)
    show "silent_run env f ?net ?t"
    proof (rule main_run [where t = ?save])
      show "main_step env f ?net = Some ?save" by (simp add: main_step_def main_call_def b)
      have "main_step env f ?save = Some ?t" by (simp add: main_step_def)
      then show "silent_run env f ?save ?t" by (rule main_run) simp
    qed
  qed
  ultimately have "silent_run env f ?join ?t" by (rule rtranclp_trans)
  moreover have "main_step env f s = Some ?flag" and "main_step env f ?flag = Some ?join"
    using assms(2,3) by (simp_all add: main_step_def)
  ultimately have "silent_run env f s ?t" by (metis main_run)
  with b show ?thesis by (intro exI [of _ ?t] exI [of _ b]) simp
qed

lemma app_same [simp]: "s\<lparr>app := app s\<rparr> = s"
  by simp

text \<open>The thread of the command line ends: the flag is cleared or the input has come to its end.\<close>
lemma cli_end_run:
  assumes "cliPc s = CliHead"
  shows "life_run env f s (s\<lparr>g_running := False, cliPc := CliEnded\<rparr>)"
proof -
  let ?in = "s\<lparr>cliPc := CliInput\<rparr>" and ?flag = "s\<lparr>cliPc := CliFlag\<rparr>"
  have flag: "life_run env f ?flag (s\<lparr>g_running := False, cliPc := CliEnded\<rparr>)"
    by (rule cli_run_step [where t = "s\<lparr>g_running := False, cliPc := CliEnded\<rparr>"]) (simp_all add: cli_thread_step_def)
  show ?thesis
  proof (cases "cli_running (userInterface (app s))")
    case True
    then have "cli_thread_step e tm s = Some ?in" and "cli_input None ?in = Some ?flag" for e tm
      using assms by (simp_all add: cli_thread_step_def cli_input_def)
    with flag show ?thesis by (metis cli_run_step input_run)
  next
    case False
    then have "cli_thread_step e tm s = Some ?flag" for e tm using assms by (simp add: cli_thread_step_def)
    with flag show ?thesis by (metis cli_run_step)
  qed
qed

text \<open>One line that is processed.\<close>
lemma cli_line_run:
  assumes "cliPc s = CliHead" and "cli_running (userInterface (app s))" and "input \<noteq> []"
    and "ProcessCommand e tm input (on_ui (\<lambda>c. c\<lparr>history := history c @ [input]\<rparr>) (app s)) = Returns () a"
  shows "life_run env f s (s\<lparr>app := a, cliPc := CliHead\<rparr>)"
proof -
  let ?in = "s\<lparr>cliPc := CliInput\<rparr>"
  let ?p = "s\<lparr>app := on_ui (\<lambda>c. c\<lparr>history := history c @ [input]\<rparr>) (app s), cliPc := CliProcess input\<rparr>"
  have steps: "cli_thread_step e tm s = Some ?in" "cli_input (Some input) ?in = Some ?p"
    "cli_thread_step e tm ?p = Some (s\<lparr>app := a, cliPc := CliHead\<rparr>)"
    using assms by (simp_all add: cli_thread_step_def cli_input_def)
  show ?thesis
    by (rule cli_run_step [OF steps(1)], rule input_run [OF steps(2)], rule cli_run_step [OF steps(3)], rule rtranclp.rtrancl_refl)
qed

text \<open>A command loop that returns, as a run of the thread of the command line.\<close>
lemma cli_loop_run:
  assumes "cli_loop tm inputs (app s) = Returns () b" and "cliPc s = CliHead"
  shows "life_run env f s (s\<lparr>app := b, g_running := False, cliPc := CliEnded\<rparr>)"
  using assms
proof (induction inputs arbitrary: s)
  case Nil
  then show ?case using cli_end_run [of s env f] by auto
next
  case (Cons line inputs)
  obtain e l where line: "line = (e, l)" by fastforce
  consider "b = app s"
    | "l = Some []" "cli_running (userInterface (app s))" "cli_loop tm inputs (app s) = Returns () b"
    | input a where "l = Some input" "input \<noteq> []" "cli_running (userInterface (app s))"
        "ProcessCommand e tm input (on_ui (\<lambda>c. c\<lparr>history := history c @ [input]\<rparr>) (app s)) = Returns () a"
        "cli_loop tm inputs a = Returns () b"
    using Cons.prems(1) line by (auto simp: bind_outcome_Returns_iff split: if_splits option.splits)
  then show ?case
  proof cases
    case 1
    then show ?thesis using cli_end_run [OF Cons.prems(2), of env f] by simp
  next
    case 2
    then show ?thesis using Cons.IH Cons.prems(2) by blast
  next
    case (3 input a)
    have "life_run env f s (s\<lparr>app := a, cliPc := CliHead\<rparr>)"
      using cli_line_run [OF Cons.prems(2)] 3 by blast
    also have "life_run env f (s\<lparr>app := a, cliPc := CliHead\<rparr>) (s\<lparr>app := b, g_running := False, cliPc := CliEnded\<rparr>)"
      using Cons.IH [of "s\<lparr>app := a, cliPc := CliHead\<rparr>"] 3 by simp
    finally show ?thesis .
  qed
qed

text \<open>From the join of the command line to the end of \<open>main\<close>.\<close>
lemma exit_run:
  assumes "mainPc s = MainJoin" and "cliPc s = CliEnded" and "\<not> running (app s)"
    and "displayThread (userInterface (app s)) = NotStarted"
  shows "\<exists>t. silent_run env f s t \<and> mainPc t = MainReturned \<and> disk t = disk s \<and>
    peerManager (app t) = peerManager (app s)"
proof -
  let ?a = "on_ui (\<lambda>c. notify (stop_flag c)) (app s)"
  have steps: "main_step env f s = Some (s\<lparr>mainPc := MainDestroyCli\<rparr>)"
    "main_step env f (s\<lparr>mainPc := MainDestroyCli\<rparr>) = Some (s\<lparr>app := ?a, mainPc := MainDestroyJoin\<rparr>)"
    "main_step env f (s\<lparr>app := ?a, mainPc := MainDestroyJoin\<rparr>) = Some (s\<lparr>app := ?a, mainPc := MainDestroyNet\<rparr>)"
    "main_step env f (s\<lparr>app := ?a, mainPc := MainDestroyNet\<rparr>) = Some (s\<lparr>app := ?a, mainPc := MainReturned\<rparr>)"
    using assms by (simp_all add: main_step_def join_display_def notify_def stop_flag_def main_call_def
        NetworkManager_destroy_def Impl_destroy_def Stop_def)
  have "silent_run env f s (s\<lparr>app := ?a, mainPc := MainReturned\<rparr>)"
    by (rule main_run [OF steps(1)], rule main_run [OF steps(2)], rule main_run [OF steps(3)],
        rule main_run [OF steps(4)], rule rtranclp.rtrancl_refl)
  then show ?thesis by (intro exI [of _ "s\<lparr>app := ?a, mainPc := MainReturned\<rparr>"]) simp
qed

lemma display_steps_env: "display_steps (env.truncate e) tm n c = display_steps e tm n c"
proof (induction n arbitrary: c)
  case (Suc n)
  have "render (env.truncate e) tm d = render e tm d" for d
    by (cases d) (simp_all add: env.truncate_def)
  then have "display_step (env.truncate e) tm c = display_step e tm c"
    by (simp add: display_step_def split: display_pc.split)
  with Suc show ?case by (simp split: option.split)
qed simp

text \<open>What a clean-up that comes to its end has met.\<close>
lemma main_cleanup_returns:
  assumes "main_cleanup e tm n opts a fs = Exits k fs'" and "running a"
  shows "\<not> socketsMutex a"
    and "displayThread (display_steps (env.truncate e) tm n (notify (stop_flag (userInterface a)))) \<in> {NotStarted, Finished}"
    and "fs' = SavePeersToFile e (opt_peers_file opts) (peerManager a) fs"
proof -
  have "\<exists>c. CLI_Stop e tm n (userInterface a) = Returns () c"
    using assms by (auto simp: main_cleanup_cases split: outcome.splits)
  then show "displayThread (display_steps (env.truncate e) tm n (notify (stop_flag (userInterface a)))) \<in> {NotStarted, Finished}"
    by (auto simp: CLI_Stop_def Let_def display_steps_env split: if_splits)
  show free: "\<not> socketsMutex a"
    using assms by (auto simp: main_cleanup_cases Stop_def split: outcome.splits if_splits)
  show "fs' = SavePeersToFile e (opt_peers_file opts) (peerManager a) fs"
    using assms Stop_free [of "a\<lparr>userInterface := c\<rparr>" for c] free
    by (auto simp: main_cleanup_cases split: outcome.splits) (metis outcome.inject(1) Stop_free)
qed

lemma main_as_run:
  assumes "main e lib tm n opts inputs fs = Exits 0 fs'" and "\<not> opt_help opts"
  shows "\<exists>keyPair a b s. main_start e lib opts keyPair fs = Returns () a \<and> Run tm inputs a = Returns () b \<and>
    life_run e (opt_peers_file opts) (launched a fs) s \<and> mainPc s = MainReturned \<and> disk s = fs' \<and>
    peerManager (app s) = peerManager b"
proof -
  let ?f = "opt_peers_file opts"
  obtain keyPair a b where a: "main_start e lib opts keyPair fs = Returns () a"
    and b: "Run tm inputs a = Returns () b" and fin: "main_cleanup e tm n opts b fs = Exits 0 fs'"
    using assms by (auto simp: main_def main_failed_def split: outcome.splits if_splits)
  let ?s = "\<lparr>app = b, g_running = False, mainPc = MainWait, cliPc = CliEnded, disk = fs\<rparr>"
  have "cli_thread_step e tm (launched a fs) = Some ((launched a fs)\<lparr>app := run_prologue a, cliPc := CliHead\<rparr>)"
    by (simp add: cli_thread_step_def launched_def)
  moreover have "life_run e ?f ((launched a fs)\<lparr>app := run_prologue a, cliPc := CliHead\<rparr>) ?s"
    using cli_loop_run [of tm inputs "(launched a fs)\<lparr>app := run_prologue a, cliPc := CliHead\<rparr>" b e ?f] b
    by (simp add: Run_def launched_def)
  ultimately have start: "life_run e ?f (launched a fs) ?s" by (rule cli_run_step)
  have "running b"
    using life_inv_reached [OF a start] by (simp add: life_inv_def before_stop_def)
  with fin have clean: "\<not> socketsMutex b"
      "displayThread (display_steps (env.truncate e) tm n (notify (stop_flag (userInterface b)))) \<in> {NotStarted, Finished}"
      "fs' = SavePeersToFile e ?f (peerManager b) fs"
    by (rule main_cleanup_returns)+
  then obtain t where t: "silent_run e ?f ?s t" "mainPc t = MainJoin" "cliPc t = CliEnded" "disk t = fs'" "peerManager (app t) = peerManager b"
      "\<not> running (app t)" "displayThread (userInterface (app t)) = NotStarted"
    using cleanup_run [where s = ?s and tm = tm and n = n and e = "env.truncate e" and f = ?f and env = e]
      Stop_keeps_interface by fastforce
  then obtain u where "silent_run e ?f t u" "mainPc u = MainReturned" "disk u = fs'" "peerManager (app u) = peerManager b"
    using exit_run by metis
  with t(1) start a b show ?thesis by (metis rtranclp_trans silent_life_run)
qed

section \<open>Properties\<close>


lemma example_main_quits:
  "\<exists>pm. main example_znv example_lib example_terminal 1 default_options [(example_znv, Some ''quit'')] Map.empty
     = Exits 0 (SavePeersToFile example_znv ''peers.txt'' pm Map.empty)"
  using main_quit [of default_options example_znv Map.empty example_lib example_terminal example_znv]
  by (auto simp: default_options_def LoadPeersFromFile_def)

lemma example_main_exits:
  "\<exists>keyPair a s. main_start example_znv example_lib default_options keyPair Map.empty = Returns () a \<and>
    life_run example_znv ''peers.txt'' (launched a Map.empty) s \<and> mainPc s = MainReturned"
  using example_main_quits main_as_run by (fastforce simp: default_options_def)


definition example_launch :: app where
  "example_launch = (main_state example_znv example_lib default_options \<lparr>kp_publicKey = [4], kp_privateKey = [5]\<rparr>)
     \<lparr>listenPort := 8080, running := True, routerSocket := True, routerThread := True, pollerThread := True\<rparr>"

lemma example_launch_start:
  "main_start example_znv example_lib default_options \<lparr>kp_publicKey = [4], kp_privateKey = [5]\<rparr> Map.empty
     = Returns () example_launch"
  by (simp add: main_start_def Let_def LoadPeersFromFile_def Start_def connect_initial_def example_launch_def
      default_options_def)

text \<open>The prompt is shown: the command line waits for its first line.\<close>
definition example_prompt :: lifecycle where
  "example_prompt = (launched example_launch Map.empty)\<lparr>app := run_prologue example_launch, cliPc := CliInput\<rparr>"

lemma example_prompt_run: "life_run env f (launched example_launch Map.empty) example_prompt"
proof -
  let ?head = "(launched example_launch Map.empty)\<lparr>app := run_prologue example_launch, cliPc := CliHead\<rparr>"
  have steps: "cli_thread_step e tm (launched example_launch Map.empty) = Some ?head"
    "cli_thread_step e tm ?head = Some example_prompt" for e tm
    by (simp_all add: cli_thread_step_def launched_def example_prompt_def run_prologue_def SetMessageHandler_def
        SetConnectionHandler_def DisplaySystemMessage_def startDisplayThread_def)
  show ?thesis
    by (rule cli_run_step [OF steps(1)], rule cli_run_step [OF steps(2)], rule rtranclp.rtrancl_refl)
qed

text \<open>
  C6: What is on the disk when \<open>main\<close> has returned. However the threads interleave, whatever the user
  types and whenever a signal comes: at the end of \<open>main\<close> the command line has ended, the network is
  stopped, and the peers file is what \<open>SavePeersToFile\<close> writes for the directory as it is then.
\<close>
theorem exit_leaves_directory:
  assumes "main_start e lib opts keyPair fs = Returns u a"
    and "life_run env (opt_peers_file opts) (launched a fs) s" and "mainPc s = MainReturned"
  shows "cliPc s = CliEnded \<and> \<not> running (app s) \<and> \<not> routerThread (app s) \<and> \<not> pollerThread (app s) \<and>
    disk s = SavePeersToFile env (opt_peers_file opts) (peerManager (app s)) fs"
proof -
  have "life_inv env (opt_peers_file opts) fs s" using assms(1,2) by (rule life_inv_reached)
  with assms(3) show ?thesis by (simp add: life_inv_def stopped_def saved_def joined_def)
qed

text \<open>
  C7: The next start finds what this one left. If every peer of the directory has a key and no
  separator in its id and address, and the peers file can be written, then after \<open>main\<close> has returned,
  in whatever run, a later start-up with the same file that succeeds has exactly the peers of the
  directory at the end, all of them disconnected.
\<close>
theorem next_start_restores:
  assumes "main_start e lib opts keyPair fs = Returns u a"
    and "life_run env (opt_peers_file opts) (launched a fs) s" and "mainPc s = MainReturned"
    and "permutes_keys env" and "can_open_for_writing env (opt_peers_file opts)"
    and "\<forall>p \<in> set (GetAllPeers env (peerManager (app s))). text_safe p \<and> publicKey p \<noteq> []"
    and "main_start e' lib' opts' keyPair' (disk s) = Returns u' b" and "opt_peers_file opts' = opt_peers_file opts"
  shows "GetPeer k (peerManager b) = map_option (restored e') (GetPeer k (peerManager (app s)))"
proof -
  let ?pm = "peerManager (app s)" and ?new = "peerManager (main_state e' lib' opts' keyPair')"
  have inv: "life_inv env (opt_peers_file opts) fs s" using assms(1,2) by (rule life_inv_reached)
  then have disk: "disk s = SavePeersToFile env (opt_peers_file opts) ?pm fs"
    using assms(3) by (simp add: life_inv_def saved_def joined_def)
  have wf: "pm_wf ?pm" using app_reachable_invariant inv by (auto simp: life_inv_def net_wf_def)
  have key: "publicKey p \<noteq> []" if "GetPeer k ?pm = Some p" for p
    using that assms(6) GetAllPeers_iff [OF assms(4) wf, of p] GetPeer_id [OF wf that] by auto
  have "peerManager b = snd (LoadPeersFromFile e' (opt_peers_file opts) (disk s) ?new)"
    using main_start_directory [OF assms(7)] assms(8) by simp
  then show ?thesis
    using GetPeer_load_saved(2) [OF assms(4) wf assms(5) _ pm_wf_main_state [of e' lib' opts' keyPair'],
        where e' = e' and fs = fs and k = k] assms(6) disk key
    by (auto simp: GetPeer_main_state split: option.splits)
qed

text \<open>A peers file with one peer, and a run that reads it, ends on \<open>quit\<close> and is followed by another start.\<close>
definition example_saved :: files where
  "example_saved = SavePeersToFile example_znv ''peers.txt'' (AddPeer example_peer (PeerManager_new example_znv)) Map.empty"

lemma example_saved_load:
  assumes "pm_wf pm"
  shows "fst (LoadPeersFromFile (e :: znv) ''peers.txt'' example_saved pm) = Inr ()"
    and "GetPeer k (snd (LoadPeersFromFile e ''peers.txt'' example_saved pm)) =
      (if k = ''p1'' then Some (restored e example_peer) else GetPeer k pm)"
proof -
  let ?pm = "AddPeer example_peer (PeerManager_new example_znv)"
  have wf: "pm_wf ?pm" by (intro pm_wf_intros)
  have safe: "\<forall>p \<in> set (GetAllPeers example_znv ?pm). text_safe p"
    using GetAllPeers_iff [OF _ wf, of example_znv] by (auto simp: GetPeer_simps pm_wf_new GetPeer_new split: if_splits)
  have opens: "can_open_for_writing example_znv ''peers.txt''" by (simp add: example_znv_def)
  note load = GetPeer_load_saved [OF example_znv_simps(1) wf opens safe assms, where e' = e and fs = Map.empty]
  show "fst (LoadPeersFromFile e ''peers.txt'' example_saved pm) = Inr ()"
    using load(1) by (simp add: example_saved_def)
  show "GetPeer k (snd (LoadPeersFromFile e ''peers.txt'' example_saved pm)) =
      (if k = ''p1'' then Some (restored e example_peer) else GetPeer k pm)"
    using load(2) [of k] by (simp add: example_saved_def GetPeer_simps pm_wf_new GetPeer_new)
qed

lemma example_first_run:
  "\<exists>keyPair a s. main_start example_znv example_lib default_options keyPair example_saved = Returns () a \<and>
    life_run example_znv ''peers.txt'' (launched a example_saved) s \<and> mainPc s = MainReturned \<and>
    (\<forall>k. GetPeer k (peerManager (app s)) = (if k = ''p1'' then Some (restored example_znv example_peer) else None))"
proof -
  have f: "opt_peers_file default_options = ''peers.txt''" "\<not> opt_help default_options" "opt_connect default_options = None"
    by (simp_all add: default_options_def)
  obtain fs' where "main example_znv example_lib example_terminal 1 default_options [(example_znv, Some ''quit'')] example_saved
      = Exits 0 fs'"
    using main_quit [of default_options example_znv example_saved example_lib example_terminal example_znv]
      example_saved_load(1) f by auto
  from main_as_run [OF this f(2)] f(1) obtain keyPair a b s where
    start: "main_start example_znv example_lib default_options keyPair example_saved = Returns () a"
    and b: "Run example_terminal [(example_znv, Some ''quit'')] a = Returns () b"
    and run: "life_run example_znv ''peers.txt'' (launched a example_saved) s" "mainPc s = MainReturned"
      "peerManager (app s) = peerManager b"
    by auto
  have "commands_registered a" and "\<not> socketsMutex a"
    using main_start_launches [OF start] app_reachable_invariant by (auto simp: ui_installed_def)
  then have "peerManager b = peerManager a" using Run_quit [of a example_terminal example_znv] b by auto
  then have "GetPeer k (peerManager (app s)) = (if k = ''p1'' then Some (restored example_znv example_peer) else None)" for k
    using main_start_directory [OF start] run(3) f(1)
      example_saved_load(2) [OF pm_wf_main_state [of example_znv example_lib default_options keyPair]]
    by (simp add: GetPeer_main_state)
  with start run show ?thesis by blast
qed

text \<open>The hypotheses of a second start, in the state that the first run has left.\<close>
lemma example_second_start:
  assumes "main_start example_znv example_lib default_options keyPair example_saved = Returns () a"
    and "life_run example_znv ''peers.txt'' (launched a example_saved) s" and "mainPc s = MainReturned"
    and "\<forall>k. GetPeer k (peerManager (app s)) = (if k = ''p1'' then Some (restored example_znv example_peer) else None)"
  shows "\<forall>p \<in> set (GetAllPeers example_znv (peerManager (app s))). text_safe p \<and> publicKey p \<noteq> []"
    and "\<exists>b. main_start example_znv example_lib default_options keyPair (disk s) = Returns () b"
proof -
  let ?new = "peerManager (main_state example_znv example_lib default_options keyPair)"
  have inv: "life_inv example_znv ''peers.txt'' example_saved s" using assms(1,2) by (rule life_inv_reached)
  have wf: "pm_wf (peerManager (app s))" using app_reachable_invariant inv by (auto simp: life_inv_def net_wf_def)
  show safe: "\<forall>p \<in> set (GetAllPeers example_znv (peerManager (app s))). text_safe p \<and> publicKey p \<noteq> []"
    using GetAllPeers_iff [OF _ wf, of example_znv] assms(4)
    by (auto simp: restored_def text_safe_def example_peer_def split: if_splits)
  have "disk s = SavePeersToFile example_znv ''peers.txt'' (peerManager (app s)) example_saved"
    using inv assms(3) by (simp add: life_inv_def saved_def joined_def)
  moreover have "can_open_for_writing example_znv ''peers.txt''" by (simp add: example_znv_def)
  ultimately have "fst (LoadPeersFromFile example_znv ''peers.txt'' (disk s) ?new) = Inr ()"
    using GetPeer_load_saved(1) [OF example_znv_simps(1) wf _ _ pm_wf_main_state] safe by simp
  then obtain pm where "LoadPeersFromFile example_znv ''peers.txt'' (disk s) ?new = (Inr (), pm)"
    by (metis prod.collapse)
  then show "\<exists>b. main_start example_znv example_lib default_options keyPair (disk s) = Returns () b"
    by (simp add: main_start_def Let_def Start_def connect_initial_def default_options_def)
qed

theorem next_start_restores_witness:
  "\<exists>keyPair a s. main_start example_znv example_lib default_options keyPair example_saved = Returns () a \<and>
    life_run example_znv ''peers.txt'' (launched a example_saved) s \<and> mainPc s = MainReturned \<and>
    (\<exists>b. main_start example_znv example_lib default_options keyPair (disk s) = Returns () b \<and>
       GetPeer ''p1'' (peerManager b) = Some (restored example_znv (restored example_znv example_peer)))"
proof -
  obtain keyPair a s where start: "main_start example_znv example_lib default_options keyPair example_saved = Returns () a"
    and run: "life_run example_znv ''peers.txt'' (launched a example_saved) s" "mainPc s = MainReturned"
    and peers: "\<forall>k. GetPeer k (peerManager (app s)) = (if k = ''p1'' then Some (restored example_znv example_peer) else None)"
    using example_first_run by blast
  note second = example_second_start [OF start run peers]
  obtain b where b: "main_start example_znv example_lib default_options keyPair (disk s) = Returns () b"
    using second(2) by blast
  have f: "opt_peers_file default_options = ''peers.txt''" and opens: "can_open_for_writing example_znv ''peers.txt''"
    by (simp_all add: default_options_def example_znv_def)
  have "GetPeer ''p1'' (peerManager b) = map_option (restored example_znv) (GetPeer ''p1'' (peerManager (app s)))"
    by (rule next_start_restores [OF start _ run(2) example_znv_simps(1) _ second(1) b])
      (use run(1) f opens in simp_all)
  then have "GetPeer ''p1'' (peerManager b) = Some (restored example_znv (restored example_znv example_peer))"
    using peers by simp
  with start run b show ?thesis by blast
qed

text \<open>
  C19: A signal saves the peers but does not end the program. While the command line waits for a
  line, with the mutex free and the display thread not just about to sleep, a \<open>SIGINT\<close> or \<open>SIGTERM\<close> lets
  the main thread stop the network and write the peers file; but \<open>main\<close> does not return, in any run,
  before the user has entered a line.
\<close>
theorem signal_waits_for_line:
  assumes "main_start e lib opts keyPair fs = Returns u a"
    and "life_run env (opt_peers_file opts) (launched a fs) s" and "mainPc s = MainWait" and "cliPc s = CliInput"
    and "\<not> socketsMutex (app s)" and "displayThread (userInterface (app s)) \<noteq> AboutToWait"
  shows "(\<exists>t. silent_run env (opt_peers_file opts) (signalHandler s) t \<and> mainPc t = MainJoin \<and>
      disk t = SavePeersToFile env (opt_peers_file opts) (peerManager (app s)) (disk s)) \<and>
    (\<forall>t. silent_run env (opt_peers_file opts) s t \<longrightarrow> mainPc t \<noteq> MainReturned)"
proof -
  let ?c = "notify (stop_flag (userInterface (app s)))"
  have "\<exists>n. displayThread (display_steps (example_env :: env) example_terminal n ?c) \<in> {NotStarted, Finished}"
  proof (cases "displayThread ?c = NotStarted")
    case True
    then show ?thesis by (intro exI [of _ 0]) simp
  next
    case False
    then have "displayThread ?c \<notin> {NotStarted, AboutToWait, Waiting}" and "\<not> cli_running ?c"
      using assms(6) by (auto simp: notify_def stop_flag_def)
    then show ?thesis using finishes [of ?c example_env example_terminal] by blast
  qed
  then obtain n where n: "displayThread (display_steps (example_env :: env) example_terminal n ?c) \<in> {NotStarted, Finished}"
    by blast
  have "\<exists>t. silent_run env (opt_peers_file opts) (signalHandler s) t \<and> mainPc t = MainJoin \<and>
      disk t = SavePeersToFile env (opt_peers_file opts) (peerManager (app s)) (disk s)"
    using cleanup_run [where s = "signalHandler s" and tm = example_terminal and n = n and e = example_env
        and f = "opt_peers_file opts" and env = env] n assms(3,5)
    by (auto simp: signalHandler_def)
  moreover have "mainPc t \<noteq> MainReturned" if "silent_run env (opt_peers_file opts) s t" for t
    using waiting.run_keeps [OF that] assms(3,4) by (auto simp: joined_def)
  ultimately show ?thesis by blast
qed

theorem signal_waits_for_line_witness:
  "\<exists>t. silent_run example_znv ''peers.txt'' (signalHandler example_prompt) t \<and> mainPc t = MainJoin"
  using signal_waits_for_line [OF example_launch_start, of example_znv example_prompt] example_prompt_run
  by (auto simp: default_options_def example_prompt_def launched_def run_prologue_def SetMessageHandler_def
      SetConnectionHandler_def DisplaySystemMessage_def startDisplayThread_def queueDisplay_def notify_def
      example_launch_def)

theorem exit_leaves_directory_witness:
  "\<exists>keyPair a s. main_start example_znv example_lib default_options keyPair Map.empty = Returns () a \<and>
    life_run example_znv ''peers.txt'' (launched a Map.empty) s \<and> disk s = SavePeersToFile example_znv ''peers.txt'' (peerManager (app s)) Map.empty"
proof -
  obtain keyPair a s where start: "main_start example_znv example_lib default_options keyPair Map.empty = Returns () a"
    and run: "life_run example_znv ''peers.txt'' (launched a Map.empty) s" and ret: "mainPc s = MainReturned"
    using example_main_exits by blast
  have "opt_peers_file default_options = ''peers.txt''" by (simp add: default_options_def)
  with exit_leaves_directory [OF start _ ret] run start show ?thesis by auto
qed

text \<open>
  C12: A \<open>connect\<close> cannot be ended by a signal. When the user has typed \<open>connect\<close> with an address and a
  port that ZeroMQ accepts, the command line is stuck for good, and whatever is typed and however
  many signals come, \<open>main\<close> never returns and never writes the peers file.
\<close>
theorem connect_survives_signals:
  assumes "main_start e lib opts keyPair fs = Returns u a"
    and "life_run env (opt_peers_file opts) (launched a fs) s" and "mainPc s = MainWait"
    and "cliPc s = CliProcess (join_words [''connect'', addr, dec_string p])" and "is_word addr" and "p < 2 ^ 64"
    and "\<And>i c. open_dealer e' i c = None" and "cli_thread_step e' tm s = Some s'"
    and "life_run env (opt_peers_file opts) s' t"
  shows "cliPc s' = CliBlocked \<and> mainPc t \<noteq> MainReturned \<and> disk t = disk s"
proof -
  have inv: "life_inv env (opt_peers_file opts) fs s" using assms(1,2) by (rule life_inv_reached)
  then have "commands_registered (app s)"
    using app_reachable_invariant by (auto simp: life_inv_def ui_installed_def)
  then have "\<exists>b. ProcessCommand e' tm (join_words [''connect'', addr, dec_string p]) (app s) = Blocks b \<and> socketsMutex b"
  proof (cases "socketsMutex (app s)")
    case True
    then show ?thesis
      using assms(5,6) ParseCommand_first [of "''connect''" "[addr, dec_string p]" "app s"] \<open>commands_registered (app s)\<close>
      by (simp add: registered_find HandleConnect_def stoul_dec_string ConnectToPeer_cases del: join_words.simps)
  next
    case False
    then show ?thesis
      using assms(5-7) ProcessCommand_connect [OF \<open>commands_registered (app s)\<close>] by (simp add: dialled_def)
  qed
  then have s': "cliPc s' = CliBlocked" "socketsMutex (app s')" "mainPc s' = MainWait" "disk s' = disk s"
    using assms(3,4,8) by (auto simp: cli_thread_step_def)
  have "life_inv env (opt_peers_file opts) fs s'" using cli_thread_step_keeps [OF inv assms(8)] .
  moreover from this s' have "wedged fs s'"
    by (simp add: wedged_def life_inv_def before_stop_def saved_def joined_def)
  ultimately have "wedged fs t" using wedging.run_keeps [OF assms(9)] by blast
  moreover have "disk s = fs" using inv assms(3) by (simp add: life_inv_def saved_def joined_def)
  ultimately show ?thesis using s'(1) by (auto simp: wedged_def before_stop_def)
qed

theorem connect_survives_signals_witness:
  "\<exists>s t. cli_thread_step example_znv example_terminal s = Some t \<and> cliPc t = CliBlocked \<and>
    life_run example_znv ''peers.txt'' (launched example_launch Map.empty) s \<and> disk (signalHandler t) = Map.empty"
proof -
  let ?line = "join_words [''connect'', ''localhost'', dec_string 8081]"
  define s where "s = example_prompt\<lparr>app := on_ui (\<lambda>c. c\<lparr>history := history c @ [?line]\<rparr>) (app example_prompt),
    cliPc := CliProcess ?line\<rparr>"
  have "cli_input (Some ?line) example_prompt = Some s"
    by (simp add: cli_input_def s_def example_prompt_def)
  then have "life_run example_znv ''peers.txt'' example_prompt s" by (rule input_run) simp
  with example_prompt_run have run: "life_run example_znv ''peers.txt'' (launched example_launch Map.empty) s"
    by (rule rtranclp_trans)
  have wait: "mainPc s = MainWait" "cliPc s = CliProcess ?line" "disk s = Map.empty"
    by (simp_all add: s_def example_prompt_def launched_def)
  obtain t where t: "cli_thread_step example_znv example_terminal s = Some t"
    using cli_process_step [OF wait(2)] by blast
  have "life_run example_znv ''peers.txt'' t (signalHandler t)"
    by (rule signal_run)
  then have "cliPc t = CliBlocked \<and> disk (signalHandler t) = disk s"
    using connect_survives_signals [OF example_launch_start _ wait(1,2) _ _ _ t, of example_znv "signalHandler t"] run
    by (simp add: default_options_def is_word_def is_space_def)
  with t run wait(3) show ?thesis by auto
qed

text \<open>
  C35: A signal that comes too early. If it arrives before the thread of the command line has set its
  flag, the main thread stops a command line that does not run yet; \<open>Run\<close> then sets the flag again,
  and the program prompts the user with its network stopped and its peers already saved.
\<close>
theorem early_signal_overwritten:
  assumes "main_start e lib opts keyPair fs = Returns u a"
  shows "\<exists>s. life_run env (opt_peers_file opts) (launched a fs) s \<and> \<not> g_running s \<and> mainPc s = MainJoin \<and>
    cliPc s = CliInput \<and> cli_running (userInterface (app s)) \<and> \<not> running (app s)"
proof -
  let ?f = "opt_peers_file opts" and ?s = "signalHandler (launched a fs)"
  note a = main_start_launches [OF assms]
  have first: "life_run env ?f (launched a fs) ?s"
    by (rule signal_run)
  have "displayThread (display_steps (example_env :: env) example_terminal 0 (notify (stop_flag (userInterface (app ?s)))))
      = NotStarted"
    using a by (simp add: signalHandler_def launched_def notify_def stop_flag_def)
  then obtain t where t: "silent_run env ?f ?s t" "mainPc t = MainJoin" "cliPc t = CliStart" "\<not> g_running t"
      "\<not> running (app t)"
    using cleanup_run [where s = ?s and tm = example_terminal and n = 0 and e = example_env and f = ?f and env = env] a
      Stop_keeps_interface by (fastforce simp: signalHandler_def launched_def)
  let ?head = "t\<lparr>app := run_prologue (app t), cliPc := CliHead\<rparr>" and ?in = "t\<lparr>app := run_prologue (app t), cliPc := CliInput\<rparr>"
  have steps: "cli_thread_step e tm t = Some ?head" "cli_thread_step e tm ?head = Some ?in" for tm
    using t(3) by (simp_all add: cli_thread_step_def run_prologue_def SetMessageHandler_def SetConnectionHandler_def
        DisplaySystemMessage_def startDisplayThread_def)
  have "life_run env ?f t ?in"
    by (rule cli_run_step [OF steps(1)], rule cli_run_step [OF steps(2)], rule rtranclp.rtrancl_refl)
  with first silent_life_run [OF t(1)] have "life_run env ?f (launched a fs) ?in" by (meson rtranclp_trans)
  moreover have "cli_running (userInterface (app ?in)) \<and> \<not> running (app ?in)"
    using t(5) by (simp add: run_prologue_def SetMessageHandler_def SetConnectionHandler_def DisplaySystemMessage_def
        startDisplayThread_def)
  ultimately show ?thesis using t(2,4) by (intro exI [of _ ?in]) simp
qed

theorem early_signal_overwritten_witness:
  "\<exists>s. life_run example_znv ''peers.txt'' (launched example_launch Map.empty) s \<and> mainPc s = MainJoin \<and> cliPc s = CliInput"
  using early_signal_overwritten [OF example_launch_start] by (auto simp: default_options_def)

end
