(* ===== verification/RouterSends.thy ===== *)
theory RouterSends
  imports Network Threads
begin

text \<open>
  Two threads in \<open>SendViaRouter\<close>. The router socket has no lock of its own: the thread of the command
  line sends through it in \<open>BroadcastMessage\<close> (under \<open>socketsMutex_\<close>), the router thread in
  \<open>HandleMessage\<close> when it answers a handshake (without). A message is two frames, the id of the peer
  and the data, handed to ZeroMQ by two calls of \<open>send\<close>.

  Here each call of \<open>SendViaRouter\<close> has a program counter and its steps are the test of the pointer
  and the two sends; the steps of two calls interleave. Run alone, the steps do what \<open>SendViaRouter\<close>
  does in one piece.
\<close>

section \<open>Data\<close>

datatype send_pc = SendTest | SendId | SendData | SendDone

text \<open>A call of \<open>SendViaRouter\<close>: the peer and the message.\<close>
record send_call =
  send_peer :: string
  send_message :: Message

record 'ui sending =
  sender_net :: "'ui NetImpl"
  first_pc :: send_pc
  second_pc :: send_pc

section \<open>Operations\<close>

definition router_send :: "znv \<Rightarrow> bool \<Rightarrow> byte list \<Rightarrow> send_pc \<Rightarrow> 'ui NetImpl \<Rightarrow> send_pc \<times> 'ui NetImpl" where
  "router_send e sndmore bytes next n =
     (case zmq_send e RouterSocket sndmore bytes of
        Sent \<Rightarrow> (next, send_frame RouterSocket sndmore bytes n)
      | WouldBlock \<Rightarrow> (next, n)
      | SendFails w \<Rightarrow> (SendDone, n))"

fun send_step :: "znv \<Rightarrow> send_call \<Rightarrow> send_pc \<Rightarrow> 'ui NetImpl \<Rightarrow> send_pc \<times> 'ui NetImpl" where
  "send_step e c SendTest n = (if routerSocket n then SendId else SendDone, n)"
| "send_step e c SendId n = router_send e True (string_to_bytes (send_peer c)) SendData n"
| "send_step e c SendData n = router_send e False (Serialize (send_message c)) SendDone n"
| "send_step e c SendDone n = (SendDone, n)"

text \<open>A call that runs alone: three steps bring it to its end.\<close>
fun send_alone :: "znv \<Rightarrow> send_call \<Rightarrow> nat \<Rightarrow> send_pc \<times> 'ui NetImpl \<Rightarrow> send_pc \<times> 'ui NetImpl" where
  "send_alone e c 0 s = s"
| "send_alone e c (Suc k) s = send_alone e c k (send_step e c (fst s) (snd s))"

definition sends_begin :: "'ui NetImpl \<Rightarrow> 'ui sending" where
  "sends_begin n = \<lparr>sender_net = n, first_pc = SendTest, second_pc = SendTest\<rparr>"

definition move_first :: "znv \<Rightarrow> send_call \<Rightarrow> 'ui sending \<Rightarrow> 'ui sending" where
  "move_first e c s =
     (let (pc, n) = send_step e c (first_pc s) (sender_net s) in s\<lparr>sender_net := n, first_pc := pc\<rparr>)"

definition move_second :: "znv \<Rightarrow> send_call \<Rightarrow> 'ui sending \<Rightarrow> 'ui sending" where
  "move_second e c s =
     (let (pc, n) = send_step e c (second_pc s) (sender_net s) in s\<lparr>sender_net := n, second_pc := pc\<rparr>)"

inductive sending_step :: "znv \<Rightarrow> send_call \<Rightarrow> send_call \<Rightarrow> 'ui sending \<Rightarrow> 'ui sending \<Rightarrow> bool" for e a b where
  first_sends: "first_pc s \<noteq> SendDone \<Longrightarrow> sending_step e a b s (move_first e a s)"
| second_sends: "second_pc s \<noteq> SendDone \<Longrightarrow> sending_step e a b s (move_second e b s)"

text \<open>A schedule of the two threads.\<close>
definition run_sends :: "znv \<Rightarrow> send_call \<Rightarrow> send_call \<Rightarrow> bool list \<Rightarrow> 'ui sending \<Rightarrow> 'ui sending" where
  "run_sends e a b sched s = fold (\<lambda>first. if first then move_first e a else move_second e b) sched s"

section \<open>Specification\<close>

text \<open>The frames of a message, in the order in which \<open>SendViaRouter\<close> hands them over.\<close>
definition message_frames :: "send_call \<Rightarrow> frame list" where
  "message_frames c =
     [Frame RouterSocket True (string_to_bytes (send_peer c)), Frame RouterSocket False (Serialize (send_message c))]"

text \<open>Frames that are whole messages: every id is followed at once by its data.\<close>
fun whole_messages :: "frame list \<Rightarrow> bool" where
  "whole_messages [] = True"
| "whole_messages (Frame r sndmore i # Frame r' sndsndmore' d # fs) = (sndmore \<and> \<not> sndsndmore' \<and> whole_messages fs)"
| "whole_messages _ = False"

fun frames_sent :: "send_call \<Rightarrow> send_pc \<Rightarrow> frame list" where
  "frames_sent c SendTest = []"
| "frames_sent c SendId = []"
| "frames_sent c SendData = take 1 (message_frames c)"
| "frames_sent c SendDone = message_frames c"

definition sends_inv :: "send_call \<Rightarrow> send_call \<Rightarrow> 'ui NetImpl \<Rightarrow> 'ui sending \<Rightarrow> bool" where
  "sends_inv a b n s \<longleftrightarrow> routerSocket (sender_net s) \<and>
     (\<exists>w \<in> shuffles (frames_sent a (first_pc s)) (frames_sent b (second_pc s)). wire (sender_net s) = wire n @ w)"

section \<open>Lemmas\<close>

text \<open>A new last element of one list is a last element of a shuffle.\<close>
lemma snoc_shuffles_single [simp]: "ys @ [x] \<in> shuffles [x] ys" "ys @ [x] \<in> shuffles ys [x]"
  by (induction ys) (auto simp: Cons_in_shuffles_rightI Cons_in_shuffles_leftI)

lemma shuffles_snoc_left: "w \<in> shuffles xs ys \<Longrightarrow> w @ [x] \<in> shuffles (xs @ [x]) ys"
proof (induction xs ys arbitrary: w rule: shuffles.induct)
qed auto

lemma shuffles_snoc_right: "w \<in> shuffles xs ys \<Longrightarrow> w @ [y] \<in> shuffles xs (ys @ [y])"
  by (metis shuffles_commutes shuffles_snoc_left)

text \<open>Every send of the router socket succeeds.\<close>
definition takes_all :: "znv \<Rightarrow> bool" where
  "takes_all e \<longleftrightarrow> (\<forall>sndmore d. zmq_send e RouterSocket sndmore d = Sent)"

lemma sends_inv_step:
  assumes "takes_all e" and "sends_inv a b n s" and "sending_step e a b s t"
  shows "sends_inv a b n t"
  using assms(3)
proof cases
  case first_sends
  then show ?thesis
    using assms(1,2)
    by (cases "first_pc s") (auto simp: sends_inv_def move_first_def router_send_def takes_all_def message_frames_def
        dest: shuffles_snoc_left)
next
  case second_sends
  then show ?thesis
    using assms(1,2)
    by (cases "second_pc s") (auto simp: sends_inv_def move_second_def router_send_def takes_all_def message_frames_def
        dest: shuffles_snoc_right)
qed

interpretation sends: step_invariant "sending_step e a b" "\<lambda>s. takes_all e \<and> sends_inv a b n s"
  for e a b and n :: "'ui NetImpl"
  by unfold_locales (use sends_inv_step in blast)

fun send_rank :: "send_pc \<Rightarrow> nat" where
  "send_rank SendTest = 3"
| "send_rank SendId = 2"
| "send_rank SendData = 1"
| "send_rank SendDone = 0"

lemma send_step_rank: "pc \<noteq> SendDone \<Longrightarrow> send_rank (fst (send_step e c pc n)) < send_rank pc"
  by (cases pc) (auto simp: router_send_def split: send_result.split)

interpretation sends_end: ranked_steps "sending_step e a b" "\<lambda>_. True" "\<lambda>s. send_rank (first_pc s) + send_rank (second_pc s)"
  for e a b
proof unfold_locales
  fix s t :: "'ui sending"
  assume "sending_step e a b s t"
  then show "send_rank (first_pc t) + send_rank (second_pc t) < send_rank (first_pc s) + send_rank (second_pc s)"
    by cases (use send_step_rank in \<open>auto simp: move_first_def move_second_def split: prod.split dest!: eq_fst_iff [THEN iffD2]\<close>)
qed simp

lemma sending_stuck: "stuck (sending_step e a b) s \<longleftrightarrow> first_pc s = SendDone \<and> second_pc s = SendDone"
  by (auto simp: stuck_def elim: sending_step.cases intro: sending_step.intros)

text \<open>What a schedule computes is a run; a thread that is done stays as it is.\<close>
lemma run_sends_steps: "(sending_step e a b)\<^sup>*\<^sup>* s (run_sends e a b sched s)"
proof (induction sched arbitrary: s)
  case Nil
  then show ?case by (simp add: run_sends_def)
next
  case (Cons first sched)
  let ?t = "if first then move_first e a s else move_second e b s"
  have "move_first e a s = s" if "first_pc s = SendDone"
    using that by (simp add: move_first_def)
  moreover have "move_second e b s = s" if "second_pc s = SendDone"
    using that by (simp add: move_second_def)
  ultimately have "(sending_step e a b)\<^sup>*\<^sup>* s ?t"
    by (cases first) (metis first_sends second_sends r_into_rtranclp rtranclp.rtrancl_refl)+
  also have "(sending_step e a b)\<^sup>*\<^sup>* ?t (run_sends e a b sched ?t)" by (rule Cons.IH)
  finally show ?case by (cases first) (simp_all add: run_sends_def)
qed

text \<open>The schedules that send the four frames in each possible order.\<close>
definition send_orders :: "bool list list" where
  "send_orders = map (\<lambda>order. [True, False] @ order)
     [[True, True, False, False], [True, False, True, False], [True, False, False, True],
      [False, True, True, False], [False, True, False, True], [False, False, True, True]]"

lemma shuffle_reached:
  assumes "takes_all e" and "routerSocket n" and "w \<in> shuffles (message_frames a) (message_frames b)"
  shows "\<exists>sched \<in> set send_orders. let s = run_sends e a b sched (sends_begin n) in
    first_pc s = SendDone \<and> second_pc s = SendDone \<and> wire (sender_net s) = wire n @ w"
  using assms
  by (auto simp: send_orders_def message_frames_def run_sends_def sends_begin_def move_first_def move_second_def
      router_send_def takes_all_def)

section \<open>Properties\<close>

definition hello_bob :: send_call where
  "hello_bob = \<lparr>send_peer = ''bob'', send_message = CreatePingMessage example_znv\<rparr>"

definition hello_eve :: send_call where
  "hello_eve = \<lparr>send_peer = ''eve'', send_message = CreatePongMessage example_znv\<rparr>"

text \<open>
  The steps are those of \<open>SendViaRouter\<close>. Whatever ZeroMQ does with the frames, a call that no
  other thread disturbs is done after three steps and leaves what the function leaves in one piece.
\<close>
theorem send_alone_atomic:
  "send_alone e c 3 (SendTest, n) = (SendDone, SendViaRouter e (send_peer c) (send_message c) n)"
  by (auto simp: numeral_eq_Suc SendViaRouter_def Let_def router_send_def split: send_result.split)



text \<open>
  Messages of two threads get mixed up. Each message alone, and the two one after the other, are
  whole; but two threads may both hand over their id before either hands over its data, and then no
  division of the frames into pairs of id and data is left.
\<close>
theorem messages_can_mix:
  assumes "takes_all e" and "routerSocket n"
  shows "whole_messages (message_frames a @ message_frames b) \<and>
    (\<exists>s w. (sending_step e a b)\<^sup>*\<^sup>* (sends_begin n) s \<and> stuck (sending_step e a b) s \<and>
       wire (sender_net s) = wire n @ w \<and> \<not> whole_messages w)"
proof -
  let ?w = "[hd (message_frames a), hd (message_frames b), last (message_frames a), last (message_frames b)]"
  have "?w \<in> shuffles (message_frames a) (message_frames b)" by (simp add: message_frames_def)
  then obtain sched where "let s = run_sends e a b sched (sends_begin n) in
      first_pc s = SendDone \<and> second_pc s = SendDone \<and> wire (sender_net s) = wire n @ ?w"
    using shuffle_reached [OF assms] by blast
  moreover have "\<not> whole_messages ?w" and "whole_messages (message_frames a @ message_frames b)"
    by (simp_all add: message_frames_def)
  ultimately show ?thesis
    using run_sends_steps [of e a b "sends_begin n" sched] unfolding Let_def sending_stuck by blast
qed

theorem messages_can_mix_witness:
  "\<exists>s w. (sending_step example_znv hello_bob hello_eve)\<^sup>*\<^sup>* (sends_begin (example_net\<lparr>routerSocket := True\<rparr>)) s \<and>
    wire (sender_net s) = w \<and> \<not> whole_messages w"
  using messages_can_mix [of example_znv "example_net\<lparr>routerSocket := True\<rparr>" hello_bob hello_eve]
  by (auto simp: takes_all_def example_net_def NetImpl_new_def)

end
