(* ===== verification/Coroutines.thy ===== *)
theory Coroutines
  imports Network
begin

text \<open>
  The draft of the network layer on Boost.Asio coroutines, \<open>Source/Network_coroutines_wip.cpp\<close>: TCP
  sessions that read length-prefixed messages from a byte stream.

  Sessions are shared objects: a reference is an index into \<open>store\<close>, and \<open>sessions_\<close> maps peer ids to
  references. What \<open>co_spawn\<close> of \<open>SendMessage\<close> writes is appended to \<open>outbox\<close>. Boost.Asio is not part of
  the sources: the bytes a session receives before its stream ends are the argument of \<open>Session_Run\<close>,
  the result of resolving, connecting and accepting is an argument of the functions that await it.
  \<open>sessionsMutex_\<close> is never taken twice by one thread, and the methods are atomic steps.
\<close>

section \<open>Data\<close>

text \<open>\<open>class Session\<close>; \<open>remote_endpoint\<close> is \<open>None\<close> where the call on the socket throws.\<close>
record Session =
  session_peerId :: string
  isOutgoing :: bool
  socket_open :: bool
  remote_endpoint :: "(string \<times> u16) option"

record 'ui AsioImpl =
  asio_peerManager :: PeerManager
  asio_ui :: 'ui
  asio_messageHandler :: "'ui MessageHandler option"
  asio_connectionHandler :: "'ui ConnectionHandler option"
  acceptor :: "bool option"
  sessions :: "nat umap"
  store :: "Session list"
  asio_running :: bool
  outbox :: "(nat \<times> byte list) list"

section \<open>Operations\<close>

definition AsioImpl_new :: "PeerManager \<Rightarrow> 'ui \<Rightarrow> 'ui AsioImpl" where
  "AsioImpl_new pm u = \<lparr>asio_peerManager = pm, asio_ui = u, asio_messageHandler = None,
     asio_connectionHandler = None, acceptor = None, sessions = [], store = [], asio_running = False, outbox = []\<rparr>"

definition make_session :: "bool \<Rightarrow> (string \<times> u16) option \<Rightarrow> 'ui AsioImpl \<Rightarrow> nat \<times> 'ui AsioImpl" where
  "make_session outgoing remote s =
     (length (store s),
      s\<lparr>store := store s @ [\<lparr>session_peerId = [], isOutgoing = outgoing, socket_open = True,
                            remote_endpoint = remote\<rparr>]\<rparr>)"

definition HasPeerId :: "Session \<Rightarrow> bool" where
  "HasPeerId x = (session_peerId x \<noteq> [])"

definition Session_SendMessage :: "nat \<Rightarrow> Message \<Rightarrow> 'ui AsioImpl \<Rightarrow> 'ui AsioImpl" where
  "Session_SendMessage ref msg s = s\<lparr>outbox := outbox s @ [(ref, Serialize msg)]\<rparr>"

definition asio_notify_connection :: "znv \<Rightarrow> string \<Rightarrow> bool \<Rightarrow> 'ui AsioImpl \<Rightarrow> 'ui AsioImpl" where
  "asio_notify_connection e peerId connected s =
     (case asio_connectionHandler s of
        None \<Rightarrow> s
      | Some h \<Rightarrow> let (pm, u) = h e peerId connected (asio_peerManager s, asio_ui s)
                  in s\<lparr>asio_peerManager := pm, asio_ui := u\<rparr>)"

definition asio_notify_message :: "znv \<Rightarrow> string \<Rightarrow> Message \<Rightarrow> 'ui AsioImpl \<Rightarrow> 'ui AsioImpl" where
  "asio_notify_message e peerId msg s =
     (case asio_messageHandler s of
        None \<Rightarrow> s
      | Some h \<Rightarrow> let (pm, u) = h e peerId msg (asio_peerManager s, asio_ui s)
                  in s\<lparr>asio_peerManager := pm, asio_ui := u\<rparr>)"

text \<open>The handshake branch of \<open>HandleSessionMessage\<close>, behind the two length checks.\<close>
definition bind_session :: "znv \<Rightarrow> nat \<Rightarrow> string \<Rightarrow> byte list \<Rightarrow> 'ui AsioImpl \<Rightarrow> 'ui AsioImpl" where
  "bind_session e ref peerId key s =
     (let session = store s ! ref;
          s = s\<lparr>store := (store s)[ref := session\<lparr>session_peerId := peerId\<rparr>],
                sessions := umap_assign peerId ref (sessions s)\<rparr>;
          s = (case remote_endpoint session of
                 None \<Rightarrow> s
               | Some (addr, portNo) \<Rightarrow>
                   s\<lparr>asio_peerManager := AddPeer
                      \<lparr>peer_id = peerId, address = addr, port = portNo, publicKey = key, isConnected = True,
                       lastSeen = clock_now e\<rparr> (asio_peerManager s)\<rparr>);
          s = asio_notify_connection e peerId True s
      in if isOutgoing session then s
         else let local = GetLocalPeer (asio_peerManager s) in
              Session_SendMessage ref (CreateHandshakeMessage e (peer_id local) (publicKey local)) s)"

definition HandleSessionMessage :: "znv \<Rightarrow> nat \<Rightarrow> Message \<Rightarrow> 'ui AsioImpl \<Rightarrow> 'ui AsioImpl" where
  "HandleSessionMessage e ref msg s =
     (let s = (if GetType msg = HANDSHAKE \<and> \<not> HasPeerId (store s ! ref) then
                 (case handshake_fields (GetPayload msg) of
                    None \<Rightarrow> s
                  | Some (peerId, key) \<Rightarrow> bind_session e ref peerId key s)
               else s)
      in if HasPeerId (store s ! ref) then asio_notify_message e (session_peerId (store s ! ref)) msg s else s)"

definition handleError :: "znv \<Rightarrow> nat \<Rightarrow> 'ui AsioImpl \<Rightarrow> 'ui AsioImpl" where
  "handleError e ref s =
     (let session = store s ! ref;
          s = (if HasPeerId session then asio_notify_connection e (session_peerId session) False s else s)
      in s\<lparr>store := (store s)[ref := (store s ! ref)\<lparr>socket_open := False\<rparr>]\<rparr>)"

text \<open>
  \<open>Session::Run\<close> on the bytes that arrive until the stream ends: the end inside a read throws, as do
  a size over the limit and a refused message; \<open>Session::Start\<close> catches and closes.
\<close>
function Session_Run :: "znv \<Rightarrow> nat \<Rightarrow> byte list \<Rightarrow> 'ui AsioImpl \<Rightarrow> (unit, 'ui AsioImpl) outcome" where
  "Session_Run e ref stream s =
     (if length stream < 13 then Raises (RuntimeError ''End of file'') s
      else
        let payloadSize = get_u32 (stream ! 1) (stream ! 2) (stream ! 3) (stream ! 4) in
        if 10485760 < payloadSize then Raises (RuntimeError ''Message too large'') s
        else if length stream < 13 + unat payloadSize then Raises (RuntimeError ''End of file'') s
        else
          case Deserialize (take (unat (13 + payloadSize)) stream) of
            Inl f \<Rightarrow> Raises f s
          | Inr msg \<Rightarrow>
              Session_Run e ref (drop (13 + unat payloadSize) stream) (HandleSessionMessage e ref msg s))"
  by pat_completeness auto
termination
  by (relation "measure (\<lambda>(e, ref, stream, s). length stream)") auto

declare Session_Run.simps [simp del]

definition Session_Start :: "znv \<Rightarrow> nat \<Rightarrow> byte list \<Rightarrow> 'ui AsioImpl \<Rightarrow> (unit, 'ui AsioImpl) outcome" where
  "Session_Start e ref stream s =
     catch_outcome is_exception (\<lambda>x s. Returns () (handleError e ref s)) (Session_Run e ref stream s)"

text \<open>One turn of \<open>AcceptLoop\<close>: \<open>None\<close> where accepting throws; otherwise the new session and its peer.\<close>
definition accept_turn :: "(string \<times> u16) option option \<Rightarrow> 'ui AsioImpl \<Rightarrow> nat option \<times> 'ui AsioImpl" where
  "accept_turn accepted s =
     (if asio_running s \<and> acceptor s = Some True then
        (case accepted of
           None \<Rightarrow> (None, s)
         | Some remote \<Rightarrow> (let (ref, s) = make_session False remote s in (Some ref, s)))
      else (None, s))"

definition asio_Start :: "'ui AsioImpl \<Rightarrow> 'ui AsioImpl" where
  "asio_Start s = s\<lparr>acceptor := Some True, asio_running := True\<rparr>"

definition asio_Stop :: "znv \<Rightarrow> 'ui AsioImpl \<Rightarrow> 'ui AsioImpl" where
  "asio_Stop e s =
     (let s = s\<lparr>asio_running := False, acceptor := map_option (\<lambda>_. False) (acceptor s)\<rparr>;
          refs = map snd (umap_items e (sessions s))
      in s\<lparr>store := fold (\<lambda>ref st. st[ref := (st ! ref)\<lparr>socket_open := False\<rparr>]) refs (store s), sessions := []\<rparr>)"

text \<open>The class around \<open>Impl\<close>.\<close>
definition asio_NetworkManager_new :: "PeerManager \<Rightarrow> 'ui \<Rightarrow> 'ui AsioImpl" where
  "asio_NetworkManager_new pm u = AsioImpl_new pm u"

definition asio_NetworkManager_destroy :: "znv \<Rightarrow> 'ui AsioImpl \<Rightarrow> 'ui AsioImpl" where
  "asio_NetworkManager_destroy e s = asio_Stop e s"

text \<open>\<open>ConnectToPeer\<close> up to the read loop; \<open>None\<close> where resolving or connecting throws.\<close>
definition asio_ConnectToPeer :: "znv \<Rightarrow> (string \<times> u16) option option \<Rightarrow> 'ui AsioImpl \<Rightarrow> nat option \<times> 'ui AsioImpl" where
  "asio_ConnectToPeer e connected s =
     (case connected of
        None \<Rightarrow> (None, s)
      | Some remote \<Rightarrow>
          let (ref, s) = make_session True remote s;
              local = GetLocalPeer (asio_peerManager s)
          in (Some ref, Session_SendMessage ref (CreateHandshakeMessage e (peer_id local) (publicKey local)) s))"

definition asio_DisconnectPeer :: "znv \<Rightarrow> string \<Rightarrow> 'ui AsioImpl \<Rightarrow> 'ui AsioImpl" where
  "asio_DisconnectPeer e peerId s =
     (case umap_find peerId (sessions s) of
        None \<Rightarrow> s
      | Some ref \<Rightarrow> asio_notify_connection e peerId False (s\<lparr>sessions := umap_erase peerId (sessions s)\<rparr>))"

definition asio_SendMessage :: "string \<Rightarrow> Message \<Rightarrow> 'ui AsioImpl \<Rightarrow> 'ui AsioImpl" where
  "asio_SendMessage peerId msg s =
     (case umap_find peerId (sessions s) of None \<Rightarrow> s | Some ref \<Rightarrow> Session_SendMessage ref msg s)"

definition asio_BroadcastMessage :: "znv \<Rightarrow> Message \<Rightarrow> 'ui AsioImpl \<Rightarrow> 'ui AsioImpl" where
  "asio_BroadcastMessage e msg s = fold (\<lambda>ref. Session_SendMessage ref msg) (map snd (umap_items e (sessions s))) s"

definition asio_GetConnectedPeers :: "znv \<Rightarrow> 'ui AsioImpl \<Rightarrow> string list" where
  "asio_GetConnectedPeers e s = map fst (umap_items e (sessions s))"

definition asio_SetMessageHandler :: "'ui MessageHandler option \<Rightarrow> 'ui AsioImpl \<Rightarrow> 'ui AsioImpl" where
  "asio_SetMessageHandler h s = s\<lparr>asio_messageHandler := h\<rparr>"

definition asio_SetConnectionHandler :: "'ui ConnectionHandler option \<Rightarrow> 'ui AsioImpl \<Rightarrow> 'ui AsioImpl" where
  "asio_SetConnectionHandler h s = s\<lparr>asio_connectionHandler := h\<rparr>"

section \<open>Specification\<close>

text \<open>
  The invariant: references are valid, an entry under a non-empty id leads to the session with that
  id, ids and directory are well-formed.
\<close>
definition asio_wf :: "'ui AsioImpl \<Rightarrow> bool" where
  "asio_wf s \<longleftrightarrow> umap_wf (sessions s) \<and> pm_wf (asio_peerManager s) \<and>
     (\<forall>k ref. umap_find k (sessions s) = Some ref \<longrightarrow>
        ref < length (store s) \<and> (k \<noteq> [] \<longrightarrow> session_peerId (store s ! ref) = k)) \<and>
     pred_option message_handler_ok (asio_messageHandler s) \<and>
     pred_option connection_handler_ok (asio_connectionHandler s)"

text \<open>A message the sessions exchange: it has a declared type and at most ten megabytes.\<close>
definition session_message :: "Message \<Rightarrow> bool" where
  "session_message m \<longleftrightarrow> message_wf m \<and> length (msg_payload m) \<le> 10485760"

inductive asio_reachable :: "'ui AsioImpl \<Rightarrow> bool" where
  asio_init: "pm_wf pm \<Longrightarrow> asio_reachable (asio_NetworkManager_new pm u)"
| asio_start: "asio_reachable s \<Longrightarrow> asio_reachable (asio_Start s)"
| asio_stop: "asio_reachable s \<Longrightarrow> asio_reachable (asio_Stop e s)"
| asio_accept: "asio_reachable s \<Longrightarrow> asio_reachable (snd (accept_turn accepted s))"
| asio_connect: "asio_reachable s \<Longrightarrow> asio_reachable (snd (asio_ConnectToPeer e connected s))"
| asio_disconnect: "asio_reachable s \<Longrightarrow> asio_reachable (asio_DisconnectPeer e k s)"
| asio_send: "asio_reachable s \<Longrightarrow> asio_reachable (asio_SendMessage k msg s)"
| asio_broadcast: "asio_reachable s \<Longrightarrow> asio_reachable (asio_BroadcastMessage e msg s)"
| asio_message: "asio_reachable s \<Longrightarrow> ref < length (store s) \<Longrightarrow> asio_reachable (HandleSessionMessage e ref msg s)"
| asio_error: "asio_reachable s \<Longrightarrow> ref < length (store s) \<Longrightarrow> asio_reachable (handleError e ref s)"
| asio_handlers: "asio_reachable s \<Longrightarrow> pred_option message_handler_ok mh \<Longrightarrow> pred_option connection_handler_ok ch
    \<Longrightarrow> asio_reachable (asio_SetConnectionHandler ch (asio_SetMessageHandler mh s))"

section \<open>Lemmas\<close>

lemma asio_notify_simps [simp]:
  "store (asio_notify_connection e k c s) = store s" "sessions (asio_notify_connection e k c s) = sessions s"
  "outbox (asio_notify_connection e k c s) = outbox s" "store (asio_notify_message e k m s) = store s"
  "sessions (asio_notify_message e k m s) = sessions s" "outbox (asio_notify_message e k m s) = outbox s"
  by (simp_all add: asio_notify_connection_def asio_notify_message_def Let_def split: option.split prod.split)

lemma Session_SendMessage_simps [simp]:
  "store (Session_SendMessage r m s) = store s" "sessions (Session_SendMessage r m s) = sessions s"
  "asio_wf (Session_SendMessage r m s) = asio_wf s"
  by (simp_all add: Session_SendMessage_def asio_wf_def)

lemma asio_wf_notify_connection: "asio_wf s \<Longrightarrow> asio_wf (asio_notify_connection e k c s)"
  by (auto simp: asio_wf_def asio_notify_connection_def connection_handler_ok_def Let_def split: option.split prod.split)
    (metis fst_conv)+

lemma asio_wf_notify_message: "asio_wf s \<Longrightarrow> asio_wf (asio_notify_message e k m s)"
  by (auto simp: asio_wf_def asio_notify_message_def message_handler_ok_def Let_def split: option.split prod.split)
    (metis fst_conv)+

text \<open>Giving an id to a session without one, and filing it under that id.\<close>
lemma asio_wf_file_session:
  assumes "asio_wf s" and "ref < length (store s)" and "\<not> HasPeerId (store s ! ref)"
  shows "asio_wf (s\<lparr>store := (store s)[ref := (store s ! ref)\<lparr>session_peerId := k\<rparr>],
    sessions := umap_assign k ref (sessions s)\<rparr>)"
  using assms by (auto simp: asio_wf_def HasPeerId_def umap.wf_assign umap.find_assign nth_list_update split: if_splits)

lemma asio_wf_AddPeer: "asio_wf s \<Longrightarrow> asio_wf (s\<lparr>asio_peerManager := AddPeer p (asio_peerManager s)\<rparr>)"
  by (simp add: asio_wf_def pm_wf_AddPeer)

lemma asio_wf_bind_session:
  assumes "asio_wf s" and "ref < length (store s)" and "\<not> HasPeerId (store s ! ref)"
  shows "asio_wf (bind_session e ref k key s)"
  using asio_wf_AddPeer [OF asio_wf_file_session [OF assms, of k]] asio_wf_file_session [OF assms, of k]
  by (simp add: bind_session_def Let_def asio_wf_notify_connection split: option.split prod.split)

lemma bind_session_simps [simp]:
  "length (store (bind_session e ref k key s)) = length (store s)"
  "sessions (bind_session e ref k key s) = umap_assign k ref (sessions s)"
  "ref < length (store s) \<Longrightarrow> session_peerId (store (bind_session e ref k key s) ! ref) = k"
  by (simp_all add: bind_session_def Let_def split: option.split prod.split)

lemma asio_wf_HandleSessionMessage:
  "asio_wf s \<Longrightarrow> ref < length (store s) \<Longrightarrow> asio_wf (HandleSessionMessage e ref msg s)"
  by (simp add: HandleSessionMessage_def Let_def asio_wf_notify_message asio_wf_bind_session split: option.split prod.split)

lemma close_keeps_id [simp]:
  "session_peerId (xs[r := (xs ! r)\<lparr>socket_open := b\<rparr>] ! i) = session_peerId (xs ! i)"
  by (cases "r < length xs"; cases "i = r") (simp_all add: list_update_beyond)

lemma asio_wf_handleError: "asio_wf s \<Longrightarrow> ref < length (store s) \<Longrightarrow> asio_wf (handleError e ref s)"
proof -
  have close: "asio_wf (t\<lparr>store := (store t)[ref := (store t ! ref)\<lparr>socket_open := False\<rparr>]\<rparr>)" if "asio_wf t" for t :: "'a AsioImpl"
    using that by (simp add: asio_wf_def)
  then show "asio_wf s \<Longrightarrow> ref < length (store s) \<Longrightarrow> ?thesis"
    by (simp add: handleError_def Let_def asio_wf_notify_connection close)
qed

lemma asio_wf_make_session: "asio_wf s \<Longrightarrow> asio_wf (snd (make_session outgoing r s))"
  by (fastforce simp: make_session_def asio_wf_def nth_append)

lemma asio_reachable_wf: "asio_reachable s \<Longrightarrow> asio_wf s"
proof (induction rule: asio_reachable.induct)
  case (asio_init pm u)
  then show ?case by (simp add: asio_wf_def asio_NetworkManager_new_def AsioImpl_new_def umap.wf_empty umap.find_empty)
next
  case (asio_start s)
  then show ?case by (simp add: asio_wf_def asio_Start_def)
next
  case (asio_stop s e)
  then show ?case by (simp add: asio_wf_def asio_Stop_def Let_def umap.wf_empty umap.find_empty)
next
  case (asio_accept s accepted)
  then show ?case
    using asio_wf_make_session [of s False] by (simp add: accept_turn_def Let_def split_beta split: option.split)
next
  case (asio_connect s e connected)
  then show ?case
    using asio_wf_make_session [of s True] by (simp add: asio_ConnectToPeer_def Let_def split_beta split: option.split)
next
  case (asio_disconnect s e k)
  then have "asio_wf (s\<lparr>sessions := umap_erase k (sessions s)\<rparr>)"
    by (auto simp: asio_wf_def umap.wf_erase umap.find_erase)
  with asio_disconnect show ?case by (simp add: asio_DisconnectPeer_def asio_wf_notify_connection split: option.split)
next
  case (asio_send s k msg)
  then show ?case by (simp add: asio_SendMessage_def split: option.split)
next
  case (asio_broadcast s e msg)
  have "asio_wf (fold (\<lambda>ref. Session_SendMessage ref msg) refs s) = asio_wf s" for refs
    by (induction refs arbitrary: s) simp_all
  with asio_broadcast show ?case by (simp add: asio_BroadcastMessage_def)
next
  case (asio_message s ref e msg)
  then show ?case by (simp add: asio_wf_HandleSessionMessage)
next
  case (asio_error s ref e)
  then show ?case by (simp add: asio_wf_handleError)
next
  case (asio_handlers s mh ch)
  then show ?case by (simp add: asio_wf_def asio_SetMessageHandler_def asio_SetConnectionHandler_def)
qed

subsection \<open>Framing\<close>

lemma header_of_Serialize:
  "get_u32 ((Serialize m @ rest) ! 1) ((Serialize m @ rest) ! 2) ((Serialize m @ rest) ! 3) ((Serialize m @ rest) ! 4)
     = of_nat (length (msg_payload m))"
proof -
  have "(Serialize m @ rest) ! i = Serialize m ! i" if "i < 13" for i
    using that by (simp add: nth_append length_Serialize)
  then show ?thesis using Serialize_fields(2) [of m] by simp
qed

lemma Session_Run_message:
  assumes "session_message m"
  shows "Session_Run e ref (Serialize m @ rest) s =
    Session_Run e ref rest (HandleSessionMessage e ref (whole_milliseconds m) s)"
proof -
  let ?size = "of_nat (length (msg_payload m)) :: u32"
  have small: "length (msg_payload m) \<le> 10485760" and wf: "message_wf m"
    using assms by (simp_all add: session_message_def)
  then have size: "unat ?size = length (msg_payload m)" by (simp add: unat_of_nat)
  then have "unat (13 + ?size) = 13 + length (msg_payload m)"
    using small by (simp add: wrapped_bound)
  moreover have "\<not> 10485760 < ?size"
    using small size by (simp add: word_less_nat_alt)
  moreover have "Deserialize (Serialize m) = Inr (whole_milliseconds m)"
    using small wf by (intro read_back) simp_all
  ultimately show ?thesis
    using length_Serialize [of m] size
    by (subst Session_Run.simps) (simp only: header_of_Serialize, simp add: Let_def)
qed

lemma Session_Run_messages:
  assumes "\<forall>m \<in> set ms. session_message m"
  shows "Session_Run e ref (concat (map Serialize ms) @ rest) s =
    Session_Run e ref rest (fold (\<lambda>m. HandleSessionMessage e ref (whole_milliseconds m)) ms s)"
  using assms by (induction ms arbitrary: s) (simp_all add: Session_Run_message)

section \<open>Properties\<close>

text \<open>A manager with one accepted session, and the same after a handshake on it.\<close>
definition example_asio :: "unit AsioImpl" where
  "example_asio = snd (accept_turn (Some (Some (''10.0.0.9'', 8080))) (asio_Start (asio_NetworkManager_new (PeerManager_new example_znv) ())))"

definition example_bound :: "unit AsioImpl" where
  "example_bound = HandleSessionMessage example_znv 0 (CreateHandshakeMessage example_znv ''ab'' [7]) example_asio"

lemma example_bound_reachable: "asio_reachable example_bound"
proof -
  have "asio_reachable example_asio"
    unfolding example_asio_def by (intro asio_accept asio_start asio_init pm_wf_new)
  moreover have "0 < length (store example_asio)"
    by (simp add: example_asio_def accept_turn_def asio_Start_def asio_NetworkManager_new_def AsioImpl_new_def make_session_def)
  ultimately show ?thesis unfolding example_bound_def by (rule asio_message)
qed

lemma example_bound_find: "umap_find ''ab'' (sessions example_bound) = Some 0"
proof -
  have "handshake_fields (GetPayload (CreateHandshakeMessage example_znv ''ab'' [7])) = Some (''ab'', [7])"
    using handshake_fields_payload [of "''ab''" "[7]"] by (simp add: CreateHandshakeMessage_def Message_make_def GetPayload_def)
  moreover have "store example_asio ! 0 = \<lparr>session_peerId = [], isOutgoing = False, socket_open = True,
      remote_endpoint = Some (''10.0.0.9'', 8080)\<rparr>" and "sessions example_asio = []" and "length (store example_asio) = 1"
    by (simp_all add: example_asio_def accept_turn_def asio_Start_def asio_NetworkManager_new_def AsioImpl_new_def make_session_def)
  moreover have "GetType (CreateHandshakeMessage example_znv ''ab'' [7]) = HANDSHAKE"
    by (simp add: CreateHandshakeMessage_def Message_make_def GetType_def)
  ultimately show ?thesis
    by (simp add: example_bound_def HandleSessionMessage_def Let_def HasPeerId_def umap.find_assign umap.wf_empty)
qed

text \<open>
  C23: The stream is cut back into its messages. Whatever messages of at most ten megabytes are
  written to a connection one after the other, followed by an incomplete header, the session hands
  exactly these to its handler, in order and with their timestamps in whole milliseconds, and then
  closes.
\<close>
theorem session_framing:
  assumes "\<forall>m \<in> set ms. session_message m" and "length rest < 13"
  shows "Session_Start e ref (concat (map Serialize ms) @ rest) s =
    Returns () (handleError e ref (fold (\<lambda>m. HandleSessionMessage e ref (whole_milliseconds m)) ms s))"
  unfolding Session_Start_def Session_Run_messages [OF assms(1)]
  using assms(2) by (subst Session_Run.simps) simp

theorem session_framing_witness:
  "Session_Start example_znv 0 (concat (map Serialize [CreatePingMessage example_znv, CreateTextMessage example_znv ''hi'']) @ [1, 2])
      example_asio =
    Returns () (handleError example_znv 0 (fold (\<lambda>m. HandleSessionMessage example_znv 0 (whole_milliseconds m))
      [CreatePingMessage example_znv, CreateTextMessage example_znv ''hi''] example_asio))"
  by (rule session_framing)
    (simp_all add: session_message_def message_wf_def CreatePingMessage_def CreateTextMessage_def Message_make_def)




text \<open>
  A session that has ended is still listed. \<open>handleError\<close> tells the user that the peer is gone
  and closes the socket, but leaves the session in the table: \<open>GetConnectedPeers\<close> lists it, and what
  is sent to its id goes to the closed socket.
\<close>
theorem ended_session_still_listed:
  assumes "asio_reachable s" and "umap_find k (sessions s) = Some ref" and "k \<noteq> []" and "permutes_keys e"
  shows "let t = handleError e ref s in
    \<not> socket_open (store t ! ref) \<and> k \<in> set (asio_GetConnectedPeers e t) \<and>
    outbox (asio_SendMessage k msg t) = outbox s @ [(ref, Serialize msg)]"
proof -
  have wf: "umap_wf (sessions s)" and ref: "ref < length (store s)"
    using asio_reachable_wf [OF assms(1)] assms(2) by (auto simp: asio_wf_def)
  have "(k, ref) \<in> set (umap_items e (sessions s))"
    using umap.items_find [OF assms(4) wf] assms(2) by blast
  then have "k \<in> set (map fst (umap_items e (sessions s)))" by force
  then show ?thesis
    using ref assms(2) by (simp add: handleError_def Let_def asio_GetConnectedPeers_def asio_SendMessage_def
        Session_SendMessage_def)
qed

theorem ended_session_still_listed_witness:
  "''ab'' \<in> set (asio_GetConnectedPeers example_znv (handleError example_znv 0 example_bound))"
  using ended_session_still_listed [OF example_bound_reachable example_bound_find, of example_znv] by (simp add: Let_def)

end
