(* ===== verification/Spec2Isabelle.thy ===== *)
theory Spec2Isabelle
  imports Lifecycle RouterSends Coroutines
begin

text \<open>
  Verification of the peer-to-peer chat program CppP2PChat (C++ sources under \<open>src/Source\<close> and
  \<open>src/Include\<close>).

  \<^bold>\<open>The program.\<close> A node listens on a ZeroMQ router socket for other nodes and dials them with one
  dealer socket each (\<open>NetworkManager\<close>). Nodes exchange messages in a binary format (\<open>Message\<close>); the
  first message on a connection is a handshake with the peer id and the public key. Known peers are
  kept in a directory that is saved to a text file (\<open>PeerManager\<close>). Identities come from OpenSSL
  (\<open>CryptoManager\<close>). The user types commands (\<open>CLIInterface\<close>); everything printed goes through a
  queue to a display thread. \<open>main\<close> puts the parts together: its own thread waits for the end, a second
  one runs the command line, two more belong to the network, one to the display, and a signal handler
  clears the flag that the first one watches.

  \<^bold>\<open>The theories.\<close>
  \<^item> \<open>Prelude\<close>: machine types, faults, the environment of a call (clock, iteration order of hash
    maps, indeterminate values), big-endian codecs and their interfaces \<open>fixed_codec\<close> and
    \<open>length_prefixed\<close>.
  \<^item> \<open>Cxx_Text\<close>, \<open>Cxx_Map\<close>, \<open>Cxx_Run\<close>: what the sources use of the C++ library: number parsing and
    printing, \<open>getline\<close> and \<open>>>\<close>; \<open>std::unordered_map\<close> with an unspecified iteration order
    (interfaces \<open>keyed_store\<close>, \<open>iterable_store\<close>); calls that return, throw or wait for ever, \<open>catch\<close>
    clauses and blocks under \<open>std::lock_guard\<close> (interface \<open>monitor\<close>).
  \<^item> \<open>Threads\<close>: what follows for the runs of interleaved threads from what holds of their single steps
    (interfaces \<open>step_invariant\<close>, \<open>stepwise_simulation\<close>, \<open>ranked_steps\<close>).
  \<^item> \<open>Message\<close> (\<open>Message.cpp\<close>): the wire format. The round trips in both directions, exactly which
    buffers are accepted, truncation, and the length check that wraps in 32 bits.
  \<^item> \<open>PeerManager\<close> (\<open>PeerManager.cpp\<close>): the directory as a record over a hash map; refinement to a
    partial map, invariant over all call sequences, independence of calls on different ids under
    every interleaving (interface \<open>keyed_ops\<close>); the peers file: round trip, and what unescaped
    separators and malformed numbers do.
  \<^item> \<open>Network\<close> (\<open>Network.cpp\<close>): \<open>NetworkManager::Impl\<close> as the record \<open>NetImpl\<close>, every call, the
    handshake, and the bodies of the two thread loops. Which calls deadlock on \<open>socketsMutex_\<close>, what
    follows from it, the invariant (interface \<open>call_invariant\<close>), what any received bytes can do.
  \<^item> \<open>Shutdown\<close> (\<open>Network.cpp\<close>, \<open>Stop\<close>, \<open>RouteMessages\<close>, \<open>PollMessages\<close>): the three at the grain of single
    accesses to the shared members, interleaved. Stopping is linearizable (it leaves what whole turns
    followed by \<open>Stop\<close> leave, which justifies the coarse steps of \<open>Network\<close>), it comes to an end without
    deadlock, and it has a race on \<open>routerSocket_\<close>; when it is safe.
  \<^item> \<open>RouterSends\<close> (\<open>Network.cpp\<close>, \<open>SendViaRouter\<close>): two threads that send through the router socket; the
    possible orders of their frames, exactly.
  \<^item> \<open>Display\<close>, \<open>CliInterface\<close> (\<open>CliInterface.cpp\<close>): the display thread as a state machine
    interleaved with the threads that queue and with \<open>Stop\<close>: order and completeness of the output,
    and when \<open>Stop\<close> returns; parsing, dispatch and all commands; the invariant of the whole program.
  \<^item> \<open>Crypto\<close> (\<open>Crypto.cpp\<close>): the operations as sequences of OpenSSL calls with the handles they
    own. No leak and no double free on any branch; the values computed; signatures, key agreement,
    peer ids.
  \<^item> \<open>Program\<close> (\<open>Main.cpp\<close>): start-up, clean-up, exit status, as one sequence; \<open>quit\<close> ends the program.
  \<^item> \<open>Lifecycle\<close> (\<open>Main.cpp\<close>, \<open>Run\<close>): the threads of the program and its signal handler, interleaved. What
    is on the disk when \<open>main\<close> returns; that the sequence of \<open>Program\<close> is one of the runs; what a
    signal does while the command line waits, before it runs, and after it has deadlocked.
  \<^item> \<open>Coroutines\<close> (\<open>Network_coroutines_wip.cpp\<close>): the draft of another network layer, with sessions as
    shared objects in a store. The byte stream is cut back into its messages, the size limit keeps
    reads in bounds, the table of sessions is sound but keeps sessions that have ended.
  \<^item> This theory: properties that span the parts, from a received frame to the display, the
    directory, the peers file and the next start, and of a network of several nodes.

  \<^bold>\<open>How effects are modelled.\<close> Methods are functions on explicit states; fallible ones give a sum
  (\<open>result\<close>) or an \<open>outcome\<close>. Exceptions keep the state changes made before them. Undefined behaviour
  (reads outside a buffer, signed overflow, null and freed handles) is a fault that no \<open>catch\<close> clause
  catches. Integers have their width. A thread that locks a mutex it holds gets \<open>Blocks\<close>: the C++
  standard leaves this undefined, and the model follows the mutex of the platform (\<open>pthread\<close>), where
  the thread waits for ever. Methods of \<open>PeerManager\<close> hold their mutex throughout and are atomic
  steps. In \<open>Network\<close> a call and a turn of a thread loop are atomic steps of a run; in \<open>Display\<close> the
  steps are the stretches between two operations on the mutex or the condition variable; in \<open>Shutdown\<close>
  and \<open>RouterSends\<close> a step is one access to the shared members or one call of ZeroMQ.

  \<^bold>\<open>Parameters.\<close> ZeroMQ, Boost.Asio, OpenSSL, the \<open>rang\<close> escape codes, the line editor and the options parser are
  not part of the sources. What their calls give is an arbitrary function or an input list, and
  theorems that need documented behaviour of theirs say so in their hypotheses (\<open>pem_law\<close>, \<open>sign_law\<close>,
  \<open>agreement_law\<close>, a ZeroMQ that takes every frame). What the program hands to ZeroMQ is the list
  \<open>wire\<close>. The loops of the two network threads run over the list of events of their turns; the
  number of steps of the display thread is explicit, with theorems that enough steps exist. Runs of
  interleaved threads have no fuel: they are finite sequences of steps of a relation, and where a run
  must end, a rank bounds its length.

  \<^bold>\<open>What is not modelled.\<close> In \<open>Shutdown\<close> and \<open>Lifecycle\<close> the processing of one received frame, and in
  \<open>Lifecycle\<close> a command, are one step; finer interleavings inside them are not considered, except for
  the two sends of \<open>SendViaRouter\<close>. Memory orders weaker than sequential consistency; failure to create
  a thread, and \<open>std::bad_alloc\<close>; the prompt, the line editor and its history limit; the global set-up
  and clean-up calls of OpenSSL; the lines that \<open>main\<close> only prints; the unit tests and build files.
\<close>

section \<open>Frames from other peers\<close>

text \<open>The interface of the command line is installed and the containers are well-formed.\<close>
definition serving :: "app \<Rightarrow> bool" where
  "serving s \<longleftrightarrow> net_wf s \<and> userMessageHandler s = Some on_message \<and> connectionHandler s = Some on_connection"

lemma whole_milliseconds_fields [simp]:
  "GetType (whole_milliseconds m) = GetType m" "GetPayload (whole_milliseconds m) = GetPayload m"
  by (simp_all add: whole_milliseconds_def GetType_def GetPayload_def)

lemma CreateHandshake_fields [simp]:
  "GetType (CreateHandshakeMessage e i k) = HANDSHAKE"
  "GetPayload (CreateHandshakeMessage e i k) = put_u16 (of_nat (length i)) @ string_to_bytes i @ k"
  by (simp_all add: CreateHandshakeMessage_def Message_make_def GetType_def GetPayload_def)

lemma CreateText_fields [simp]:
  "GetType (CreateTextMessage e txt) = TEXT" "GetPayload (CreateTextMessage e txt) = string_to_bytes txt"
  by (simp_all add: CreateTextMessage_def Message_make_def GetType_def GetPayload_def)

lemma handshake_read_back:
  assumes "length i + length k < 2 ^ 32 - 15"
  shows "Deserialize (Serialize (CreateHandshakeMessage e i k)) = Inr (whole_milliseconds (CreateHandshakeMessage e i k))"
  using assms by (intro read_back)
    (simp_all add: message_wf_def CreateHandshakeMessage_def Message_make_def u16_field.length_enc)

lemma text_read_back:
  assumes "length txt < 2 ^ 32 - 13"
  shows "Deserialize (Serialize (CreateTextMessage e txt)) = Inr (whole_milliseconds (CreateTextMessage e txt))"
  using assms by (intro read_back) (simp_all add: message_wf_def CreateTextMessage_def Message_make_def)

text \<open>The entry that a handshake over the router leaves in the directory.\<close>
definition announced :: "znv \<Rightarrow> string \<Rightarrow> byte list \<Rightarrow> PeerInfo" where
  "announced e i key = \<lparr>peer_id = i, address = [], port = indeterminate_port e, publicKey = key,
     isConnected = True, lastSeen = clock_now e\<rparr>"

lemma handshake_effect:
  assumes "serving s" and "CHR '':'' \<notin> set k" and "length i < 2 ^ 16" and "length i + length key < 2 ^ 32 - 15"
  shows "\<exists>t. process_frame e k (Serialize (CreateHandshakeMessage e' i key)) s = Returns () t \<and>
    pm_wf (peerManager t) \<and>
    (\<forall>j. GetPeer j (peerManager t) = (if j = i then Some (announced e i key) else GetPeer j (peerManager s))) \<and>
    displayQueue (userInterface t) = displayQueue (userInterface s) @
      [ShowSuccess (''Connected to peer: '' @ i), ShowSystemMessage (''Handshake received from '' @ i)] \<and>
    wire t = (if k = i then wire (SendViaRouter e i (CreateHandshakeMessage e
      (peer_id (localPeer (peerManager s))) (publicKey (localPeer (peerManager s)))) s) else wire s)"
proof -
  have wf: "pm_wf (peerManager s)" using assms(1) by (simp add: serving_def net_wf_def)
  have find: "find_char (CHR '':'') k = None" using assms(2) by (simp add: find_char_def)
  have router: "wire (SendViaRouter e i m (s\<lparr>peerManager := pm, userInterface := c\<rparr>)) = wire (SendViaRouter e i m s)" for m pm c
    by (simp add: SendViaRouter_def Let_def send_frame_def split: send_result.split)
  show ?thesis
    using assms(1) wf handshake_fields_payload [OF assms(3), of key] handshake_read_back [OF assms(4), of e'] find router
    by (auto simp: process_frame_def HandleMessage_def receive_handshake_def handshake_peer_def Let_def serving_def
        notify_connection_def notify_message_def on_connection_def on_message_def actual_peer_id_def announced_def
        DisplaySuccess_def DisplaySystemMessage_def PeerInfo_uninitialised_def GetLocalPeer_def
        GetPeer_simps pm_wf_intros)
qed

section \<open>A network of such programs\<close>

text \<open>
  Several copies of the program and nothing else: each takes commands, its threads take turns, and
  every frame that ZeroMQ delivers to one of them was handed to ZeroMQ by one of them. Routing,
  delays, losses and duplicates are left open. \<open>received_data\<close> are the message frames of a turn.
\<close>
fun received_data :: "net_call \<Rightarrow> byte list set" where
  "received_data (TurnRouter (RouterReadable (Received identity) (Received data))) = {data}"
| "received_data (TurnPoller (DealersReadable readable)) = {data. \<exists>k. readable k = Some (Received data)}"
| "received_data _ = {}"

definition sent_data :: "app \<Rightarrow> byte list set" where
  "sent_data s = {data. \<exists>r more. Frame r more data \<in> set (wire s)}"

definition started :: "app \<Rightarrow> bool" where
  "started s \<longleftrightarrow> (\<exists>pm. s = NetImpl_new pm CLIInterface_new \<and> (\<forall>(k, p) \<in> set (peers pm). \<not> isConnected p))"

inductive chat_network :: "app list \<Rightarrow> bool" where
  chat_init: "\<forall>s \<in> set nodes. started s \<Longrightarrow> chat_network nodes"
| chat_ui: "chat_network nodes \<Longrightarrow> i < length nodes \<Longrightarrow> chat_network (nodes[i := on_ui f (nodes ! i)])"
| chat_run: "chat_network nodes \<Longrightarrow> i < length nodes \<Longrightarrow> chat_network (nodes[i := run_prologue (nodes ! i)])"
| chat_command: "chat_network nodes \<Longrightarrow> i < length nodes
    \<Longrightarrow> chat_network (nodes[i := final_state (ProcessCommand e tm input (nodes ! i))])"
| chat_call: "chat_network nodes \<Longrightarrow> i < length nodes \<Longrightarrow> received_data c \<subseteq> \<Union> (sent_data ` set nodes)
    \<Longrightarrow> chat_network (nodes[i := final_state (run_call e c (nodes ! i))])"

text \<open>A node that has sent nothing and has no reason to.\<close>
definition silent :: "app \<Rightarrow> bool" where
  "silent s \<longleftrightarrow> wire s = [] \<and> (dealerSockets s = [] \<or> socketsMutex s) \<and>
     (\<forall>(k, p) \<in> set (peers (peerManager s)). \<not> isConnected p)"

lemma GetAllPeers_stored: "p \<in> set (GetAllPeers e pm) \<Longrightarrow> \<exists>k. (k, p) \<in> set (peers pm)"
proof -
  have "snd ` set (List.map_filter (\<lambda>k. map_option (Pair k) (umap_find k m)) ks) \<subseteq> snd ` set m" for ks and m :: "PeerInfo umap"
    by (induction ks) (auto simp: map_filter_simps umap_find_def dest!: map_of_SomeD split: option.splits intro: rev_image_eqI)
  then show "p \<in> set (GetAllPeers e pm) \<Longrightarrow> ?thesis"
    by (fastforce simp: GetAllPeers_def umap_items_def)
qed

lemma silent_offline: "silent s \<Longrightarrow> \<forall>p \<in> set (GetAllPeers e (peerManager s)). \<not> isConnected p"
  using GetAllPeers_stored by (fastforce simp: silent_def)

lemma silent_on_ui [simp]: "silent (on_ui f s) = silent s"
  by (simp add: silent_def)

lemma silent_log [simp]: "silent (log_error l s) = silent s"
  by (simp add: silent_def)

lemma silent_route_turn: "silent s \<Longrightarrow> received_data (TurnRouter ev) = {} \<Longrightarrow> silent (final_state (route_turn e ev s))"
  by (auto simp: route_turn_def split: router_event.splits recv_result.splits)

lemma silent_broadcast_fold:
  assumes "silent s" and "\<forall>p \<in> set ps. \<not> isConnected p"
  shows "fold (\<lambda>p s. if isConnected p then SendViaRouter e (peer_id p) msg s else s) ps s = s"
  using assms by (induction ps) auto

lemma silent_run_call:
  assumes "silent s" and "received_data c = {}"
  shows "silent (final_state (run_call e c s))"
proof (cases "socketsMutex s")
  case held: True
  show ?thesis
  proof (cases c)
    case (TurnRouter ev)
    then show ?thesis using silent_route_turn [OF assms(1), of ev e] assms by (cases "route_turn e ev s") auto
  next
    case (TurnPoller ev)
    then show ?thesis using assms held by (simp add: poll_turn_def)
  next
    case (CallStart p)
    then show ?thesis using assms by (simp add: silent_def Start_def Let_def split: option.split)
  next
    case CallStop
    then show ?thesis using assms held by (simp add: silent_def Stop_def)
  qed (use assms held in \<open>simp_all add: ConnectToPeer_def DisconnectPeer_def SendMessage_def SendToPeer_def
        BroadcastMessage_def NetworkManager_GetConnectedPeers_def\<close>)
next
  case free: False
  then have none: "dealerSockets s = []" using assms(1) by (simp add: silent_def)
  note offline = silent_offline [OF assms(1), of e]
  show ?thesis
  proof (cases c)
    case (TurnRouter ev)
    then show ?thesis using silent_route_turn [OF assms(1), of ev e] assms by (cases "route_turn e ev s") auto
  next
    case (TurnPoller ev)
    then show ?thesis using assms free none by (simp add: poll_turn_free)
  next
    case (CallBroadcast msg)
    then show ?thesis using assms free none silent_broadcast_fold [OF assms(1) offline]
      by (simp add: BroadcastMessage_router_only)
  qed (use assms free none in \<open>simp_all add: silent_def dialled_def set_mutex_def log_error_def umap.find_empty
        ConnectToPeer_cases DisconnectPeer_def SendMessage_def SendToPeer_unlocked Start_def Stop_def Let_def
        NetworkManager_GetConnectedPeers_def split: option.split\<close>)
qed

lemma command_call_receives_nothing: "command_call c \<Longrightarrow> received_data c = {}"
  by (cases c) simp_all

lemma silent_ProcessCommand: "silent s \<Longrightarrow> silent (final_state (ProcessCommand e tm input s))"
  by (rule ProcessCommand_keeps [where I = silent]) (simp_all add: silent_run_call command_call_receives_nothing)

lemma update_keeps_all: "\<forall>s \<in> set nodes. P s \<Longrightarrow> P t \<Longrightarrow> \<forall>s \<in> set (nodes[i := t]). P s"
  using set_update_subset_insert [of nodes i t] by blast

lemma chat_network_silent: "chat_network nodes \<Longrightarrow> \<forall>s \<in> set nodes. silent s"
proof (induction rule: chat_network.induct)
  case (chat_init nodes)
  then show ?case by (force simp: started_def silent_def NetImpl_new_def)
next
  case (chat_call nodes i c e)
  then have "sent_data s = {}" if "s \<in> set nodes" for s
    using that by (auto simp: silent_def sent_data_def)
  with chat_call have "received_data c = {}" by auto
  with chat_call show ?case by (intro update_keeps_all silent_run_call) auto
next
  case (chat_run nodes i)
  then have "silent (nodes ! i)" by auto
  then have "silent (run_prologue (nodes ! i))"
    by (simp add: run_prologue_def SetMessageHandler_def SetConnectionHandler_def silent_def)
  with chat_run show ?case by (intro update_keeps_all) auto
next
  case (chat_command nodes i e tm input)
  then show ?case by (intro update_keeps_all silent_ProcessCommand) auto
next
  case (chat_ui nodes i f)
  then show ?case by (intro update_keeps_all) auto
qed

section \<open>Properties\<close>

definition serving_app :: app where
  "serving_app = (run_prologue example_app)\<lparr>running := True, routerSocket := True, routerThread := True, pollerThread := True\<rparr>"

lemma serving_app_serving: "serving serving_app"
  using app_reachable_invariant [OF app_run [OF example_app_reachable]]
  by (simp add: serving_def serving_app_def net_wf_def run_prologue_def SetMessageHandler_def SetConnectionHandler_def)

text \<open>
  C2: Copies of the program never talk to each other. In a network that consists of this program
  only, started without connected peers, no command of any user and no interleaving of the threads
  ever makes a node hand a frame to ZeroMQ: each \<open>connect\<close> stops before its handshake, and nobody
  answers a handshake that was never sent.
\<close>
theorem copies_never_talk:
  assumes "chat_network nodes" and "s \<in> set nodes"
  shows "wire s = [] \<and> GetConnectedPeers e (peerManager s) = []"
proof -
  have "silent s" using chat_network_silent [OF assms(1)] assms(2) by blast
  then show ?thesis
    using silent_offline [of s e] by (simp add: silent_def GetConnectedPeers_def GetAllPeers_def)
qed

theorem copies_never_talk_witness:
  "wire (final_state (ProcessCommand example_znv example_terminal ''connect 10.0.0.2 8080'' example_app)) = []"
proof -
  have "started example_app"
    unfolding started_def example_app_def by (rule exI [of _ "PeerManager_new example_znv"]) (simp add: PeerManager_new_def)
  then have "chat_network [example_app, example_app]" by (intro chat_init) simp
  from chat_command [OF this, of 0 example_znv example_terminal "''connect 10.0.0.2 8080''"]
  have "chat_network [final_state (ProcessCommand example_znv example_terminal ''connect 10.0.0.2 8080'' example_app), example_app]"
    by simp
  from copies_never_talk [OF this, of _ example_env] show ?thesis by simp
qed

text \<open>
  C29: A text message is shown as it was typed. A frame that holds the text message of any sender,
  from any id, is processed without an exception; the text is queued for display under the id of the
  connection, and neither the directory nor the wire changes.
\<close>
theorem text_message_shown:
  assumes "serving s" and "length txt < 2 ^ 32 - 13"
  shows "process_frame e k (Serialize (CreateTextMessage e' txt)) s =
    Returns () (on_ui (DisplayMessage k txt True) s)"
  using assms(1) text_read_back [OF assms(2), of e']
  by (simp add: process_frame_def HandleMessage_def actual_peer_id_def notify_message_def on_message_def serving_def
      on_ui_def)

theorem text_message_shown_witness:
  "process_frame example_znv ''bob'' (Serialize (CreateTextMessage example_znv ''hello'')) serving_app =
     Returns () (on_ui (DisplayMessage ''bob'' ''hello'' True) serving_app)"
  by (rule text_message_shown [OF serving_app_serving]) simp

text \<open>
  Only texts and handshakes have an effect. A frame with a message of any other type, an enumerator
  or not, is read and dropped: no ping is answered and no peer list is looked at.
\<close>
theorem other_types_ignored:
  assumes "serving s" and "Deserialize data = Inr m" and "GetType m \<notin> {TEXT, HANDSHAKE}"
  shows "process_frame e k data s = Returns () s"
  using assms by (simp add: process_frame_def HandleMessage_def notify_message_def on_message_def serving_def)



text \<open>
  C13: A remote peer can keep the program from starting again. A handshake whose announced id is
  \<open>a|b|c\<close> with \<open>c\<close> no number is recorded under that id; once the directory is saved, every later
  start with that peers file ends with status 1 before the network is started, and leaves the file
  as it is.
\<close>
theorem poisoned_peers_file:
  assumes "serving s" and "CHR '':'' \<notin> set k" and "i = a @ CHR ''|'' # b @ CHR ''|'' # c"
    and "set (a @ b @ c) \<inter> {CHR ''|'', CHR 0x0A} = {}" and "stoul 10 c = Inl f"
    and "length i < 2 ^ 16" and "length i + length key < 2 ^ 32 - 15"
    and "permutes_keys e2" and "can_open_for_writing e2 (opt_peers_file opts)" and "\<not> opt_help opts"
  shows "\<exists>t. process_frame e k (Serialize (CreateHandshakeMessage e' i key)) s = Returns () t \<and>
    (let fs' = SavePeersToFile e2 (opt_peers_file opts) (peerManager t) fs in
     main e3 lib tm n opts inputs fs' = Exits 1 fs')"
proof -
  obtain t where t: "process_frame e k (Serialize (CreateHandshakeMessage e' i key)) s = Returns () t"
      "pm_wf (peerManager t)" "GetPeer i (peerManager t) = Some (announced e i key)"
    using handshake_effect [OF assms(1,2,6,7), of e e'] by auto
  have "parse_peer_line e3 (line_body (announced e i key)) = Inl f"
    using assms(3-5) by (intro parse_poisoned_line [of _ a b c]) (auto simp: announced_def)
  moreover have "CHR 0x0A \<notin> set (line_body (announced e i key))"
    using assms(3,4) by (auto simp: line_body_def announced_def)
  ultimately have "\<exists>h. fst (LoadPeersFromFile e3 (opt_peers_file opts)
      (SavePeersToFile e2 (opt_peers_file opts) (peerManager t) fs) pm) = Inl h" for pm
    using poisoned_load [OF assms(8) t(2) assms(9) t(3)] by blast
  from main_load_fails [OF assms(10) this] t(1) show ?thesis unfolding Let_def by blast
qed

theorem poisoned_peers_file_witness:
  "\<exists>t. process_frame example_znv ''eve'' (Serialize (CreateHandshakeMessage example_znv ''x|y|z'' [1])) serving_app = Returns () t \<and>
    (let fs' = SavePeersToFile example_znv ''peers.txt'' (peerManager t) Map.empty in
     main example_znv example_lib example_terminal 0 default_options [] fs' = Exits 1 fs')"
proof -
  have "stoul 10 ''z'' = Inl (InvalidArgument ''stoul'')"
    by (simp add: stoul_def is_space_def split_sign_def magnitude_def digit_in_def digit_value_def)
  moreover have "can_open_for_writing example_znv ''peers.txt''" by (simp add: example_znv_def)
  ultimately show ?thesis
    using poisoned_peers_file [OF serving_app_serving, of "''eve''" "''x|y|z''" "''x''" "''y''" "''z''"
        "InvalidArgument ''stoul''" "[1]" example_znv default_options example_znv example_znv Map.empty example_znv
        example_lib example_terminal 0 "[]"]
    by (simp add: default_options_def)
qed

end
